(* ===== verification/Prelude.thy ===== *)
theory Prelude
  imports Main "HOL-Library.AList" "HOL-Library.Sublist" "HOL-Library.Char_ord"
begin

text \<open>
  Shared vocabulary of the email-db model: the names of the model's types, the
  JavaScript runtime behaviour the sources rely on (truthiness of optional strings,
  \<open>new Set(array)\<close> and \<open>Set.prototype.add\<close> on insertion-ordered sets,
  \<open>String.prototype.split\<close> and \<open>Array.prototype.join\<close> with a one-character
  separator), and the generic list and association-list lemmas the component
  theories share.  A JavaScript object used as a dictionary keeps its string keys in
  insertion order; it is modelled as an association list, with \<open>AList.update\<close>
  for \<open>obj[k] = v\<close> (in place when \<open>k\<close> is present, appended otherwise) and
  \<open>AList.delete\<close> for \<open>delete obj[k]\<close>.
\<close>

named_theorems js_simps "evaluation rules of the modelled JavaScript runtime helpers"

type_synonym email = string
type_synonym tag = string
type_synonym locale_t = string
type_synonym timestamp = int

subsection \<open>Truthiness\<close>

text \<open>A value of type \<open>string | undefined\<close> in a boolean context: \<open>undefined\<close> and
  the empty string are falsy.\<close>

definition js_truthy :: "string option \<Rightarrow> bool" where
  "js_truthy v = (case v of None \<Rightarrow> False | Some s \<Rightarrow> s \<noteq> [])"

lemma js_truthy_simps [simp, js_simps]:
  "js_truthy None = False"
  "js_truthy (Some s) = (s \<noteq> [])"
  by (simp_all add: js_truthy_def)

subsection \<open>Insertion-ordered sets\<close>

text \<open>A JavaScript \<open>Set\<close> is a duplicate-free list in insertion order.
  \<open>s.add(x)\<close> appends \<open>x\<close> unless present; \<open>new Set(xs)\<close> adds the
  elements of \<open>xs\<close> one by one, so the first occurrence of each value wins.\<close>

definition js_set_add :: "'a \<Rightarrow> 'a list \<Rightarrow> 'a list" where
  "js_set_add x xs = (if x \<in> set xs then xs else xs @ [x])"

definition js_set_of :: "'a list \<Rightarrow> 'a list" where
  "js_set_of xs = fold js_set_add xs []"

lemma set_js_set_add [simp]: "set (js_set_add x xs) = insert x (set xs)"
  by (auto simp: js_set_add_def)

lemma distinct_js_set_add [simp]: "distinct (js_set_add x xs) = distinct xs"
  by (simp add: js_set_add_def)

lemma set_fold_js_set_add [simp]: "set (fold js_set_add xs ys) = set ys \<union> set xs"
  by (induction xs arbitrary: ys) auto

lemma distinct_fold_js_set_add [simp]: "distinct (fold js_set_add xs ys) = distinct ys"
  by (induction xs arbitrary: ys) auto

lemma fold_js_set_add_subset: "set xs \<subseteq> set ys \<Longrightarrow> fold js_set_add xs ys = ys"
  by (induction xs arbitrary: ys) (auto simp: js_set_add_def)

lemma fold_js_set_add_distinct:
  "distinct (ys @ xs) \<Longrightarrow> fold js_set_add xs ys = ys @ xs"
  by (induction xs arbitrary: ys) (auto simp: js_set_add_def)

lemma set_js_set_of [simp]: "set (js_set_of xs) = set xs"
  by (simp add: js_set_of_def)

lemma distinct_js_set_of [simp]: "distinct (js_set_of xs)"
  by (simp add: js_set_of_def)

lemma js_set_of_distinct: "distinct xs \<Longrightarrow> js_set_of xs = xs"
  by (simp add: js_set_of_def fold_js_set_add_distinct)

subsection \<open>Splitting and joining text\<close>

text \<open>\<open>s.split(c)\<close> for a one-character separator: the pieces between the
  occurrences of \<open>c\<close>, always at least one (\<open>''.split(c)\<close> is \<open>['']\<close>).\<close>

fun split_on :: "char \<Rightarrow> string \<Rightarrow> string list" where
  "split_on c [] = [[]]"
| "split_on c (x # xs) =
     (let ws = split_on c xs in
      if x = c then [] # ws else (x # hd ws) # tl ws)"

text \<open>\<open>ws.join(c)\<close>.\<close>

fun join_with :: "char \<Rightarrow> string list \<Rightarrow> string" where
  "join_with c [] = []"
| "join_with c [w] = w"
| "join_with c (w # ws) = w @ c # join_with c ws"

lemma split_on_nonempty [simp]: "split_on c s \<noteq> []"
  by (induction s) (auto simp: Let_def)

lemma join_with_Cons:
  "ws \<noteq> [] \<Longrightarrow> join_with c (w # ws) = w @ c # join_with c ws"
  by (cases ws) auto

lemma join_split_on: "join_with c (split_on c s) = s"
proof (induction s)
  case Nil
  then show ?case by simp
next
  case (Cons x xs)
  obtain w ws where split: "split_on c xs = w # ws"
    by (cases "split_on c xs") auto
  show ?case
  proof (cases "x = c")
    case True
    with Cons.IH split show ?thesis by (simp add: join_with_Cons)
  next
    case False
    with Cons.IH split show ?thesis by (cases ws) auto
  qed
qed

lemma split_on_append_sep:
  "c \<notin> set w \<Longrightarrow> split_on c (w @ c # s) = w # split_on c s"
  by (induction w) (auto simp: Let_def)

lemma split_on_no_sep: "c \<notin> set w \<Longrightarrow> split_on c w = [w]"
  by (induction w) (auto simp: Let_def)

lemma split_join_with:
  "ws \<noteq> [] \<Longrightarrow> \<forall>w\<in>set ws. c \<notin> set w \<Longrightarrow> split_on c (join_with c ws) = ws"
proof (induction ws rule: join_with.induct)
  case (3 w v vs)
  then show ?case by (simp add: split_on_append_sep)
qed (simp_all add: split_on_no_sep)

subsection \<open>Association lists as JavaScript objects\<close>

text \<open>The key list of an object, in iteration order (\<open>Object.keys\<close>, \<open>for ... in\<close>).\<close>

abbreviation keys :: "('k \<times> 'v) list \<Rightarrow> 'k list" where
  "keys al \<equiv> map fst al"

lemma map_of_Some_in_keys: "map_of al k = Some v \<Longrightarrow> k \<in> set (keys al)"
  by (metis map_of_SomeD fst_conv image_eqI set_map)

lemma set_update_subset: "set (AList.update k v al) \<subseteq> insert (k, v) (set al)"
  by (induction al) auto

lemma set_delete_subset: "set (AList.delete k al) \<subseteq> set al"
  by (auto simp: AList.delete_eq)

lemma dom_delete [simp]: "fst ` set (AList.delete k al) = fst ` set al - {k}"
  by (auto simp: AList.delete_eq)

lemma keys_map_entry [simp]: "keys (AList.map_entry k f al) = keys al"
  by (induction al) auto

lemma map_of_map_entry:
  "map_of (AList.map_entry k f al) = (map_of al)(k := map_option f (map_of al k))"
  by (induction al) (auto simp: fun_eq_iff)

lemma update_new_key: "k \<notin> set (keys al) \<Longrightarrow> AList.update k v al = al @ [(k, v)]"
  by (induction al) auto

text \<open>Filling a fresh object from another one, key by key, copies the selected
  entries in order.\<close>

lemma fold_update_filter:
  "distinct (keys xs) \<Longrightarrow> set (keys xs) \<inter> set (keys acc) = {} \<Longrightarrow>
   fold (\<lambda>(k, v) res. if P k v then AList.update k v res else res) xs acc
     = acc @ filter (\<lambda>(k, v). P k v) xs"
  by (induction xs arbitrary: acc) (auto simp: update_new_key)

end
