(* ===== verification/Regex.thy ===== *)
theory Regex
  imports Prelude
begin

text \<open>
  The JavaScript regular-expression matcher, as far as the sources use it: a
  non-global \<open>String.prototype.match(re)\<close> with no anchors, captures or
  back-references read.  ECMAScript matching is backtracking with a fixed priority:
  the left alternative before the right, a greedy quantifier tries one more
  iteration before it stops, and an iteration of a starred term that consumes
  nothing fails (the empty check of RepeatMatcher).  The first successful path at
  the leftmost start position is the match, \<open>match[0]\<close> its text.

  \<open>ends r s\<close> lists, in that priority order, the remainders \<open>t\<close> of \<open>s\<close>
  after a path of \<open>r\<close> succeeds on a prefix of \<open>s\<close>.  \<open>x+\<close>, \<open>x{n,}\<close> and
  \<open>x{1,3}\<close> are spelled with \<open>Seq\<close>, \<open>Star\<close> and \<open>Alt _ Eps\<close> in the same
  priority order.  The star loop stops because every accepted iteration consumes a
  character: it is given \<open>length s\<close> units of fuel, which is exactly enough
  (\<open>star_fuel_cong\<close>).  Characters are 8-bit code units.

  The section proves that \<open>ends\<close> refines the regular-language semantics
  \<open>matches\<close> (\<open>ends_iff\<close>), that truncating the input after a match keeps the
  priority order (\<open>ends_append_filter\<close>), and from it that \<open>search\<close> returns a
  substring in the language, finds one whenever there is one, and returns its own
  result when run on it (\<open>search_idem\<close>).
\<close>

datatype re = Atom "char \<Rightarrow> bool" | Eps | Seq re re | Alt re re | Star re

primrec star_fuel :: "nat \<Rightarrow> (string \<Rightarrow> string list) \<Rightarrow> string \<Rightarrow> string list" where
  "star_fuel 0 f s = [s]"
| "star_fuel (Suc n) f s =
     concat (map (star_fuel n f) (filter (\<lambda>t. length t < length s) (f s))) @ [s]"

primrec ends :: "re \<Rightarrow> string \<Rightarrow> string list" where
  "ends (Atom p) s = (case s of [] \<Rightarrow> [] | c # t \<Rightarrow> if p c then [t] else [])"
| "ends Eps s = [s]"
| "ends (Seq r1 r2) s = concat (map (ends r2) (ends r1 s))"
| "ends (Alt r1 r2) s = ends r1 s @ ends r2 s"
| "ends (Star r) s = star_fuel (length s) (ends r) s"

text \<open>\<open>s.match(r)\<close>: try the start positions from the left; at the first one with a
  successful path, the text consumed by the first path.\<close>

fun search :: "re \<Rightarrow> string \<Rightarrow> string option" where
  "search r s =
     (case ends r s of
        t # _ \<Rightarrow> Some (take (length s - length t) s)
      | [] \<Rightarrow> (case s of [] \<Rightarrow> None | _ # s' \<Rightarrow> search r s'))"

declare search.simps [simp del]

definition Plus :: "re \<Rightarrow> re" where
  "Plus r = Seq r (Star r)"

definition Lit :: "char \<Rightarrow> re" where
  "Lit c = Atom (\<lambda>d. d = c)"

text \<open>The language of a regular expression, the abstract specification of the
  matcher.\<close>

inductive matches :: "re \<Rightarrow> string \<Rightarrow> bool" where
  m_atom: "p c \<Longrightarrow> matches (Atom p) [c]"
| m_eps: "matches Eps []"
| m_seq: "matches r1 u \<Longrightarrow> matches r2 v \<Longrightarrow> matches (Seq r1 r2) (u @ v)"
| m_alt1: "matches r1 w \<Longrightarrow> matches (Alt r1 r2) w"
| m_alt2: "matches r2 w \<Longrightarrow> matches (Alt r1 r2) w"
| m_star_nil: "matches (Star r) []"
| m_star_cons: "matches r u \<Longrightarrow> u \<noteq> [] \<Longrightarrow> matches (Star r) v \<Longrightarrow> matches (Star r) (u @ v)"

inductive_cases matches_AtomE: "matches (Atom p) w"
inductive_cases matches_EpsE: "matches Eps w"
inductive_cases matches_SeqE: "matches (Seq r1 r2) w"
inductive_cases matches_AltE: "matches (Alt r1 r2) w"

subsection \<open>Remainders are suffixes; the fuel is enough\<close>

lemma star_fuel_suffix:
  assumes f: "\<And>s t. t \<in> set (f s) \<Longrightarrow> suffix t s"
  shows "t \<in> set (star_fuel n f s) \<Longrightarrow> suffix t s"
proof (induction n arbitrary: s)
  case (Suc n)
  then show ?case by (auto dest: f intro: suffix_order.trans)
qed simp

lemma ends_suffix: "t \<in> set (ends r s) \<Longrightarrow> suffix t s"
proof (induction r arbitrary: s t)
  case (Atom p)
  then show ?case by (auto simp: suffix_def split: list.splits if_splits)
next
  case (Seq r1 r2)
  then obtain t1 where t1: "t1 \<in> set (ends r1 s)" and t: "t \<in> set (ends r2 t1)"
    by auto
  show ?case by (rule suffix_order.trans [OF Seq.IH(2) [OF t] Seq.IH(1) [OF t1]])
next
  case (Star r)
  then show ?case by (auto intro: star_fuel_suffix)
qed auto

lemma ends_length: "t \<in> set (ends r s) \<Longrightarrow> length t \<le> length s"
  by (auto dest: ends_suffix suffix_length_le)

lemma star_fuel_cong:
  "length s \<le> n \<Longrightarrow> length s \<le> m \<Longrightarrow> star_fuel n f s = star_fuel m f s"
proof (induction n arbitrary: m s)
  case 0
  then show ?case by (cases m) auto
next
  case (Suc n)
  show ?case
  proof (cases m)
    case 0
    with Suc.prems show ?thesis by simp
  next
    case (Suc m')
    let ?L = "filter (\<lambda>t. length t < length s) (f s)"
    have eq: "map (star_fuel n f) ?L = map (star_fuel m' f) ?L"
    proof (rule map_cong [OF refl])
      fix t assume "t \<in> set ?L"
      with Suc.prems \<open>m = Suc m'\<close> show "star_fuel n f t = star_fuel m' f t"
        by (intro Suc.IH) auto
    qed
    show ?thesis by (simp only: \<open>m = Suc m'\<close> star_fuel.simps eq)
  qed
qed

lemma ends_Star_fuel: "length s \<le> n \<Longrightarrow> ends (Star r) s = star_fuel n (ends r) s"
  using star_fuel_cong [of s "length s" n "ends r"] by simp

subsection \<open>The matcher refines the language\<close>

lemma star_fuel_sound:
  assumes f: "\<And>s t. t \<in> set (f s) \<Longrightarrow> \<exists>u. s = u @ t \<and> matches r u"
  shows "t \<in> set (star_fuel n f s) \<Longrightarrow> \<exists>u. s = u @ t \<and> matches (Star r) u"
proof (induction n arbitrary: s)
  case 0
  then show ?case by (auto intro: m_star_nil)
next
  case (Suc n)
  show ?case
  proof (cases "t = s")
    case True
    then show ?thesis by (auto intro: m_star_nil)
  next
    case False
    with Suc.prems obtain t' where t': "t' \<in> set (f s)" "length t' < length s"
      and t: "t \<in> set (star_fuel n f t')" by auto
    from f [OF t'(1)] obtain u1 where u1: "s = u1 @ t'" "matches r u1" by blast
    from Suc.IH [OF t] obtain u2 where u2: "t' = u2 @ t" "matches (Star r) u2" by blast
    from u1 t'(2) have "u1 \<noteq> []" by auto
    with u1 u2 have "matches (Star r) (u1 @ u2)" by (blast intro: m_star_cons)
    with u1 u2 show ?thesis by auto
  qed
qed

lemma ends_sound: "t \<in> set (ends r s) \<Longrightarrow> \<exists>u. s = u @ t \<and> matches r u"
proof (induction r arbitrary: s t)
  case (Atom p)
  then show ?case by (auto split: list.splits if_splits intro: m_atom)
next
  case Eps
  then show ?case by (auto intro: m_eps)
next
  case (Seq r1 r2)
  then obtain t1 where t1: "t1 \<in> set (ends r1 s)" and t: "t \<in> set (ends r2 t1)"
    by auto
  from Seq.IH(1) [OF t1] obtain u1 where "s = u1 @ t1" "matches r1 u1" by blast
  moreover from Seq.IH(2) [OF t] obtain u2 where "t1 = u2 @ t" "matches r2 u2" by blast
  ultimately show ?case by (auto intro: m_seq)
next
  case (Alt r1 r2)
  then show ?case by (fastforce intro: m_alt1 m_alt2)
next
  case (Star r)
  then show ?case by (auto intro: star_fuel_sound)
qed

lemma ends_complete: "matches r u \<Longrightarrow> t \<in> set (ends r (u @ t))"
proof (induction r u arbitrary: t rule: matches.induct)
  case (m_seq r1 u r2 v)
  have "v @ t \<in> set (ends r1 (u @ v @ t))" by (rule m_seq.IH(1))
  moreover have "t \<in> set (ends r2 (v @ t))" by (rule m_seq.IH(2))
  ultimately show ?case by auto
next
  case (m_star_nil r)
  then show ?case by (cases "length t") auto
next
  case (m_star_cons r u v)
  obtain n where n: "length (u @ v @ t) = Suc n"
    using \<open>u \<noteq> []\<close> by (cases "length (u @ v @ t)") auto
  have "v @ t \<in> set (filter (\<lambda>x. length x < length (u @ v @ t)) (ends r (u @ v @ t)))"
    using m_star_cons.IH(1) [of "v @ t"] \<open>u \<noteq> []\<close> by simp
  moreover have "t \<in> set (star_fuel n (ends r) (v @ t))"
  proof -
    have "length (v @ t) \<le> n"
      using n \<open>u \<noteq> []\<close> by (cases u) auto
    then have "ends (Star r) (v @ t) = star_fuel n (ends r) (v @ t)"
      by (rule ends_Star_fuel)
    then show ?thesis using m_star_cons.IH(2) [of t] by (simp only:)
  qed
  ultimately show ?case using n \<open>u \<noteq> []\<close> by (cases u) (auto intro!: exI [of _ "v @ t"])
qed auto

theorem ends_iff: "t \<in> set (ends r s) \<longleftrightarrow> (\<exists>u. s = u @ t \<and> matches r u)"
proof
  assume "t \<in> set (ends r s)"
  then show "\<exists>u. s = u @ t \<and> matches r u" by (rule ends_sound)
next
  assume "\<exists>u. s = u @ t \<and> matches r u"
  then obtain u where "s = u @ t" "matches r u" by blast
  then show "t \<in> set (ends r s)" by (simp add: ends_complete)
qed

subsection \<open>Cutting the input after a match keeps the priority order\<close>

lemma suffix_of_append [simp]: "suffix ys (xs @ ys)"
  by (simp add: suffix_def)

lemma filter_suffix_Nil:
  "\<forall>u\<in>set L. suffix u t \<Longrightarrow> \<not> suffix ys t \<Longrightarrow> filter (suffix ys) L = []"
  by (auto simp: filter_empty_conv dest: suffix_order.trans)

lemma concat_map_filter_drop:
  "\<forall>x\<in>set xs. \<not> P x \<longrightarrow> h x = [] \<Longrightarrow> concat (map h (filter P xs)) = concat (map h xs)"
  by (induction xs) auto

lemma star_fuel_append_filter:
  assumes fg: "\<And>xs. filter (suffix ys) (f (xs @ ys)) = map (\<lambda>t. t @ ys) (g xs)"
    and f_suffix: "\<And>s t. t \<in> set (f s) \<Longrightarrow> suffix t s"
  shows "length (xs @ ys) \<le> n \<Longrightarrow>
    filter (suffix ys) (star_fuel n f (xs @ ys)) = map (\<lambda>t. t @ ys) (star_fuel n g xs)"
proof (induction n arbitrary: xs)
  case 0
  then show ?case by simp
next
  case (Suc n)
  let ?Q = "suffix ys"
  let ?F = "filter (\<lambda>t. length t < length (xs @ ys)) (f (xs @ ys))"
  let ?G = "filter (\<lambda>t. length t < length xs) (g xs)"
  have drop: "\<forall>t\<in>set ?F. \<not> ?Q t \<longrightarrow> filter ?Q (star_fuel n f t) = []"
  proof (intro ballI impI)
    fix t assume "\<not> ?Q t"
    have "\<forall>u\<in>set (star_fuel n f t). suffix u t"
      using star_fuel_suffix [OF f_suffix] by blast
    then show "filter ?Q (star_fuel n f t) = []"
      using \<open>\<not> ?Q t\<close> by (rule filter_suffix_Nil)
  qed
  have "filter ?Q ?F = filter (\<lambda>t. length t < length (xs @ ys)) (filter ?Q (f (xs @ ys)))"
    by (simp add: conj_commute)
  also have "\<dots> = map (\<lambda>t. t @ ys) ?G"
    by (simp add: fg filter_map o_def)
  finally have QF: "filter ?Q ?F = map (\<lambda>t. t @ ys) ?G" .
  have IH: "filter ?Q (star_fuel n f (z @ ys)) = map (\<lambda>t. t @ ys) (star_fuel n g z)"
    if "z \<in> set ?G" for z
    using that Suc.prems by (intro Suc.IH) auto
  have IHs: "map (\<lambda>z. filter ?Q (star_fuel n f (z @ ys))) ?G
      = map (\<lambda>z. map (\<lambda>t. t @ ys) (star_fuel n g z)) ?G"
    by (rule map_cong [OF refl]) (rule IH)
  have "filter ?Q (star_fuel (Suc n) f (xs @ ys))
      = concat (map (\<lambda>t. filter ?Q (star_fuel n f t)) ?F) @ [xs @ ys]"
    by (simp add: filter_concat o_def)
  also have "\<dots> = concat (map (\<lambda>t. filter ?Q (star_fuel n f t)) (filter ?Q ?F)) @ [xs @ ys]"
    using drop by (simp only: concat_map_filter_drop)
  also have "\<dots> = concat (map (\<lambda>z. filter ?Q (star_fuel n f (z @ ys))) ?G) @ [xs @ ys]"
    by (simp only: QF map_map o_def)
  also have "\<dots> = concat (map (\<lambda>z. map (\<lambda>t. t @ ys) (star_fuel n g z)) ?G) @ [xs @ ys]"
    by (simp only: IHs)
  also have "\<dots> = map (\<lambda>t. t @ ys) (star_fuel (Suc n) g xs)"
    by (simp add: map_concat o_def)
  finally show ?case .
qed

theorem ends_append_filter:
  "filter (suffix ys) (ends r (xs @ ys)) = map (\<lambda>t. t @ ys) (ends r xs)"
proof (induction r arbitrary: xs)
  case (Atom p)
  then show ?case
    by (cases xs) (auto split: list.splits dest: suffix_length_le)
next
  case (Seq r1 r2)
  let ?Q = "suffix ys"
  have drop: "\<forall>t\<in>set (ends r1 (xs @ ys)). \<not> ?Q t \<longrightarrow> filter ?Q (ends r2 t) = []"
    by (auto intro: filter_suffix_Nil ends_suffix)
  have "filter ?Q (ends (Seq r1 r2) (xs @ ys))
      = concat (map (\<lambda>t. filter ?Q (ends r2 t)) (ends r1 (xs @ ys)))"
    by (simp add: filter_concat o_def)
  also have "\<dots> = concat (map (\<lambda>t. filter ?Q (ends r2 t)) (filter ?Q (ends r1 (xs @ ys))))"
    using drop by (simp only: concat_map_filter_drop)
  also have "\<dots> = concat (map (\<lambda>z. map (\<lambda>t. t @ ys) (ends r2 z)) (ends r1 xs))"
    by (simp add: Seq.IH o_def)
  also have "\<dots> = map (\<lambda>t. t @ ys) (ends (Seq r1 r2) xs)"
    by (simp add: map_concat o_def)
  finally show ?case .
next
  case (Star r)
  have "ends (Star r) xs = star_fuel (length (xs @ ys)) (ends r) xs"
    by (rule ends_Star_fuel) simp
  then show ?case
    using star_fuel_append_filter [of ys "ends r" "ends r" xs "length (xs @ ys)"]
    by (simp add: Star.IH ends_suffix)
qed auto

subsection \<open>The first match\<close>

lemma search_SomeE:
  "search r s = Some m \<Longrightarrow> \<exists>pre t rest. s = pre @ m @ t \<and> ends r (m @ t) = t # rest"
proof (induction r s rule: search.induct)
  case (1 r s)
  show ?case
  proof (cases "ends r s")
    case (Cons t rest)
    then have "suffix t s" using ends_suffix [of t r s] by simp
    then have split: "s = take (length s - length t) s @ t" by (rule suffix_take)
    have "m = take (length s - length t) s"
      using "1.prems" Cons by (simp add: search.simps [of r s])
    with split have s: "s = [] @ m @ t" by simp
    with Cons have "ends r (m @ t) = t # rest" by simp
    with s show ?thesis by blast
  next
    case Nil
    with "1.prems" have "(case s of [] \<Rightarrow> None | _ # s' \<Rightarrow> search r s') = Some m"
      by (simp add: search.simps [of r s])
    then obtain c s' where s: "s = c # s'" and m: "search r s' = Some m"
      by (cases s) auto
    from "1.IH" [OF Nil s m] obtain pre t rest where
      "s' = pre @ m @ t" "ends r (m @ t) = t # rest" by blast
    with s have "s = (c # pre) @ m @ t" "ends r (m @ t) = t # rest" by simp_all
    then show ?thesis by blast
  qed
qed

theorem search_sound: "search r s = Some m \<Longrightarrow> sublist m s \<and> matches r m"
proof -
  assume "search r s = Some m"
  then obtain pre t rest where s: "s = pre @ m @ t" and e: "ends r (m @ t) = t # rest"
    by (blast dest: search_SomeE)
  from e have "t \<in> set (ends r (m @ t))" by simp
  then obtain u where "m @ t = u @ t" "matches r u" by (blast dest: ends_sound)
  with s show ?thesis by (auto simp: sublist_def)
qed

theorem search_complete: "sublist w s \<Longrightarrow> matches r w \<Longrightarrow> \<exists>m. search r s = Some m"
proof -
  assume "sublist w s" and w: "matches r w"
  then obtain ps ss where "s = ps @ w @ ss" by (auto simp: sublist_def)
  then show ?thesis
  proof (induction ps arbitrary: s)
    case Nil
    then have "ss \<in> set (ends r s)" using w by (simp add: ends_complete)
    then show ?case by (cases "ends r s") (auto simp: search.simps [of r s])
  next
    case (Cons c ps)
    have s: "s = c # (ps @ w @ ss)" by (simp add: Cons.prems)
    show ?case
    proof (cases "ends r s")
      case Nil
      with s Cons.IH [of "ps @ w @ ss"] show ?thesis
        by (simp add: search.simps [of r "c # (ps @ w @ ss)"])
    next
      case (Cons t rest)
      then show ?thesis by (simp add: search.simps [of r s])
    qed
  qed
qed

theorem search_idem: "search r s = Some m \<Longrightarrow> search r m = Some m"
proof -
  assume "search r s = Some m"
  then obtain t rest where e: "ends r (m @ t) = t # rest"
    by (blast dest: search_SomeE)
  have "map (\<lambda>z. z @ t) (ends r m) = filter (suffix t) (ends r (m @ t))"
    by (simp add: ends_append_filter)
  also have "\<dots> = t # filter (suffix t) rest"
    by (simp add: e)
  finally obtain zs where "ends r m = [] # zs" by (cases "ends r m") auto
  then show ?thesis by (simp add: search.simps [of r m])
qed

end
