(* ===== verification/Normalizer.thy ===== *)
theory Normalizer
  imports Regex
begin

text \<open>
  The address normalizer of \<open>src/unnamed/part_001\<close> (the most developed version
  of the tool; the earlier versions in \<open>src/src/cli.js\<close>, \<open>part_000\<close> and
  \<open>part_002\<close> have the same regular expression and the same \<open>filter\<close>):
  \<open>EmailRegex\<close> (line 14) as a value of \<open>re\<close>, \<open>filterEmail\<close> (lines
  31--37) as \<open>search\<close> with it, \<open>guessEmailLocale\<close> (lines 68--73), and
  the text-file helpers \<open>readEmailFile\<close> and \<open>saveEmailFile\<close> (lines 39--63)
  on the file's contents.  The main results: a normalized address is in normal form
  (\<open>filterEmail_idem\<close>), it is a substring of the line and in the grammar, it has
  no line break, and a list of normal addresses written by \<open>saveEmailFile\<close> reads
  back unchanged through \<open>readEmailFile\<close>.
\<close>

subsection \<open>Character classes of \<open>EmailRegex\<close>\<close>

text \<open>\<open>\s\<close>: the ECMAScript white space and line terminators that are 8-bit
  code units.\<close>

definition js_space :: "char \<Rightarrow> bool" where
  "js_space c \<longleftrightarrow>
     c \<in> set [CHR 0x09, CHR 0x0A, CHR 0x0B, CHR 0x0C, CHR 0x0D, CHR 0x20, CHR 0xA0]"

text \<open>\<open>[^<>()\[\]\\.,;:\s@"]\<close>\<close>

definition local_char :: "char \<Rightarrow> bool" where
  "local_char c \<longleftrightarrow>
     c \<notin> set [CHR ''<'', CHR ''>'', CHR ''('', CHR '')'', CHR ''['', CHR '']'', CHR 0x5C,
               CHR ''.'', CHR '','', CHR '';'', CHR '':'', CHR ''@'', CHR 0x22]
     \<and> \<not> js_space c"

text \<open>\<open>.\<close>: any character but a line terminator.\<close>

definition dot_char :: "char \<Rightarrow> bool" where
  "dot_char c \<longleftrightarrow> c \<noteq> CHR 0x0A \<and> c \<noteq> CHR 0x0D"

definition digit_char :: "char \<Rightarrow> bool" where
  "digit_char c \<longleftrightarrow> CHR ''0'' \<le> c \<and> c \<le> CHR ''9''"

text \<open>\<open>[a-zA-Z]\<close>\<close>

definition alpha_char :: "char \<Rightarrow> bool" where
  "alpha_char c \<longleftrightarrow> (CHR ''a'' \<le> c \<and> c \<le> CHR ''z'') \<or> (CHR ''A'' \<le> c \<and> c \<le> CHR ''Z'')"

text \<open>\<open>[a-zA-Z\-0-9]\<close>\<close>

definition label_char :: "char \<Rightarrow> bool" where
  "label_char c \<longleftrightarrow> alpha_char c \<or> c = CHR ''-'' \<or> digit_char c"

subsection \<open>The expression\<close>

text \<open>
  \<^verbatim>\<open>/(([^<>()\[\]\\.,;:\s@"]+(\.[^<>()\[\]\\.,;:\s@"]+)*)|(".+"))@((\[[0-9]{1,3}\.[0-9]{1,3}\.[0-9]{1,3}\.[0-9]{1,3}])|(([a-zA-Z\-0-9]+\.)+[a-zA-Z]{2,}))/\<close>
  \<open>[0-9]{1,3}\<close> is a digit followed greedily by at most two more.
\<close>

definition octet :: re where
  "octet = Seq (Atom digit_char) (Alt (Seq (Atom digit_char) (Alt (Atom digit_char) Eps)) Eps)"

definition local_part :: re where
  "local_part =
     Alt (Seq (Plus (Atom local_char)) (Star (Seq (Lit CHR ''.'') (Plus (Atom local_char)))))
         (Seq (Lit CHR 0x22) (Seq (Plus (Atom dot_char)) (Lit CHR 0x22)))"

definition ip_literal :: re where
  "ip_literal =
     Seq (Lit CHR ''['') (Seq octet (Seq (Lit CHR ''.'') (Seq octet (Seq (Lit CHR ''.'')
       (Seq octet (Seq (Lit CHR ''.'') (Seq octet (Lit CHR '']''))))))))"

definition host_name :: re where
  "host_name =
     Seq (Plus (Seq (Plus (Atom label_char)) (Lit CHR ''.'')))
         (Seq (Atom alpha_char) (Seq (Atom alpha_char) (Star (Atom alpha_char))))"

definition EmailRegex :: re where
  "EmailRegex = Seq local_part (Seq (Lit CHR ''@'') (Alt ip_literal host_name))"

lemmas email_regex_defs = EmailRegex_def local_part_def ip_literal_def host_name_def octet_def
  Plus_def Lit_def js_space_def local_char_def dot_char_def digit_char_def alpha_char_def
  label_char_def

subsection \<open>Operations\<close>

text \<open>\<open>filterEmail(line)\<close>: \<open>match[0]\<close> of \<open>line.match(EmailRegex)\<close>, or
  \<open>null\<close>.\<close>

definition filterEmail :: "string \<Rightarrow> email option" where
  "filterEmail line = search EmailRegex line"

text \<open>\<open>guessEmailLocale(email)\<close>: \<open>/\.ru$/\<close> holds exactly when the address
  ends in \<open>.ru\<close> (without the \<open>m\<close> flag \<open>$\<close> matches only at the end).\<close>

definition guessEmailLocale :: "email \<Rightarrow> locale_t" where
  "guessEmailLocale email = (if suffix ''.ru'' email then ''ru'' else ''en'')"

text \<open>The loop of \<open>readEmailFile\<close> over the lines: keep each truthy result of
  \<open>filterEmail\<close>.\<close>

fun emails_of_lines :: "string list \<Rightarrow> email list" where
  "emails_of_lines [] = []"
| "emails_of_lines (line # lines) =
     (case filterEmail line of
        Some email \<Rightarrow> if email \<noteq> [] then email # emails_of_lines lines else emails_of_lines lines
      | None \<Rightarrow> emails_of_lines lines)"

text \<open>\<open>readEmailFile(filename)\<close> on the file's contents, \<open>None\<close> when reading
  fails (the function then returns \<open>[]\<close>).\<close>

definition readEmailFile :: "string option \<Rightarrow> email list" where
  "readEmailFile contents =
     (case contents of None \<Rightarrow> [] | Some text \<Rightarrow> emails_of_lines (split_on CHR 0x0A text))"

text \<open>\<open>saveEmailFile(emails, filename)\<close>: the contents written.\<close>

definition saveEmailFile :: "email list \<Rightarrow> string" where
  "saveEmailFile emails = join_with CHR 0x0A emails"

subsection \<open>Properties\<close>

text \<open>The characters a match can contain.\<close>

primrec atoms_within :: "(char \<Rightarrow> bool) \<Rightarrow> re \<Rightarrow> bool" where
  "atoms_within P (Atom p) = (\<forall>c. p c \<longrightarrow> P c)"
| "atoms_within P Eps = True"
| "atoms_within P (Seq r1 r2) = (atoms_within P r1 \<and> atoms_within P r2)"
| "atoms_within P (Alt r1 r2) = (atoms_within P r1 \<and> atoms_within P r2)"
| "atoms_within P (Star r) = atoms_within P r"

lemma matches_atoms_within: "matches r w \<Longrightarrow> atoms_within P r \<Longrightarrow> \<forall>c\<in>set w. P c"
  by (induction r w rule: matches.induct) auto

lemma EmailRegex_no_newline: "atoms_within (\<lambda>c. c \<noteq> CHR 0x0A) EmailRegex"
  by (auto simp add: email_regex_defs less_eq_char_def)

lemma EmailRegex_not_empty: "\<not> matches EmailRegex []"
proof
  assume "matches EmailRegex []"
  then have "[] \<in> set (ends EmailRegex [])" by (simp add: ends_complete [of _ _ "[]", simplified])
  moreover have "ends EmailRegex [] = []" by (simp add: email_regex_defs)
  ultimately show False by simp
qed

lemma filterEmail_no_newline: "filterEmail line = Some email \<Longrightarrow> CHR 0x0A \<notin> set email"
  unfolding filterEmail_def
  using search_sound matches_atoms_within [OF _ EmailRegex_no_newline] by blast

lemma filterEmail_nonempty: "filterEmail line = Some email \<Longrightarrow> email \<noteq> []"
  unfolding filterEmail_def using search_sound EmailRegex_not_empty by blast

lemma filterEmail_Nil: "filterEmail [] = None"
proof -
  have "ends EmailRegex [] = []" by (simp add: email_regex_defs)
  then show ?thesis by (simp add: filterEmail_def search.simps)
qed

lemma emails_of_lines_normal:
  "\<forall>e\<in>set es. filterEmail e = Some e \<Longrightarrow> emails_of_lines es = es"
  by (induction es) (auto dest: filterEmail_nonempty)

lemma emails_of_lines_source:
  "e \<in> set (emails_of_lines lines) \<Longrightarrow> \<exists>line\<in>set lines. filterEmail line = Some e"
  by (induction lines) (auto split: option.splits if_splits)

lemma readEmailFile_saveEmailFile:
  "\<forall>e\<in>set es. filterEmail e = Some e \<Longrightarrow> readEmailFile (Some (saveEmailFile es)) = es"
proof (cases "es = []")
  case True
  then show ?thesis by (simp add: readEmailFile_def saveEmailFile_def filterEmail_Nil)
next
  case False
  assume normal: "\<forall>e\<in>set es. filterEmail e = Some e"
  then have "\<forall>e\<in>set es. CHR 0x0A \<notin> set e" by (blast dest: filterEmail_no_newline)
  with False have "split_on CHR 0x0A (join_with CHR 0x0A es) = es"
    by (rule split_join_with)
  with normal show ?thesis
    by (simp add: readEmailFile_def saveEmailFile_def emails_of_lines_normal)
qed

subsection \<open>Properties\<close>

text \<open>C5: The normalizer's output is in normal form: normalizing an address it
  returned gives the same address back.\<close>

theorem filterEmail_idem: "filterEmail line = Some email \<Longrightarrow> filterEmail email = Some email"
  unfolding filterEmail_def by (rule search_idem)

theorem filterEmail_idem_witness:
  "filterEmail ''  bad@site.com,'' = Some ''bad@site.com'' \<and>
   filterEmail ''bad@site.com'' = Some ''bad@site.com''"
proof -
  have h: "filterEmail ''  bad@site.com,'' = Some ''bad@site.com''"
    by (simp add: filterEmail_def search.simps email_regex_defs)
  show ?thesis using h filterEmail_idem [OF h] by simp
qed

text \<open>C10: What the normalizer returns is a substring of the line that is an
  address of the grammar of \<open>EmailRegex\<close>; and whenever a line contains such an
  address, the normalizer returns one.\<close>

theorem filterEmail_sound_complete:
  "(filterEmail line = Some email \<longrightarrow> sublist email line \<and> matches EmailRegex email)
   \<and> ((\<exists>w. sublist w line \<and> matches EmailRegex w) \<longrightarrow> filterEmail line \<noteq> None)"
  unfolding filterEmail_def using search_sound search_complete by blast

theorem filterEmail_sound_complete_witness:
  "filterEmail ''x a@b.cc'' = Some ''a@b.cc'' \<and> sublist ''a@b.cc'' ''x a@b.cc''
   \<and> matches EmailRegex ''a@b.cc''"
proof -
  have h: "filterEmail ''x a@b.cc'' = Some ''a@b.cc''"
    by (simp add: filterEmail_def search.simps email_regex_defs)
  show ?thesis using h filterEmail_sound_complete [of "''x a@b.cc''" "''a@b.cc''"] by simp
qed

text \<open>C11: Export and import agree: a list of addresses in normal form written
  by \<open>saveEmailFile\<close> (one per line) is read back unchanged by
  \<open>readEmailFile\<close>.\<close>

theorem read_save_roundtrip:
  "\<forall>e\<in>set es. filterEmail e = Some e \<Longrightarrow> readEmailFile (Some (saveEmailFile es)) = es"
  by (rule readEmailFile_saveEmailFile)

theorem read_save_roundtrip_witness:
  "filterEmail ''a@x.com'' = Some ''a@x.com'' \<and> filterEmail ''b@y.ru'' = Some ''b@y.ru'' \<and>
   readEmailFile (Some (saveEmailFile [''a@x.com'', ''b@y.ru''])) = [''a@x.com'', ''b@y.ru'']"
proof -
  have h: "\<forall>e\<in>set [''a@x.com'', ''b@y.ru'']. filterEmail e = Some e"
    by (simp add: filterEmail_def search.simps email_regex_defs)
  show ?thesis using h read_save_roundtrip [OF h] by simp
qed

end
