(* ===== verification/Store.thy ===== *)
theory Store
  imports Normalizer
begin

text \<open>
  The directory store of \<open>src/unnamed/part_001\<close>, class \<open>EmailDB\<close>: the record
  type (lines 16--29), \<open>load\<close> (75--93), \<open>save\<close> (95--100),
  \<open>lookupByRegexp\<close> (102--110), \<open>allTags\<close> (160--172), \<open>tags\<close>
  (174--179) and \<open>totalEmails\<close> (252--254).

  The in-memory directory \<open>this.db\<close> is a JavaScript object from address to
  record, an association list in insertion order (\<open>db\<close>).  A record's
  \<open>tags\<close> is a \<open>Set\<close>, a duplicate-free list.  \<open>lastDelivered\<close> is the
  ISO-8601 text \<open>moment.format()\<close> produces, at second precision; it is modelled
  by the instant it denotes, seconds since the epoch.  \<open>load\<close> keeps a legacy
  \<open>broken\<close> flag on the record (it deletes \<open>clean\<close> and \<open>dirty\<close>, not
  \<open>broken\<close>), so the in-memory record carries it too.

  The persisted file is the JSON text of the object.  It is modelled by its parse
  (\<open>raw_db\<close>), or \<open>Unparsable\<close>; the filesystem is the directory file and
  its \<open>.tmp\<close> sibling.  What \<open>JSON.stringify\<close> writes for a \<open>Set\<close> is
  \<open>{}\<close>, an object with no entries, and \<open>new Set({})\<close> throws a
  \<open>TypeError\<close> (an object is not iterable): both are modelled, as
  \<open>JEmptyObject\<close> and \<open>NotIterable\<close>.
\<close>

datatype status = Dirty | Broken | Clean

record email_rec =
  tags :: "tag list"
  loc :: "locale_t option"
  status :: "status option"
  broken_flag :: bool
  lastDelivered :: "timestamp option"

type_synonym db = "(email \<times> email_rec) list"

text \<open>What a record holds at rest and after every operation: one entry per
  address, and each tag set duplicate-free.\<close>

definition wf_db :: "db \<Rightarrow> bool" where
  "wf_db db \<longleftrightarrow> distinct (keys db) \<and> (\<forall>(e, r) \<in> set db. distinct (tags r))"

subsection \<open>The persisted form\<close>

text \<open>The JSON value of a record's \<open>tags\<close> field: an array (what the spec and
  the legacy files hold), \<open>{}\<close> (what \<open>JSON.stringify\<close> makes of a
  \<open>Set\<close>), or absent.  The legacy flags are read for their truthiness.\<close>

datatype json_tags = JArray "tag list" | JEmptyObject | JAbsent

record raw_rec =
  r_tags :: json_tags
  r_locale :: "locale_t option"
  r_status :: "status option"
  r_broken :: bool
  r_clean :: bool
  r_lastDelivered :: "timestamp option"

type_synonym raw_db = "(email \<times> raw_rec) list"

datatype file_contents = Json raw_db | Unparsable

record fs_state =
  db_file :: "file_contents option"
  tmp_file :: "file_contents option"

datatype error = NotIterable email | WriteFailed

subsection \<open>load\<close>

text \<open>The loop body of \<open>load\<close> for one record: \<open>rec.tags = new Set(rec.tags)\<close>,
  then the migration of the legacy flags.\<close>

definition rehydrate :: "email \<Rightarrow> raw_rec \<Rightarrow> error + email_rec" where
  "rehydrate email rr =
     (let st = (if r_broken rr then Some Broken
                else if r_clean rr then Some Clean
                else r_status rr);
          mk = (\<lambda>ts. \<lparr>tags = ts, loc = r_locale rr, status = st, broken_flag = r_broken rr,
                      lastDelivered = r_lastDelivered rr\<rparr>)
      in case r_tags rr of
           JArray ts \<Rightarrow> Inr (mk (js_set_of ts))
         | JAbsent \<Rightarrow> Inr (mk [])
         | JEmptyObject \<Rightarrow> Inl (NotIterable email))"

fun load_records :: "raw_db \<Rightarrow> error + db" where
  "load_records [] = Inr []"
| "load_records ((e, rr) # rs) =
     (case rehydrate e rr of
        Inl err \<Rightarrow> Inl err
      | Inr r \<Rightarrow> (case load_records rs of Inl err \<Rightarrow> Inl err | Inr db \<Rightarrow> Inr ((e, r) # db)))"

text \<open>A missing or unparsable file gives the empty directory (the \<open>catch\<close>); the
  loop over the records is outside the \<open>try\<close>, so its \<open>TypeError\<close> escapes.\<close>

definition load :: "fs_state \<Rightarrow> error + db" where
  "load fs =
     (case db_file fs of
        None \<Rightarrow> Inr []
      | Some Unparsable \<Rightarrow> Inr []
      | Some (Json raw) \<Rightarrow> load_records raw)"

subsection \<open>save\<close>

text \<open>\<open>JSON.stringify\<close> of one record: the fields that are set, the \<open>Set\<close> of
  tags as \<open>{}\<close>.\<close>

definition serialize_rec :: "email_rec \<Rightarrow> raw_rec" where
  "serialize_rec r =
     \<lparr>r_tags = JEmptyObject, r_locale = loc r, r_status = status r, r_broken = broken_flag r,
      r_clean = False, r_lastDelivered = lastDelivered r\<rparr>"

definition serialize :: "db \<Rightarrow> raw_db" where
  "serialize db = map (\<lambda>(e, r). (e, serialize_rec r)) db"

text \<open>\<open>save()\<close>: rename an existing file to the \<open>.tmp\<close> sibling (replacing it),
  then write; \<open>write_ok\<close> says whether \<open>writeFileSync\<close> succeeds.  The rename
  has happened when the write fails.\<close>

definition save :: "bool \<Rightarrow> db \<Rightarrow> fs_state \<Rightarrow> error option \<times> fs_state" where
  "save write_ok db fs =
     (let fs1 = (case db_file fs of
                   None \<Rightarrow> fs
                 | Some f \<Rightarrow> fs\<lparr>tmp_file := Some f, db_file := None\<rparr>)
      in if write_ok then (None, fs1\<lparr>db_file := Some (Json (serialize db))\<rparr>)
         else (Some WriteFailed, fs1))"

subsection \<open>Read-only operations\<close>

definition totalEmails :: "db \<Rightarrow> nat" where
  "totalEmails db = length (keys db)"

definition tags_of :: "email \<Rightarrow> db \<Rightarrow> tag list" where
  "tags_of email db = (case map_of db email of None \<Rightarrow> [] | Some r \<Rightarrow> tags r)"

text \<open>\<open>lookupByRegexp(regexp)\<close>: a fresh object filled in key order with the
  entries whose address matches (\<open>email.match(regexp)\<close> is truthy).\<close>

definition lookupByRegexp :: "re \<Rightarrow> db \<Rightarrow> db" where
  "lookupByRegexp rx db =
     fold (\<lambda>(e, r) res. if search rx e \<noteq> None then AList.update e r res else res) db []"

text \<open>\<open>allTags()\<close>: one counter per tag, created at its first occurrence.  The
  result is listed in creation order; JavaScript would list integer-like tag names
  first, which is not modelled.\<close>

definition bump_tag :: "(tag \<times> nat) list \<Rightarrow> tag \<Rightarrow> (tag \<times> nat) list" where
  "bump_tag res t = AList.update t (case map_of res t of None \<Rightarrow> 1 | Some n \<Rightarrow> Suc n) res"

definition allTags :: "db \<Rightarrow> (tag \<times> nat) list" where
  "allTags db = fold (\<lambda>(e, r) res. foldl bump_tag res (tags r)) db []"

subsection \<open>Lemmas\<close>

lemma wf_db_Nil [simp]: "wf_db []"
  by (simp add: wf_db_def)

lemma wf_db_Cons [simp]:
  "wf_db ((e, r) # db) \<longleftrightarrow> e \<notin> set (keys db) \<and> distinct (tags r) \<and> wf_db db"
  by (auto simp: wf_db_def)

lemma wf_db_tags: "wf_db db \<Longrightarrow> map_of db e = Some r \<Longrightarrow> distinct (tags r)"
  by (auto simp: wf_db_def dest: map_of_SomeD)

lemma wf_db_update:
  "wf_db db \<Longrightarrow> distinct (tags r) \<Longrightarrow> wf_db (AList.update e r db)"
  by (auto simp: wf_db_def distinct_update dest: set_update_subset [THEN subsetD])

lemma wf_db_delete: "wf_db db \<Longrightarrow> wf_db (AList.delete e db)"
  by (auto simp: wf_db_def distinct_delete dest: set_delete_subset [THEN subsetD])

lemma rehydrate_tags:
  "rehydrate e rr = Inr r \<Longrightarrow> distinct (tags r)"
  by (auto simp: rehydrate_def Let_def split: json_tags.splits)

lemma load_records_keys:
  "load_records raw = Inr db \<Longrightarrow> keys db = keys raw"
  by (induction raw arbitrary: db) (auto split: sum.splits)

lemma load_records_wf:
  "load_records raw = Inr db \<Longrightarrow> distinct (keys raw) \<Longrightarrow> wf_db db"
proof (induction raw arbitrary: db)
  case (Cons p raw)
  obtain e rr where p: "p = (e, rr)" by (cases p)
  with Cons.prems obtain r db' where r: "rehydrate e rr = Inr r"
    and db': "load_records raw = Inr db'" and db: "db = (e, r) # db'"
    by (auto split: sum.splits)
  have "e \<notin> set (keys db')"
    using load_records_keys [OF db'] Cons.prems(2) p by simp
  with Cons.IH [OF db'] Cons.prems(2) p r db show ?case
    by (auto dest: rehydrate_tags)
qed simp

lemma load_records_NotIterable:
  "(e, rr) \<in> set raw \<Longrightarrow> r_tags rr = JEmptyObject \<Longrightarrow> \<exists>err. load_records raw = Inl err"
  by (induction raw) (auto simp: rehydrate_def Let_def split: sum.splits json_tags.splits)

lemma foldl_bump_tag:
  "distinct ts \<Longrightarrow> map_of (foldl bump_tag res ts) t =
     (if t \<in> set ts then Some (case map_of res t of None \<Rightarrow> 1 | Some n \<Rightarrow> Suc n) else map_of res t)"
  by (induction ts arbitrary: res) (auto simp: bump_tag_def update_conv' split: option.splits)

lemma fold_allTags:
  "\<forall>(e, r)\<in>set db. distinct (tags r) \<Longrightarrow>
   map_of (fold (\<lambda>(e, r) res. foldl bump_tag res (tags r)) db res) t =
     (if length (filter (\<lambda>(e, r). t \<in> set (tags r)) db) = 0 then map_of res t
      else Some (length (filter (\<lambda>(e, r). t \<in> set (tags r)) db)
                 + (case map_of res t of None \<Rightarrow> 0 | Some m \<Rightarrow> m)))"
  by (induction db arbitrary: res) (auto simp: foldl_bump_tag split: option.splits)

lemma load_records_serialize:
  "db \<noteq> [] \<Longrightarrow> load_records (serialize db) = Inl (NotIterable (fst (hd db)))"
  by (cases db) (auto simp: serialize_def serialize_rec_def rehydrate_def Let_def)

subsection \<open>Properties\<close>

text \<open>C4: What \<open>save\<close> writes cannot be loaded: \<open>JSON.stringify\<close> turns each
  record's \<open>Set\<close> of tags into \<open>{}\<close>, and the next \<open>load\<close> fails on the
  first record with a \<open>TypeError\<close> instead of restoring the directory.\<close>

theorem save_then_load_fails:
  "db \<noteq> [] \<Longrightarrow> fst (save True db fs) = None \<and>
   load (snd (save True db fs)) = Inl (NotIterable (fst (hd db)))"
  by (auto simp: save_def load_def load_records_serialize split: option.splits)

theorem save_then_load_fails_witness:
  "fst (save True [(''a@x.com'', \<lparr>tags = [''t''], loc = None, status = Some Dirty,
      broken_flag = False, lastDelivered = None\<rparr>)] \<lparr>db_file = None, tmp_file = None\<rparr>) = None \<and>
   load (snd (save True [(''a@x.com'', \<lparr>tags = [''t''], loc = None, status = Some Dirty,
      broken_flag = False, lastDelivered = None\<rparr>)] \<lparr>db_file = None, tmp_file = None\<rparr>))
     = Inl (NotIterable ''a@x.com'')"
  using save_then_load_fails [of "[(''a@x.com'', \<lparr>tags = [''t''], loc = None, status = Some Dirty,
      broken_flag = False, lastDelivered = None\<rparr>)]" "\<lparr>db_file = None, tmp_file = None\<rparr>"]
  by simp

text \<open>When the write fails, \<open>save\<close> reports the error after the previous
  file has already been renamed to \<open>.tmp\<close>: the directory file is gone, the backup
  holds the previous contents, and the next \<open>load\<close> starts from an empty
  directory.\<close>

theorem save_failure_keeps_backup:
  "db_file fs = Some f \<Longrightarrow>
   save False db fs = (Some WriteFailed, fs\<lparr>tmp_file := Some f, db_file := None\<rparr>) \<and>
   load (snd (save False db fs)) = Inr []"
  by (simp add: save_def load_def)

theorem save_failure_keeps_backup_witness:
  "save False [] \<lparr>db_file = Some Unparsable, tmp_file = None\<rparr>
     = (Some WriteFailed, \<lparr>db_file = None, tmp_file = Some Unparsable\<rparr>) \<and>
   load (snd (save False [] \<lparr>db_file = Some Unparsable, tmp_file = None\<rparr>)) = Inr []"
  using save_failure_keeps_backup [of "\<lparr>db_file = Some Unparsable, tmp_file = None\<rparr>" Unparsable "[]"]
  by (simp add: load_def)

text \<open>C15: \<open>load\<close> of a file in the documented format (a JSON object, so with
  distinct keys, whose \<open>tags\<close> are arrays or absent) succeeds, gives a
  well-formed directory, and keeps the file's addresses in order.\<close>

theorem load_wf:
  "db_file fs = Some (Json raw) \<Longrightarrow> distinct (keys raw) \<Longrightarrow>
   \<forall>(e, rr)\<in>set raw. r_tags rr \<noteq> JEmptyObject \<Longrightarrow>
   \<exists>db. load fs = Inr db \<and> wf_db db \<and> keys db = keys raw"
proof -
  assume f: "db_file fs = Some (Json raw)" and d: "distinct (keys raw)"
    and t: "\<forall>(e, rr)\<in>set raw. r_tags rr \<noteq> JEmptyObject"
  have "\<exists>db. load_records raw = Inr db"
    using t by (induction raw) (auto simp: rehydrate_def Let_def split: json_tags.splits)
  then obtain db where "load_records raw = Inr db" by blast
  with f d show ?thesis by (auto simp: load_def intro: load_records_wf load_records_keys)
qed

theorem load_wf_witness:
  "\<exists>db. load \<lparr>db_file = Some (Json [(''a@x.com'', \<lparr>r_tags = JArray [''t'', ''t''], r_locale = None,
       r_status = None, r_broken = True, r_clean = False, r_lastDelivered = None\<rparr>)]), tmp_file = None\<rparr>
     = Inr db \<and> wf_db db \<and> keys db = [''a@x.com'']"
  using load_wf [of "\<lparr>db_file = Some (Json [(''a@x.com'', \<lparr>r_tags = JArray [''t'', ''t''], r_locale = None,
       r_status = None, r_broken = True, r_clean = False, r_lastDelivered = None\<rparr>)]), tmp_file = None\<rparr>"]
  by simp

text \<open>\<open>allTags\<close> counts, for each tag, the records that carry it, and
  lists no tag that no record carries.\<close>

theorem allTags_count:
  "wf_db db \<Longrightarrow>
   map_of (allTags db) t =
     (if length (filter (\<lambda>(e, r). t \<in> set (tags r)) db) = 0 then None
      else Some (length (filter (\<lambda>(e, r). t \<in> set (tags r)) db)))"
  by (simp add: allTags_def fold_allTags wf_db_def)

theorem allTags_count_witness:
  "map_of (allTags [(''a@x.com'', \<lparr>tags = [''t''], loc = None, status = None, broken_flag = False,
      lastDelivered = None\<rparr>)]) ''t'' = Some 1"
  using allTags_count [of "[(''a@x.com'', \<lparr>tags = [''t''], loc = None, status = None, broken_flag = False,
      lastDelivered = None\<rparr>)]" "''t''"]
  by simp

text \<open>\<open>lookupByRegexp\<close> returns the entries of the directory whose address
  matches the expression, in the directory's order.\<close>

theorem lookupByRegexp_filter:
  "wf_db db \<Longrightarrow> lookupByRegexp rx db = filter (\<lambda>(e, r). search rx e \<noteq> None) db"
  using fold_update_filter [of db "[]" "\<lambda>e r. search rx e \<noteq> None"]
  by (simp add: lookupByRegexp_def wf_db_def)

theorem lookupByRegexp_filter_witness:
  "lookupByRegexp (Lit CHR ''r'') [(''a@x.com'', \<lparr>tags = [], loc = None, status = None,
       broken_flag = False, lastDelivered = None\<rparr>), (''b@y.ru'', \<lparr>tags = [], loc = None,
       status = None, broken_flag = False, lastDelivered = None\<rparr>)]
     = [(''b@y.ru'', \<lparr>tags = [], loc = None, status = None, broken_flag = False,
         lastDelivered = None\<rparr>)]"
  using lookupByRegexp_filter [of "[(''a@x.com'', \<lparr>tags = [], loc = None, status = None,
       broken_flag = False, lastDelivered = None\<rparr>), (''b@y.ru'', \<lparr>tags = [], loc = None,
       status = None, broken_flag = False, lastDelivered = None\<rparr>)]" "Lit CHR ''r''"]
  by (simp add: search.simps Lit_def)

end
