(* ===== verification/JS_Number.thy ===== *)
theory JS_Number
  imports Complex_Main Normalizer
begin

text \<open>
  The part of the JavaScript runtime that \<open>EmailDB.lookup\<close>'s \<open>coldDays\<close> gate
  (\<open>src/unnamed/part_001\<close>, lines 137--139) relies on when the CLI hands it the
  raw \<open>--cold-days\<close> string: \<open>ToBoolean\<close> of a primitive, \<open>ToNumber\<close> of a
  string (the \<open>StringNumericLiteral\<close> grammar of ECMAScript: surrounding white
  space, an optional sign, \<open>Infinity\<close>, decimal literals with fraction and
  exponent, and the unsigned \<open>0x\<close>, \<open>0o\<close>, \<open>0b\<close> forms; everything else is
  \<open>NaN\<close>) and the relational comparison of a number with a number.

  Numbers are read exactly as rationals.  A JavaScript double rounds the literal
  to the nearest representable value; the two can differ in a comparison with an
  integer only for literals of more than about 17 significant digits or beyond
  the double range, which the model does not reproduce.  Characters are the 8-bit
  code units of the rest of the model, so the white space is \<open>js_space\<close>.
\<close>

datatype js_number = NaN | Fin rat | PosInf | NegInf

datatype js_prim = NumVal js_number | StrVal string

text \<open>\<open>ToBoolean\<close>: \<open>0\<close>, \<open>NaN\<close> and the empty string are falsy; every
  other number and every other string, \<open>''0''\<close> included, is truthy.\<close>

fun prim_truthy :: "js_prim \<Rightarrow> bool" where
  "prim_truthy (NumVal NaN) = False"
| "prim_truthy (NumVal (Fin q)) = (q \<noteq> 0)"
| "prim_truthy (NumVal PosInf) = True"
| "prim_truthy (NumVal NegInf) = True"
| "prim_truthy (StrVal s) = (s \<noteq> [])"

text \<open>The value of a digit in base \<open>b\<close> (\<open>0\<close>--\<open>9\<close>, then letters of either
  case), if it is a digit of that base.\<close>

definition radix_digit :: "nat \<Rightarrow> char \<Rightarrow> nat option" where
  "radix_digit b c =
     (let k = of_char c :: nat;
          d = (if 48 \<le> k \<and> k \<le> 57 then k - 48
               else if 97 \<le> k \<and> k \<le> 122 then k - 87
               else if 65 \<le> k \<and> k \<le> 90 then k - 55 else b)
      in if d < b then Some d else None)"

fun radix_val :: "nat \<Rightarrow> nat \<Rightarrow> string \<Rightarrow> nat option" where
  "radix_val b n [] = Some n"
| "radix_val b n (c # cs) =
     (case radix_digit b c of None \<Rightarrow> None | Some d \<Rightarrow> radix_val b (b * n + d) cs)"

text \<open>A non-empty run of base-\<open>b\<close> digits.\<close>

definition radix_digits :: "nat \<Rightarrow> string \<Rightarrow> nat option" where
  "radix_digits b ds = (if ds = [] then None else radix_val b 0 ds)"

definition is_dec :: "char \<Rightarrow> bool" where
  "is_dec c \<longleftrightarrow> radix_digit 10 c \<noteq> None"

definition pow10 :: "int \<Rightarrow> rat" where
  "pow10 k = (if 0 \<le> k then 10 ^ nat k else 1 / 10 ^ nat (- k))"

text \<open>\<open>StrUnsignedDecimalLiteral\<close> without \<open>Infinity\<close>: digits, optionally a
  point and more digits (at least one digit in all), then an optional exponent
  \<open>e\<close> or \<open>E\<close> with an optional sign and at least one digit.\<close>

definition parse_mantissa :: "string \<Rightarrow> rat option" where
  "parse_mantissa m =
     (let ip = takeWhile is_dec m; rest = dropWhile is_dec m in
      case rest of
        [] \<Rightarrow> map_option of_nat (radix_digits 10 ip)
      | c # fp \<Rightarrow>
          if c = CHR ''.'' \<and> (\<forall>x\<in>set fp. is_dec x)
          then map_option (\<lambda>v. of_nat v / 10 ^ length fp) (radix_digits 10 (ip @ fp))
          else None)"

definition parse_exponent :: "string \<Rightarrow> int option" where
  "parse_exponent x =
     (case x of
        c # ds \<Rightarrow> if c = CHR ''+'' then map_option int (radix_digits 10 ds)
                 else if c = CHR ''-'' then map_option (\<lambda>v. - int v) (radix_digits 10 ds)
                 else map_option int (radix_digits 10 x)
      | [] \<Rightarrow> None)"

definition parse_unsigned :: "string \<Rightarrow> js_number" where
  "parse_unsigned u =
     (if u = ''Infinity'' then PosInf
      else let m = takeWhile (\<lambda>c. c \<notin> {CHR ''e'', CHR ''E''}) u;
               x = dropWhile (\<lambda>c. c \<notin> {CHR ''e'', CHR ''E''}) u in
      case (parse_mantissa m, x) of
        (None, _) \<Rightarrow> NaN
      | (Some v, []) \<Rightarrow> Fin v
      | (Some v, _ # ex) \<Rightarrow>
          (case parse_exponent ex of None \<Rightarrow> NaN | Some k \<Rightarrow> Fin (v * pow10 k)))"

fun js_negate :: "js_number \<Rightarrow> js_number" where
  "js_negate (Fin q) = Fin (- q)"
| "js_negate PosInf = NegInf"
| "js_negate NegInf = PosInf"
| "js_negate NaN = NaN"

text \<open>\<open>NonDecimalIntegerLiteral\<close>: \<open>0x\<close>, \<open>0o\<close> or \<open>0b\<close> (either case) and a
  non-empty run of digits of that base; no sign is allowed.\<close>

definition non_decimal :: "string \<Rightarrow> nat option" where
  "non_decimal t =
     (case t of
        z # c # ds \<Rightarrow>
          if z \<noteq> CHR ''0'' then None
          else if c \<in> {CHR ''x'', CHR ''X''} then radix_digits 16 ds
          else if c \<in> {CHR ''o'', CHR ''O''} then radix_digits 8 ds
          else if c \<in> {CHR ''b'', CHR ''B''} then radix_digits 2 ds
          else None
      | _ \<Rightarrow> None)"

definition js_trim :: "string \<Rightarrow> string" where
  "js_trim s = rev (dropWhile js_space (rev (dropWhile js_space s)))"

text \<open>\<open>ToNumber\<close> of a string: white space only is \<open>0\<close>.\<close>

definition str_to_number :: "string \<Rightarrow> js_number" where
  "str_to_number s =
     (let t = js_trim s in
      if t = [] then Fin 0
      else case non_decimal t of
        Some n \<Rightarrow> Fin (of_nat n)
      | None \<Rightarrow> (case t of
                   c # u \<Rightarrow> if c = CHR ''+'' then parse_unsigned u
                           else if c = CHR ''-'' then js_negate (parse_unsigned u)
                           else parse_unsigned t
                 | [] \<Rightarrow> Fin 0))"

fun to_number :: "js_prim \<Rightarrow> js_number" where
  "to_number (NumVal n) = n"
| "to_number (StrVal s) = str_to_number s"

text \<open>\<open>d < x\<close> for an integer \<open>d\<close>: false when \<open>x\<close> is \<open>NaN\<close>.\<close>

fun int_less :: "int \<Rightarrow> js_number \<Rightarrow> bool" where
  "int_less d (Fin q) = (of_int d < q)"
| "int_less d PosInf = True"
| "int_less d NegInf = False"
| "int_less d NaN = False"

lemma radix_val_append:
  "radix_val b n (xs @ ys) = (case radix_val b n xs of None \<Rightarrow> None | Some m \<Rightarrow> radix_val b m ys)"
  by (induction xs arbitrary: n) (auto split: option.splits)

lemma is_dec_iff: "is_dec c \<longleftrightarrow> 48 \<le> (of_char c :: nat) \<and> (of_char c :: nat) \<le> 57"
  by (auto simp: is_dec_def radix_digit_def Let_def)

lemma is_dec_not_space: "is_dec c \<Longrightarrow> \<not> js_space c"
  by (auto simp: is_dec_iff js_space_def)

lemma is_dec_not_e: "is_dec c \<Longrightarrow> c \<notin> {CHR ''e'', CHR ''E''}"
  by (auto simp: is_dec_iff)

lemma non_decimal_dec: "\<forall>c\<in>set (z # u). is_dec c \<Longrightarrow> non_decimal (z # u) = None"
  by (cases u) (auto simp: non_decimal_def is_dec_iff)

lemma js_trim_pad:
  assumes "\<forall>c\<in>set ws. js_space c" "\<forall>c\<in>set ws'. js_space c" "t \<noteq> []"
    "\<not> js_space (hd t)" "\<not> js_space (last t)"
  shows "js_trim (ws @ t @ ws') = t"
proof -
  have "dropWhile js_space (ws @ t @ ws') = t @ ws'"
    using assms by (cases t) simp_all
  moreover have "dropWhile js_space (rev (t @ ws')) = rev t"
    using assms by (simp add: dropWhile_append dropWhile_eq_self_iff hd_rev)
  ultimately show ?thesis by (simp add: js_trim_def)
qed

lemma digits_no_exponent: assumes t: "\<forall>c\<in>set t. is_dec c"
  shows "takeWhile (\<lambda>c. c \<notin> {CHR ''e'', CHR ''E''}) t = t"
    "dropWhile (\<lambda>c. c \<notin> {CHR ''e'', CHR ''E''}) t = []"
  using t by (auto dest: is_dec_not_e)

lemma digits_not_Infinity: assumes t: "\<forall>c\<in>set t. is_dec c" shows "t \<noteq> ''Infinity''"
  using t by (auto simp: is_dec_iff)

lemma digits_unsigned: assumes t: "\<forall>c\<in>set (z # u). is_dec c" shows "z \<noteq> CHR ''+'' \<and> z \<noteq> CHR ''-''"
  using t by (auto simp: is_dec_iff)

lemma str_to_number_digits:
  assumes ws: "\<forall>c\<in>set (ws @ ws'). js_space c" and t: "\<forall>c\<in>set t. is_dec c"
    and v: "radix_digits 10 t = Some v"
  shows "str_to_number (ws @ t @ ws') = Fin (of_nat v)"
proof -
  obtain z u where tz: "t = z # u" using v by (cases t) (auto simp: radix_digits_def)
  have "\<not> js_space (hd t)" "\<not> js_space (last t)"
    using t tz by (simp_all add: is_dec_not_space)
  with ws tz have trim: "js_trim (ws @ t @ ws') = t"
    by (intro js_trim_pad) simp_all
  have "takeWhile is_dec t = t" "dropWhile is_dec t = []"
    using t by simp_all
  then have "parse_mantissa t = Some (of_nat v)"
    using v by (simp add: parse_mantissa_def del: takeWhile_eq_all_conv dropWhile_eq_Nil_conv)
  then have "parse_unsigned t = Fin (of_nat v)"
    using digits_no_exponent[OF t] digits_not_Infinity[OF t]
    by (simp add: parse_unsigned_def del: takeWhile_eq_all_conv dropWhile_eq_Nil_conv)
  with trim show ?thesis
    using t digits_unsigned[of z u] non_decimal_dec[of z u] unfolding tz
    by (simp add: str_to_number_def)
qed

lemma radix_digit_dec: "k < 10 \<Longrightarrow> radix_digit 10 (char_of (48 + k)) = Some k"
  by (simp add: radix_digit_def Let_def)

lemma is_dec_char: "(k::nat) < 10 \<Longrightarrow> is_dec (char_of (48 + k))"
  by (simp add: is_dec_def radix_digit_dec)


lemma of_int_less_of_nat [simp]: "(of_int d < (of_nat n :: rat)) \<longleftrightarrow> d < int n"
  by (metis of_int_less_iff of_int_of_nat_eq)

end
