(* ===== verification/Query.thy ===== *)
theory Query
  imports Store JS_Number
begin

text \<open>
  The query engine: \<open>EmailDB.lookup\<close> of \<open>src/unnamed/part_001\<close> (lines
  112--158) with the locale resolution \<open>rec.locale || guessEmailLocale(email)\<close>
  (line 148), lodash's \<open>_.intersection\<close> (line 145) and moment's whole-day
  difference (line 138).  \<open>lookup_entry\<close> is the loop body for one
  address, with its four early \<open>continue\<close>s in the source's order;
  \<open>lookup\<close> runs it over the directory in key order and fills a fresh
  object.

  The abstract specification \<open>lookup_spec\<close> states the query as a map over the
  directory's map: a status gate, a recency gate, tag-set inclusion and a locale
  gate.  \<open>lookup_refines\<close> proves that the code implements it on every
  well-formed directory; the tag gate's intersection count is equivalent to
  inclusion because the requested tags form a \<open>Set\<close>.
\<close>

text \<open>The query's arguments: \<open>tags\<close> (a \<open>Set\<close>), \<open>locale\<close>,
  \<open>statusOnly\<close>, \<open>coldDays\<close>.\<close>

record query =
  q_tags :: "tag list"
  q_locale :: "locale_t option"
  q_status :: "status option"
  q_coldDays :: "js_prim option"

definition resolveLocale :: "email \<Rightarrow> email_rec \<Rightarrow> locale_t" where
  "resolveLocale email r =
     (case loc r of Some l \<Rightarrow> if l \<noteq> [] then l else guessEmailLocale email
                  | None \<Rightarrow> guessEmailLocale email)"

text \<open>\<open>_.intersection(a, b)\<close>: the distinct values of \<open>a\<close> that occur in
  \<open>b\<close>, in the order of \<open>a\<close>.\<close>

definition lodash_intersection :: "'a list \<Rightarrow> 'a list \<Rightarrow> 'a list" where
  "lodash_intersection a b = js_set_of (filter (\<lambda>x. x \<in> set b) a)"

text \<open>\<open>moment().diff(t, 'days')\<close>: the elapsed time in whole days, truncated
  toward zero.\<close>

definition days_diff :: "timestamp \<Rightarrow> timestamp \<Rightarrow> int" where
  "days_diff now t =
     (let d = now - t in if 0 \<le> d then d div 86400 else - ((- d) div 86400))"

text \<open>\<open>coldDays && rec.lastDelivered\<close> and then \<open>d < coldDays\<close>: the record
  was delivered too recently.  \<open>coldDays\<close> is whatever primitive the caller
  passed (the CLI passes the option's string), so the gate tests its
  truthiness and the comparison converts it with \<open>ToNumber\<close>; a
  \<open>Date\<close> in \<open>rec.lastDelivered\<close> is always truthy.\<close>

definition too_recent :: "timestamp \<Rightarrow> js_prim option \<Rightarrow> email_rec \<Rightarrow> bool" where
  "too_recent now cold r =
     (case cold of
        None \<Rightarrow> False
      | Some c \<Rightarrow> prim_truthy c \<and>
          (case lastDelivered r of None \<Rightarrow> False
                                 | Some t \<Rightarrow> int_less (days_diff now t) (to_number c)))"

definition lookup_entry ::
  "timestamp \<Rightarrow> query \<Rightarrow> email \<Rightarrow> email_rec \<Rightarrow> (tag list \<times> locale_t) option" where
  "lookup_entry now q email r =
     (if q_status q \<noteq> None \<and> status r \<noteq> q_status q then None
      else if (q_status q = None \<or> q_status q \<noteq> Some Broken) \<and> status r = Some Broken then None
      else if too_recent now (q_coldDays q) r then None
      else if length (lodash_intersection (tags r) (q_tags q)) < length (q_tags q) then None
      else (let calculated = resolveLocale email r in
            if q_locale q \<noteq> None \<and> Some calculated \<noteq> q_locale q then None
            else Some (tags r, calculated)))"

definition lookup :: "timestamp \<Rightarrow> query \<Rightarrow> db \<Rightarrow> (email \<times> (tag list \<times> locale_t)) list" where
  "lookup now q db =
     fold (\<lambda>(e, r) res. case lookup_entry now q e r of
                          None \<Rightarrow> res
                        | Some v \<Rightarrow> AList.update e v res) db []"

subsection \<open>Specification\<close>

definition status_ok :: "status option \<Rightarrow> email_rec \<Rightarrow> bool" where
  "status_ok sq r =
     (case sq of Some s \<Rightarrow> status r = Some s | None \<Rightarrow> status r \<noteq> Some Broken)"

definition passes :: "timestamp \<Rightarrow> query \<Rightarrow> email \<Rightarrow> email_rec \<Rightarrow> bool" where
  "passes now q e r \<longleftrightarrow>
     status_ok (q_status q) r \<and> \<not> too_recent now (q_coldDays q) r
     \<and> set (q_tags q) \<subseteq> set (tags r)
     \<and> (case q_locale q of None \<Rightarrow> True | Some l \<Rightarrow> resolveLocale e r = l)"

definition lookup_spec ::
  "timestamp \<Rightarrow> query \<Rightarrow> (email \<rightharpoonup> email_rec) \<Rightarrow> (email \<rightharpoonup> tag list \<times> locale_t)" where
  "lookup_spec now q m e =
     (case m e of
        None \<Rightarrow> None
      | Some r \<Rightarrow> if passes now q e r then Some (tags r, resolveLocale e r) else None)"

subsection \<open>Lemmas\<close>

lemma length_lodash_intersection:
  "length (lodash_intersection a b) = card (set a \<inter> set b)"
proof -
  have "length (lodash_intersection a b) = card (set (lodash_intersection a b))"
    by (rule distinct_card [symmetric]) (simp add: lodash_intersection_def)
  also have "set (lodash_intersection a b) = set a \<inter> set b"
    by (auto simp: lodash_intersection_def)
  finally show ?thesis .
qed

lemma tag_gate_iff:
  "distinct b \<Longrightarrow> length (lodash_intersection a b) < length b \<longleftrightarrow> \<not> set b \<subseteq> set a"
proof -
  assume "distinct b"
  then have len: "length b = card (set b)" by (simp add: distinct_card)
  have "card (set a \<inter> set b) \<le> card (set b)" by (simp add: card_mono)
  moreover have "card (set a \<inter> set b) = card (set b) \<longleftrightarrow> set b \<subseteq> set a"
    by (metis Int_lower2 card_subset_eq finite_set inf.absorb_iff2)
  ultimately show ?thesis
    by (auto simp: length_lodash_intersection len)
qed

lemma lookup_entry_spec:
  "distinct (q_tags q) \<Longrightarrow>
   lookup_entry now q e r = (if passes now q e r then Some (tags r, resolveLocale e r) else None)"
  by (cases "q_status q"; cases "q_locale q")
     (auto simp: lookup_entry_def passes_def status_ok_def tag_gate_iff Let_def)

lemma map_of_fold_update:
  "distinct (keys db) \<Longrightarrow>
   map_of (fold (\<lambda>(e, r) res. case f e r of None \<Rightarrow> res | Some v \<Rightarrow> AList.update e v res) db acc)
   = (\<lambda>e. case map_of db e of None \<Rightarrow> map_of acc e | Some r \<Rightarrow>
           (case f e r of None \<Rightarrow> map_of acc e | Some v \<Rightarrow> Some v))"
proof (induction db arbitrary: acc)
  case (Cons p db)
  obtain e r where p: "p = (e, r)" by (cases p)
  with Cons.prems have new: "map_of db e = None" and dist: "distinct (keys db)"
    by (auto simp: map_of_eq_None_iff)
  show ?case
    by (auto simp: p Cons.IH [OF dist] new fun_eq_iff update_conv' split: option.splits)
qed simp

lemma map_of_lookup:
  "wf_db db \<Longrightarrow> distinct (q_tags q) \<Longrightarrow>
   map_of (lookup now q db) e =
     (case map_of db e of
        None \<Rightarrow> None
      | Some r \<Rightarrow> if passes now q e r then Some (tags r, resolveLocale e r) else None)"
  by (simp add: lookup_def wf_db_def map_of_fold_update lookup_entry_spec split: option.splits)

subsection \<open>Properties\<close>

text \<open>C3: The query engine implements its specification: on a well-formed
  directory and a duplicate-free tag set, the result of \<open>lookup\<close>, read as a map,
  is \<open>lookup_spec\<close> of the directory's map (status gate, recency gate, tag-set
  inclusion, locale gate; resolved locale and tags in every entry).\<close>

theorem lookup_refines:
  "wf_db db \<Longrightarrow> distinct (q_tags q) \<Longrightarrow>
   map_of (lookup now q db) = lookup_spec now q (map_of db)"
  by (simp add: fun_eq_iff lookup_spec_def map_of_lookup)

definition sample_rec :: "tag list \<Rightarrow> status \<Rightarrow> email_rec" where
  "sample_rec ts st = \<lparr>tags = ts, loc = None, status = Some st, broken_flag = False,
     lastDelivered = None\<rparr>"

definition sample_db :: db where
  "sample_db = [(''a@x.com'', sample_rec [''t1''] Dirty), (''b@y.ru'', sample_rec [''t1''] Clean),
                (''c@z.com'', sample_rec [''t1'', ''t2''] Broken)]"

theorem lookup_refines_witness:
  "wf_db sample_db \<and> distinct [''t1''] \<and>
   map_of (lookup 0 \<lparr>q_tags = [''t1''], q_locale = Some ''ru'', q_status = None, q_coldDays = None\<rparr>
     sample_db)
   = lookup_spec 0 \<lparr>q_tags = [''t1''], q_locale = Some ''ru'', q_status = None, q_coldDays = None\<rparr>
       (map_of sample_db)"
proof -
  have h: "wf_db sample_db" by (simp add: sample_db_def sample_rec_def)
  show ?thesis using lookup_refines [OF h] h by simp
qed

text \<open>C8: A query with no tags and no other filter returns exactly the
  addresses whose record is not broken.\<close>

theorem lookup_default_nonbroken:
  "wf_db db \<Longrightarrow>
   (map_of (lookup now \<lparr>q_tags = [], q_locale = None, q_status = None, q_coldDays = None\<rparr> db) e
      \<noteq> None)
   = (\<exists>r. map_of db e = Some r \<and> status r \<noteq> Some Broken)"
  by (auto simp: map_of_lookup passes_def status_ok_def too_recent_def split: option.splits)

theorem lookup_default_nonbroken_witness:
  "wf_db sample_db \<and>
   map_of (lookup 0 \<lparr>q_tags = [], q_locale = None, q_status = None, q_coldDays = None\<rparr> sample_db)
     ''c@z.com'' = None"
proof -
  have h: "wf_db sample_db" by (simp add: sample_db_def sample_rec_def)
  have "(map_of (lookup 0 \<lparr>q_tags = [], q_locale = None, q_status = None, q_coldDays = None\<rparr>
      sample_db) ''c@z.com'' \<noteq> None)
    = (\<exists>r. map_of sample_db ''c@z.com'' = Some r \<and> status r \<noteq> Some Broken)"
    by (rule lookup_default_nonbroken [OF h])
  moreover have "\<not> (\<exists>r. map_of sample_db ''c@z.com'' = Some r \<and> status r \<noteq> Some Broken)"
    by (simp add: sample_db_def sample_rec_def)
  ultimately show ?thesis using h by blast
qed

text \<open>C9: A query for status \<open>broken\<close> returns only broken records, and
  every broken record that passes the other gates.\<close>

theorem lookup_broken_only:
  "wf_db db \<Longrightarrow> distinct (q_tags q) \<Longrightarrow> q_status q = Some Broken \<Longrightarrow>
   (map_of (lookup now q db) e \<noteq> None) =
   (\<exists>r. map_of db e = Some r \<and> status r = Some Broken \<and> \<not> too_recent now (q_coldDays q) r
        \<and> set (q_tags q) \<subseteq> set (tags r)
        \<and> (case q_locale q of None \<Rightarrow> True | Some l \<Rightarrow> resolveLocale e r = l))"
  by (auto simp: map_of_lookup passes_def status_ok_def split: option.splits)

theorem lookup_broken_only_witness:
  "map_of (lookup 0 \<lparr>q_tags = [''t1''], q_locale = None, q_status = Some Broken, q_coldDays = None\<rparr>
     sample_db) ''c@z.com'' \<noteq> None"
proof -
  let ?q = "\<lparr>q_tags = [''t1''], q_locale = None, q_status = Some Broken, q_coldDays = None\<rparr>"
  have h: "wf_db sample_db" by (simp add: sample_db_def sample_rec_def)
  have "(map_of (lookup 0 ?q sample_db) ''c@z.com'' \<noteq> None) =
    (\<exists>r. map_of sample_db ''c@z.com'' = Some r \<and> status r = Some Broken
       \<and> \<not> too_recent 0 (q_coldDays ?q) r \<and> set (q_tags ?q) \<subseteq> set (tags r)
       \<and> (case q_locale ?q of None \<Rightarrow> True | Some l \<Rightarrow> resolveLocale ''c@z.com'' r = l))"
    by (rule lookup_broken_only [OF h]) simp_all
  moreover have "\<exists>r. map_of sample_db ''c@z.com'' = Some r \<and> status r = Some Broken
       \<and> \<not> too_recent 0 (q_coldDays ?q) r \<and> set (q_tags ?q) \<subseteq> set (tags r)
       \<and> (case q_locale ?q of None \<Rightarrow> True | Some l \<Rightarrow> resolveLocale ''c@z.com'' r = l)"
    by (simp add: sample_db_def sample_rec_def too_recent_def)
  ultimately show ?thesis by blast
qed

end
