(* ===== verification/Mutations.thy ===== *)
theory Mutations
  imports Store
begin

text \<open>
  The bulk mutations of \<open>EmailDB\<close> in \<open>src/unnamed/part_001\<close>: \<open>insert\<close>
  (lines 181--227, \<open>insert_db\<close>, named apart from HOL's \<open>insert\<close>), \<open>cleanup\<close> (229--250), \<open>setStatus\<close> (256--268) and
  \<open>setLastDelivered\<close> (270--281).  Each takes the directory and returns the new
  one with the counters the method returns.  \<open>insert\<close> reads its file itself;
  here it takes the file's contents, and the failing read is the command's concern.

  \<open>cleanup\<close> deletes and adds keys while \<open>for ... in\<close> walks the object.
  ECMAScript skips a key deleted before it is visited and may or may not visit a key
  added during the walk.  The loop only deletes the key being visited, and every key
  it adds is the normal form of an address, which the loop leaves alone when it
  visits it (\<open>search_idem\<close>).  So walking a snapshot of the keys, as
  \<open>cleanup_loop\<close> does, gives the same result whichever choice the engine makes.
\<close>

subsection \<open>insert\<close>

text \<open>\<open>for (const tag of Array.from(tags)) if (!res.tags.has(tag)) { res.tags.add(tag);
  addedTags = true }\<close>\<close>

fun add_tags :: "tag list \<Rightarrow> tag list \<times> bool \<Rightarrow> tag list \<times> bool" where
  "add_tags [] acc = acc"
| "add_tags (t # ts) (rts, added) =
     (if t \<in> set rts then add_tags ts (rts, added) else add_tags ts (js_set_add t rts, True))"

definition new_rec :: email_rec where
  "new_rec = \<lparr>tags = [], loc = None, status = Some Dirty, broken_flag = False,
              lastDelivered = None\<rparr>"

text \<open>One line of the file; the state is the directory with the counters
  \<open>inserted\<close> and \<open>updated\<close>.\<close>

definition insert_line ::
  "tag list \<Rightarrow> locale_t option \<Rightarrow> db \<times> nat \<times> nat \<Rightarrow> string \<Rightarrow> db \<times> nat \<times> nat" where
  "insert_line T l st line =
     (let (db, ins, upd) = st in
      case filterEmail line of
        None \<Rightarrow> st
      | Some email \<Rightarrow>
          if email = [] then st
          else
            let (db1, ins1, res) =
                  (case map_of db email of
                     None \<Rightarrow> (AList.update email new_rec db, Suc ins, new_rec)
                   | Some r \<Rightarrow> (db, ins, r));
                (tags1, addedTags) = add_tags T (tags res, False);
                tags2 = js_set_of (tags1 @ T);
                upd1 = (if addedTags \<or> (js_truthy l \<and> l \<noteq> loc res) then Suc upd else upd);
                res1 = res\<lparr>tags := tags2, loc := (if js_truthy l then l else loc res)\<rparr>
            in (AList.update email res1 db1, ins1, upd1))"

definition insert_db :: "tag list \<Rightarrow> locale_t option \<Rightarrow> string \<Rightarrow> db \<Rightarrow> db \<times> nat \<times> nat" where
  "insert_db T l contents db = foldl (insert_line T l) (db, 0, 0) (split_on CHR 0x0A contents)"

subsection \<open>cleanup\<close>

text \<open>The loop body for one key: \<open>rec = this.db[email]\<close> (a key deleted
  earlier is not visited), then delete it, move it under its normal form, or keep
  it.  The state is the directory with the counters \<open>deleted\<close> and
  \<open>fixed\<close>.\<close>

definition cleanup_step :: "(email \<times> 'r) list \<times> nat \<times> nat \<Rightarrow> email \<Rightarrow> (email \<times> 'r) list \<times> nat \<times> nat" where
  "cleanup_step st email =
     (let (db, deleted, fixed) = st in
      case map_of db email of
        None \<Rightarrow> st
      | Some r \<Rightarrow>
          (case filterEmail email of
             None \<Rightarrow> (AList.delete email db, Suc deleted, fixed)
           | Some filtered \<Rightarrow>
               if filtered = [] then (AList.delete email db, Suc deleted, fixed)
               else if filtered \<noteq> email
               then (AList.delete email (AList.update filtered r db), deleted, Suc fixed)
               else st))"

definition cleanup_loop ::
  "email list \<Rightarrow> (email \<times> 'r) list \<times> nat \<times> nat \<Rightarrow> (email \<times> 'r) list \<times> nat \<times> nat" where
  "cleanup_loop ks st = foldl cleanup_step st ks"

definition cleanup :: "db \<Rightarrow> db \<times> nat \<times> nat" where
  "cleanup db = cleanup_loop (keys db) (db, 0, 0)"

subsection \<open>setStatus and setLastDelivered\<close>

text \<open>\<open>for (const email in this.db) if (emails.includes(email))\<close>: count the
  records whose status changes, then set it.\<close>

fun setStatus :: "email list \<Rightarrow> status \<Rightarrow> db \<Rightarrow> db \<times> nat" where
  "setStatus es st [] = ([], 0)"
| "setStatus es st ((e, r) # db) =
     (let (db', n) = setStatus es st db in
      if e \<in> set es
      then ((e, r\<lparr>status := Some st\<rparr>) # db', if status r \<noteq> Some st then Suc n else n)
      else ((e, r) # db', n))"

text \<open>\<open>for (const email of emails)\<close>: every listed address that is in the
  directory is stamped and counted, once per occurrence in the list.\<close>

definition setLastDelivered_step :: "timestamp \<Rightarrow> db \<times> nat \<Rightarrow> email \<Rightarrow> db \<times> nat" where
  "setLastDelivered_step ts st email =
     (let (db, n) = st in
      case map_of db email of
        None \<Rightarrow> st
      | Some r \<Rightarrow> (AList.update email (r\<lparr>lastDelivered := Some ts\<rparr>) db, Suc n))"

definition setLastDelivered :: "email list \<Rightarrow> timestamp \<Rightarrow> db \<Rightarrow> db \<times> nat" where
  "setLastDelivered es ts db = foldl (setLastDelivered_step ts) (db, 0) es"

subsection \<open>Lemmas on insert\<close>

lemma add_tags_eq: "add_tags T (ts, a) = (fold js_set_add T ts, a \<or> \<not> set T \<subseteq> set ts)"
  by (induction T arbitrary: ts a) (auto simp: js_set_add_def)

lemma js_set_of_append_subset:
  "distinct xs \<Longrightarrow> set ys \<subseteq> set xs \<Longrightarrow> js_set_of (xs @ ys) = xs"
  by (simp add: js_set_of_def fold_js_set_add_distinct [of "[]" xs, simplified]
      fold_js_set_add_subset)

text \<open>The record a line leaves behind for its address: the old one (or a fresh
  one) with the requested tags added at the end and the locale overwritten when one
  is given.\<close>

definition merged :: "tag list \<Rightarrow> locale_t option \<Rightarrow> email_rec \<Rightarrow> email_rec" where
  "merged T l r = r\<lparr>tags := fold js_set_add T (tags r), loc := (if js_truthy l then l else loc r)\<rparr>"

definition base_rec :: "db \<Rightarrow> email \<Rightarrow> email_rec" where
  "base_rec db e = (case map_of db e of None \<Rightarrow> new_rec | Some r \<Rightarrow> r)"

lemma distinct_tags_base_rec: "wf_db db \<Longrightarrow> distinct (tags (base_rec db e))"
  by (auto simp: base_rec_def new_rec_def wf_db_tags split: option.splits)

lemma insert_line_None: "filterEmail line = None \<Longrightarrow> insert_line T l st line = st"
  by (simp add: insert_line_def split: prod.splits)

lemma insert_line_Some:
  assumes "filterEmail line = Some e" and "wf_db db"
  shows "insert_line T l (db, i, u) line =
    (AList.update e (merged T l (base_rec db e)) db,
     if map_of db e = None then Suc i else i,
     if \<not> set T \<subseteq> set (tags (base_rec db e)) \<or> (js_truthy l \<and> l \<noteq> loc (base_rec db e))
     then Suc u else u)"
proof -
  have "e \<noteq> []" using assms(1) by (rule filterEmail_nonempty)
  moreover have "js_set_of (fold js_set_add T (tags (base_rec db e)) @ T)
      = fold js_set_add T (tags (base_rec db e))"
    using distinct_tags_base_rec [OF assms(2)] by (intro js_set_of_append_subset) auto
  ultimately show ?thesis using assms(1)
    by (auto simp: insert_line_def add_tags_eq merged_def base_rec_def Let_def
        split: option.splits)
qed

text \<open>An address is served by the line: it is in the directory with every
  requested tag and the requested locale.\<close>

definition served :: "tag list \<Rightarrow> locale_t option \<Rightarrow> db \<Rightarrow> email \<Rightarrow> bool" where
  "served T l db e \<longleftrightarrow>
     (\<exists>r. map_of db e = Some r \<and> set T \<subseteq> set (tags r) \<and> (js_truthy l \<longrightarrow> loc r = l))"

lemma insert_line_wf:
  "wf_db db \<Longrightarrow> wf_db (fst (insert_line T l (db, i, u) line))"
  by (cases "filterEmail line")
     (auto simp: insert_line_None insert_line_Some merged_def intro!: wf_db_update
       dest: distinct_tags_base_rec)

lemma insert_line_served_new:
  "filterEmail line = Some e \<Longrightarrow> wf_db db \<Longrightarrow> served T l (fst (insert_line T l (db, i, u) line)) e"
  by (auto simp: insert_line_Some served_def merged_def update_conv')

lemma insert_line_served_keep:
  "served T l db e' \<Longrightarrow> wf_db db \<Longrightarrow> served T l (fst (insert_line T l (db, i, u) line)) e'"
  by (cases "filterEmail line")
     (auto simp: insert_line_None insert_line_Some served_def merged_def base_rec_def
       update_conv')

lemma insert_line_noop:
  assumes "wf_db db" and "\<And>e. filterEmail line = Some e \<Longrightarrow> served T l db e"
  shows "insert_line T l (db, i, u) line = (db, i, u)"
proof (cases "filterEmail line")
  case None
  then show ?thesis by (simp add: insert_line_None)
next
  case (Some e)
  with assms(2) obtain r where r: "map_of db e = Some r" "set T \<subseteq> set (tags r)"
    "js_truthy l \<longrightarrow> loc r = l" by (auto simp: served_def)
  have "merged T l r = r"
    using r by (cases "js_truthy l") (auto simp: merged_def fold_js_set_add_subset)
  with r Some assms(1) show ?thesis
    by (auto simp: insert_line_Some base_rec_def update_triv)
qed

lemma insert_lines_wf:
  "wf_db (fst st) \<Longrightarrow> wf_db (fst (foldl (insert_line T l) st lines))"
proof (induction lines arbitrary: st)
  case (Cons line lines)
  obtain db i u where st: "st = (db, i, u)" by (cases st)
  from Cons.prems st have "wf_db (fst (insert_line T l st line))"
    by (simp add: insert_line_wf)
  then show ?case by (simp add: Cons.IH)
qed simp

lemma insert_lines_served:
  "wf_db (fst st) \<Longrightarrow> (\<forall>e'. served T l (fst st) e' \<longrightarrow>
     served T l (fst (foldl (insert_line T l) st lines)) e')
   \<and> (\<forall>line\<in>set lines. \<forall>e. filterEmail line = Some e \<longrightarrow>
     served T l (fst (foldl (insert_line T l) st lines)) e)"
proof (induction lines arbitrary: st)
  case (Cons line lines)
  obtain db i u where st: "st = (db, i, u)" by (cases st)
  let ?st' = "insert_line T l st line"
  have wf': "wf_db (fst ?st')" using Cons.prems st by (simp add: insert_line_wf)
  have keep: "served T l (fst ?st') e'" if "served T l (fst st) e'" for e'
    using that Cons.prems st by (simp add: insert_line_served_keep)
  have new: "served T l (fst ?st') e" if "filterEmail line = Some e" for e
    using that Cons.prems st by (simp add: insert_line_served_new)
  from Cons.IH [OF wf'] keep new show ?case by auto
qed simp

lemma insert_lines_noop:
  "wf_db db \<Longrightarrow> \<forall>line\<in>set lines. \<forall>e. filterEmail line = Some e \<longrightarrow> served T l db e \<Longrightarrow>
   foldl (insert_line T l) (db, i, u) lines = (db, i, u)"
  by (induction lines) (simp_all add: insert_line_noop)

subsection \<open>Lemmas on cleanup\<close>

definition normal :: "email \<Rightarrow> bool" where
  "normal k \<longleftrightarrow> filterEmail k = Some k"

lemma normal_filterEmail: "filterEmail k = Some f \<Longrightarrow> normal f"
  by (simp add: normal_def filterEmail_def search_idem)

lemma cleanup_step_normal:
  "cleanup_step (db, d, f) k =
     (case map_of db k of
        None \<Rightarrow> (db, d, f)
      | Some r \<Rightarrow>
          if normal k then (db, d, f)
          else (case filterEmail k of
                  Some g \<Rightarrow> (AList.delete k (AList.update g r db), d, Suc f)
                | None \<Rightarrow> (AList.delete k db, Suc d, f)))"
  by (auto simp: cleanup_step_def normal_def dest: filterEmail_nonempty split: option.splits)

lemma cleanup_step_wf: "wf_db db \<Longrightarrow> wf_db (fst (cleanup_step (db, d, f) k))"
  by (auto simp: cleanup_step_normal intro!: wf_db_delete wf_db_update
      dest: wf_db_tags split: option.splits)

lemma keys_cleanup_step:
  "a \<in> set (keys (fst (cleanup_step (db, d, f) k))) \<Longrightarrow>
   (a \<in> set (keys db) \<and> a \<noteq> k) \<or> filterEmail k = Some a \<or> (a = k \<and> normal k)"
proof (cases "map_of db k")
  case None
  assume "a \<in> set (keys (fst (cleanup_step (db, d, f) k)))"
  with None have "a \<in> set (keys db)" by (simp add: cleanup_step_normal)
  moreover from None have "k \<notin> set (keys db)" by (simp add: map_of_eq_None_iff)
  ultimately show ?thesis by auto
next
  case (Some r)
  assume a: "a \<in> set (keys (fst (cleanup_step (db, d, f) k)))"
  show ?thesis
  proof (cases "normal k")
    case True
    with a Some show ?thesis by (cases "a = k") (simp_all add: cleanup_step_normal)
  next
    case False
    with a Some show ?thesis
      by (cases "filterEmail k") (auto simp: cleanup_step_normal delete_keys dom_update)
  qed
qed

lemma cleanup_loop_wf: "wf_db (fst st) \<Longrightarrow> wf_db (fst (cleanup_loop ks st))"
proof (induction ks arbitrary: st)
  case (Cons k ks)
  obtain db d f where "st = (db, d, f)" by (cases st)
  with Cons show ?case by (simp add: cleanup_loop_def cleanup_step_wf)
qed (simp add: cleanup_loop_def)

lemma cleanup_loop_normal:
  "\<forall>k'\<in>set (keys (fst st)). k' \<in> set ks \<or> normal k' \<Longrightarrow>
   \<forall>k'\<in>set (keys (fst (cleanup_loop ks st))). normal k'"
proof (induction ks arbitrary: st)
  case Nil
  then show ?case by (simp add: cleanup_loop_def)
next
  case (Cons k ks)
  obtain db d f where st: "st = (db, d, f)" by (cases st)
  from Cons.prems have all: "\<forall>k'\<in>set (keys db). k' \<in> set (k # ks) \<or> normal k'"
    by (simp only: st fst_conv)
  have old: "a \<in> set (k # ks) \<or> normal a" if "a \<in> set (keys db)" for a
    using all that by blast
  have "a \<in> set ks \<or> normal a" if "a \<in> set (keys (fst (cleanup_step st k)))" for a
    using keys_cleanup_step [of a db d f k] that st old
    by (auto intro: normal_filterEmail)
  then have inv: "\<forall>k'\<in>set (keys (fst (cleanup_step st k))). k' \<in> set ks \<or> normal k'"
    by blast
  have "cleanup_loop (k # ks) st = cleanup_loop ks (cleanup_step st k)"
    by (simp add: cleanup_loop_def)
  then show ?case using Cons.IH [OF inv] by (simp only:)
qed

lemma cleanup_step_noop:
  "\<forall>k'\<in>set (keys db). normal k' \<Longrightarrow> cleanup_step (db, d, f) k = (db, d, f)"
  by (auto simp: cleanup_step_normal dest!: map_of_SomeD split: option.splits)

lemma cleanup_loop_noop:
  "\<forall>k'\<in>set (keys db). normal k' \<Longrightarrow> cleanup_loop ks (db, d, f) = (db, d, f)"
  by (induction ks) (simp_all add: cleanup_loop_def cleanup_step_noop)

lemma cleanup_step_counts:
  assumes k: "k \<in> set (keys db)" and step: "cleanup_step (db, d, f) k = (db', d', f')"
  shows "d' + f' = d + f + (if normal k then 0 else 1) \<and> set (keys db) - {k} \<subseteq> set (keys db')"
proof -
  from k obtain b where "(k, b) \<in> set db" by auto
  then obtain r where r: "map_of db k = Some r" by (blast dest: weak_map_of_SomeI)
  show ?thesis
  proof (cases "normal k")
    case True
    with step r show ?thesis by (simp add: cleanup_step_normal)
  next
    case False
    show ?thesis
    proof (cases "filterEmail k")
      case None
      with step r False have "db' = AList.delete k db" "d' = Suc d" "f' = f"
        by (simp_all add: cleanup_step_normal)
      with False show ?thesis by auto
    next
      case (Some g)
      with step r False have "db' = AList.delete k (AList.update g r db)" "d' = d" "f' = Suc f"
        by (simp_all add: cleanup_step_normal)
      with False show ?thesis by (auto simp: dom_update intro: rev_image_eqI)
    qed
  qed
qed

lemma cleanup_loop_counts:
  "distinct ks \<Longrightarrow> set ks \<subseteq> set (keys db) \<Longrightarrow> cleanup_loop ks (db, d, f) = (db', d', f') \<Longrightarrow>
   d' + f' = d + f + length (filter (\<lambda>k. \<not> normal k) ks)"
proof (induction ks arbitrary: db d f)
  case Nil
  then show ?case by (simp add: cleanup_loop_def)
next
  case (Cons k ks)
  from Cons.prems(2) have k: "k \<in> set (keys db)" by simp
  obtain db1 d1 f1 where step: "cleanup_step (db, d, f) k = (db1, d1, f1)"
    by (cases "cleanup_step (db, d, f) k")
  from cleanup_step_counts [OF k step]
  have cnt: "d1 + f1 = d + f + (if normal k then 0 else 1)"
    and kept: "set (keys db) - {k} \<subseteq> set (keys db1)" by auto
  have "set ks \<subseteq> set (keys db1)" using Cons.prems(1,2) kept by auto
  moreover have "cleanup_loop ks (db1, d1, f1) = (db', d', f')"
    using Cons.prems(3) step by (simp add: cleanup_loop_def)
  ultimately have "d' + f' = d1 + f1 + length (filter (\<lambda>k. \<not> normal k) ks)"
    using Cons.prems(1) by (intro Cons.IH) auto
  with cnt show ?case by simp
qed

subsection \<open>Lemmas on setStatus and setLastDelivered\<close>

lemma keys_setStatus [simp]: "keys (fst (setStatus es st db)) = keys db"
  by (induction es st db rule: setStatus.induct) (auto split: prod.splits)

lemma setStatus_map:
  "fst (setStatus es st db) = map (\<lambda>(e, r). (e, if e \<in> set es then r\<lparr>status := Some st\<rparr> else r)) db"
  by (induction es st db rule: setStatus.induct) (auto split: prod.splits)

lemma setStatus_count:
  "snd (setStatus es st db) = length (filter (\<lambda>p. fst p \<in> set es \<and> status (snd p) \<noteq> Some st) db)"
  by (induction es st db rule: setStatus.induct) (auto split: prod.splits)

lemma setLastDelivered_step_keys:
  "keys (fst (setLastDelivered_step ts st e)) = keys (fst st)"
  by (cases st) (auto simp: setLastDelivered_step_def update_keys map_of_eq_None_iff
      split: option.splits)

lemma setLastDelivered_fold:
  "foldl (setLastDelivered_step ts) (db, n) es =
     (fold (\<lambda>e db. AList.map_entry e (\<lambda>r. r\<lparr>lastDelivered := Some ts\<rparr>) db) es db,
      n + length (filter (\<lambda>e. e \<in> set (keys db)) es))"
proof (induction es arbitrary: db n)
  case (Cons e es)
  show ?case
  proof (cases "map_of db e")
    case None
    then have "AList.map_entry e (\<lambda>r. r\<lparr>lastDelivered := Some ts\<rparr>) db = db"
      by (induction db) auto
    moreover have "setLastDelivered_step ts (db, n) e = (db, n)"
      using None by (simp add: setLastDelivered_step_def)
    ultimately show ?thesis using None Cons.IH [of db n]
      by (simp add: map_of_eq_None_iff)
  next
    case (Some r)
    then have upd: "AList.update e (r\<lparr>lastDelivered := Some ts\<rparr>) db
        = AList.map_entry e (\<lambda>r. r\<lparr>lastDelivered := Some ts\<rparr>) db"
      by (induction db) auto
    have "keys (AList.update e (r\<lparr>lastDelivered := Some ts\<rparr>) db) = keys db"
      by (simp add: upd)
    moreover have "setLastDelivered_step ts (db, n) e
        = (AList.update e (r\<lparr>lastDelivered := Some ts\<rparr>) db, Suc n)"
      using Some by (simp add: setLastDelivered_step_def)
    ultimately show ?thesis
      using Some Cons.IH [of "AList.update e (r\<lparr>lastDelivered := Some ts\<rparr>) db" "Suc n"]
        map_of_Some_in_keys [OF Some]
      by (simp add: upd)
  qed
qed simp

lemma cleanup_normal_keys:
  "\<forall>k\<in>set (keys (fst (cleanup db))). normal k"
  unfolding cleanup_def by (rule cleanup_loop_normal) simp

lemma insert_result_wf: "wf_db db \<Longrightarrow> wf_db (fst (insert_db T l c db))"
  unfolding insert_db_def by (rule insert_lines_wf) simp

lemma insert_result_served:
  "wf_db db \<Longrightarrow> line \<in> set (split_on CHR 0x0A c) \<Longrightarrow> filterEmail line = Some e \<Longrightarrow>
   served T l (fst (insert_db T l c db)) e"
  unfolding insert_db_def using insert_lines_served [of "(db, 0, 0)"] by auto

subsection \<open>Properties\<close>

text \<open>C1: After \<open>cleanup\<close>, the directory is well formed and every address in it
  is in normal form: \<open>filterEmail\<close> returns it unchanged.\<close>

theorem cleanup_normalizes:
  "wf_db db \<Longrightarrow> wf_db (fst (cleanup db)) \<and> (\<forall>k\<in>set (keys (fst (cleanup db))). filterEmail k = Some k)"
  using cleanup_normal_keys [of db] cleanup_loop_wf [of "(db, 0, 0)" "keys db"]
  by (simp add: cleanup_def normal_def)

theorem cleanup_normalizes_witness:
  "wf_db (fst (cleanup [(''x a@b.cc'', new_rec)])) \<and>
   fst (cleanup [(''x a@b.cc'', new_rec)]) = [(''a@b.cc'', new_rec)] \<and>
   filterEmail ''a@b.cc'' = Some ''a@b.cc''"
proof -
  have h: "wf_db [(''x a@b.cc'', new_rec)]" by (simp add: new_rec_def)
  have c: "fst (cleanup [(''x a@b.cc'', new_rec)]) = [(''a@b.cc'', new_rec)]"
    by (simp add: cleanup_def cleanup_loop_def cleanup_step_def filterEmail_def search.simps
        email_regex_defs)
  show ?thesis using cleanup_normalizes [OF h] c by simp
qed

text \<open>\<open>cleanup\<close> is idempotent: run on its own result it changes nothing and
  reports no deletion and no fix.\<close>

theorem cleanup_idempotent:
  "cleanup (fst (cleanup db)) = (fst (cleanup db), 0, 0)"
  using cleanup_normal_keys [of db] by (simp add: cleanup_def [of "fst (cleanup db)"] cleanup_loop_noop)

text \<open>C2: \<open>insert\<close> is idempotent: importing the same file with the same tags and
  locale a second time changes nothing and counts no insertion and no update.\<close>

theorem insert_idempotent:
  "wf_db db \<Longrightarrow> insert_db T l c (fst (insert_db T l c db)) = (fst (insert_db T l c db), 0, 0)"
  using insert_result_wf [of db T l c] insert_result_served [of db _ c _ T l]
  by (simp add: insert_db_def [of T l c "fst (insert_db T l c db)"] insert_lines_noop)

theorem insert_idempotent_witness:
  "wf_db [] \<and> insert_db [''t''] None ''a@x.com'' (fst (insert_db [''t''] None ''a@x.com'' []))
     = (fst (insert_db [''t''] None ''a@x.com'' []), 0, 0)"
  using insert_idempotent [OF wf_db_Nil] by simp

lemma insert_line_keys:
  "wf_db db \<Longrightarrow> set (keys (fst (insert_line T l (db, i, u) line)))
     = set (keys db) \<union> {e. filterEmail line = Some e}"
  by (cases "filterEmail line") (auto simp: insert_line_None insert_line_Some dom_update)

lemma insert_line_frame:
  "wf_db db \<Longrightarrow> filterEmail line \<noteq> Some e \<Longrightarrow>
   map_of (fst (insert_line T l (db, i, u) line)) e = map_of db e"
  by (cases "filterEmail line") (auto simp: insert_line_None insert_line_Some update_conv')

lemma insert_lines_keys_frame:
  "wf_db (fst st) \<Longrightarrow>
   set (keys (fst (foldl (insert_line T l) st lines)))
     = set (keys (fst st)) \<union> {e. \<exists>line\<in>set lines. filterEmail line = Some e}
   \<and> ((\<forall>line\<in>set lines. filterEmail line \<noteq> Some e) \<longrightarrow>
        map_of (fst (foldl (insert_line T l) st lines)) e = map_of (fst st) e)"
proof (induction lines arbitrary: st)
  case (Cons line lines)
  obtain db i u where st: "st = (db, i, u)" by (cases st)
  have wf': "wf_db (fst (insert_line T l st line))"
    using Cons.prems st by (simp add: insert_line_wf)
  show ?case
    using Cons.IH [OF wf'] Cons.prems st insert_line_keys [of db T l i u line]
      insert_line_frame [of db line e T l i u]
    by auto
qed simp

text \<open>C6: \<open>insert\<close> keeps the directory well formed, and its addresses afterwards
  are the old ones and the normalized address of every line of the file.\<close>

theorem insert_preserves_wf:
  "wf_db db \<Longrightarrow> wf_db (fst (insert_db T l c db)) \<and>
   set (keys (fst (insert_db T l c db)))
     = set (keys db) \<union> {e. \<exists>line\<in>set (split_on CHR 0x0A c). filterEmail line = Some e}"
  using insert_lines_keys_frame [of "(db, 0, 0)"] insert_result_wf [of db T l c]
  by (simp add: insert_db_def)

theorem insert_preserves_wf_witness:
  "wf_db [] \<and> wf_db (fst (insert_db [''t''] None ''a@x.com'' [])) \<and>
   set (keys (fst (insert_db [''t''] None ''a@x.com'' [])))
     = set (keys []) \<union> {e. \<exists>line\<in>set (split_on CHR 0x0A ''a@x.com''). filterEmail line = Some e}"
  using insert_preserves_wf [OF wf_db_Nil] by simp

text \<open>C7: After \<open>insert\<close>, every address of the file (as \<open>readEmailFile\<close>
  reads it) is in the directory with all the given tags, and with the given locale
  when one is given.\<close>

theorem insert_serves:
  "wf_db db \<Longrightarrow> e \<in> set (readEmailFile (Some c)) \<Longrightarrow>
   \<exists>r. map_of (fst (insert_db T l c db)) e = Some r \<and> set T \<subseteq> set (tags r)
       \<and> (js_truthy l \<longrightarrow> loc r = l)"
  using insert_result_served [of db _ c e T l]
  by (auto simp: readEmailFile_def served_def dest!: emails_of_lines_source)

theorem insert_serves_witness:
  "\<exists>r. map_of (fst (insert_db [''t''] (Some ''ru'') ''x a@b.cc'' [])) ''a@b.cc'' = Some r
       \<and> set [''t''] \<subseteq> set (tags r) \<and> loc r = Some ''ru''"
proof -
  have "''a@b.cc'' \<in> set (readEmailFile (Some ''x a@b.cc''))"
    by (simp add: readEmailFile_def filterEmail_def search.simps email_regex_defs)
  from insert_serves [OF wf_db_Nil this, of "[''t'']" "Some ''ru''"] show ?thesis by simp
qed

text \<open>\<open>insert\<close> leaves the record of every address that no line of the
  file normalizes to exactly as it was.\<close>

theorem insert_frame:
  "wf_db db \<Longrightarrow> (\<forall>line\<in>set (split_on CHR 0x0A c). filterEmail line \<noteq> Some e) \<Longrightarrow>
   map_of (fst (insert_db T l c db)) e = map_of db e"
  using insert_lines_keys_frame [of "(db, 0, 0)" T l _ e] by (simp add: insert_db_def)

theorem insert_frame_witness:
  "map_of (fst (insert_db [''t''] None ''x a@b.cc'' [(''q@r.st'', new_rec)])) ''q@r.st'' = Some new_rec"
proof -
  have h: "wf_db [(''q@r.st'', new_rec)]" by (simp add: new_rec_def)
  have "\<forall>line\<in>set (split_on CHR 0x0A ''x a@b.cc''). filterEmail line \<noteq> Some ''q@r.st''"
    by (simp add: filterEmail_def search.simps email_regex_defs)
  from insert_frame [OF h this] show ?thesis by simp
qed

text \<open>C12: The counters of \<open>cleanup\<close> add up: on a well-formed directory,
  \<open>deleted + fixed\<close> is the number of addresses that were not in normal form.\<close>

theorem cleanup_counts:
  "wf_db db \<Longrightarrow> cleanup db = (db', deleted, fixed) \<Longrightarrow>
   deleted + fixed = length (filter (\<lambda>k. filterEmail k \<noteq> Some k) (keys db))"
  using cleanup_loop_counts [of "keys db" db 0 0 db' deleted fixed]
  by (simp add: cleanup_def wf_db_def normal_def)

theorem cleanup_counts_witness:
  "cleanup [(''x a@b.cc'', new_rec)] = ([(''a@b.cc'', new_rec)], 0, 1) \<and>
   0 + 1 = length (filter (\<lambda>k. filterEmail k \<noteq> Some k) (keys [(''x a@b.cc'', new_rec)]))"
proof -
  have h: "wf_db [(''x a@b.cc'', new_rec)]" by (simp add: new_rec_def)
  have c: "cleanup [(''x a@b.cc'', new_rec)] = ([(''a@b.cc'', new_rec)], 0, 1)"
    by (simp add: cleanup_def cleanup_loop_def cleanup_step_def filterEmail_def search.simps
        email_regex_defs)
  show ?thesis using cleanup_counts [OF h c] c by simp
qed

lemma map_of_map_val:
  "map_of (map (\<lambda>(k, v). (k, f k v)) al) k = map_option (f k) (map_of al k)"
  by (induction al) auto

text \<open>\<open>setStatus\<close> reports only real changes: repeating it with the same
  addresses and status reports 0.\<close>

theorem setStatus_idempotent:
  "snd (setStatus es st (fst (setStatus es st db))) = 0"
  by (simp add: setStatus_count setStatus_map filter_empty_conv split: prod.splits)

text \<open>C13: \<open>setStatus\<close> sets the status of exactly the listed addresses that
  are in the directory, leaves every other record as it was, and counts the listed
  records whose status was different.\<close>

theorem setStatus_effect:
  "map_of (fst (setStatus es st db)) e =
     map_option (\<lambda>r. if e \<in> set es then r\<lparr>status := Some st\<rparr> else r) (map_of db e)
   \<and> snd (setStatus es st db) = length (filter (\<lambda>(k, r). k \<in> set es \<and> status r \<noteq> Some st) db)"
  unfolding setStatus_map map_of_map_val by (simp add: setStatus_count case_prod_beta')

text \<open>C14: \<open>setLastDelivered\<close> stamps every listed address that is in the
  directory and no other, and its count is the number of listed occurrences found
  in the directory: an address listed twice is counted twice.\<close>

theorem setLastDelivered_effect:
  "setLastDelivered es ts db = (db', n) \<Longrightarrow>
   map_of db' e = map_option (\<lambda>r. if e \<in> set es then r\<lparr>lastDelivered := Some ts\<rparr> else r) (map_of db e)
   \<and> n = length (filter (\<lambda>e. e \<in> set (keys db)) es)"
proof -
  assume h: "setLastDelivered es ts db = (db', n)"
  have "map_of (fold (\<lambda>e db. AList.map_entry e (\<lambda>r. r\<lparr>lastDelivered := Some ts\<rparr>) db) es db) e
      = map_option (\<lambda>r. if e \<in> set es then r\<lparr>lastDelivered := Some ts\<rparr> else r) (map_of db e)"
    for db
    by (induction es arbitrary: db) (auto simp: map_of_map_entry option.map_comp comp_def option.map_ident
        intro: option.map_cong)
  moreover from h have "db' = fold (\<lambda>e db. AList.map_entry e (\<lambda>r. r\<lparr>lastDelivered := Some ts\<rparr>) db) es db"
      and "n = length (filter (\<lambda>e. e \<in> set (keys db)) es)"
    by (simp_all add: setLastDelivered_def setLastDelivered_fold)
  ultimately show ?thesis by simp
qed

theorem setLastDelivered_effect_witness:
  "setLastDelivered [''a@x.com'', ''a@x.com'', ''n@o.pe''] 7 [(''a@x.com'', new_rec)]
     = ([(''a@x.com'', new_rec\<lparr>lastDelivered := Some 7\<rparr>)], 2)
   \<and> map_of [(''a@x.com'', new_rec\<lparr>lastDelivered := Some 7\<rparr>)] ''a@x.com''
     = map_option (\<lambda>r. if ''a@x.com'' \<in> set [''a@x.com'', ''a@x.com'', ''n@o.pe'']
         then r\<lparr>lastDelivered := Some 7\<rparr> else r) (map_of [(''a@x.com'', new_rec)] ''a@x.com'')
   \<and> (2::nat) = length (filter (\<lambda>e. e \<in> set (keys [(''a@x.com'', new_rec)]))
                    [''a@x.com'', ''a@x.com'', ''n@o.pe''])"
proof -
  have h: "setLastDelivered [''a@x.com'', ''a@x.com'', ''n@o.pe''] 7 [(''a@x.com'', new_rec)]
     = ([(''a@x.com'', new_rec\<lparr>lastDelivered := Some 7\<rparr>)], 2)"
    by (simp add: setLastDelivered_def setLastDelivered_step_def)
  show ?thesis using setLastDelivered_effect [OF h, of "''a@x.com''"] h by simp
qed

text \<open>C19: \<open>insert\<close> counts a newly created address as updated as well as
  inserted whenever tags are given: the new record starts with no tags, so adding
  them sets \<open>addedTags\<close>.\<close>

theorem insert_new_counted_twice:
  "wf_db db \<Longrightarrow> filterEmail c = Some e \<Longrightarrow> CHR 0x0A \<notin> set c \<Longrightarrow> e \<notin> set (keys db) \<Longrightarrow>
   T \<noteq> [] \<Longrightarrow> snd (insert_db T l c db) = (1, 1)"
proof -
  assume wf: "wf_db db" and e: "filterEmail c = Some e" and nl: "CHR 0x0A \<notin> set c"
    and new: "e \<notin> set (keys db)" and T: "T \<noteq> []"
  from new have "map_of db e = None" by (simp add: map_of_eq_None_iff)
  with wf e nl T show ?thesis
    by (simp add: insert_db_def split_on_no_sep insert_line_Some base_rec_def new_rec_def)
qed

theorem insert_new_counted_twice_witness:
  "snd (insert_db [''t1''] None ''a@x.com'' []) = (1, 1)"
proof -
  have "filterEmail ''a@x.com'' = Some ''a@x.com''"
    by (simp add: filterEmail_def search.simps email_regex_defs)
  then show ?thesis by (rule insert_new_counted_twice [OF wf_db_Nil]) simp_all
qed

text \<open>A line holding two addresses contributes only its first: importing
  \<open>a@x.com junk b@y.ru\<close> into an empty directory inserts \<open>a@x.com\<close> alone
  and reports one insertion and one update.\<close>

theorem insert_first_address_only:
  "insert_db [''t1''] None ''a@x.com junk b@y.ru'' [] = ([(''a@x.com'', new_rec\<lparr>tags := [''t1'']\<rparr>)], 1, 1)"
  by (simp add: insert_db_def insert_line_def filterEmail_def search.simps email_regex_defs new_rec_def
      Let_def js_set_of_def js_set_add_def)

text \<open>\<open>cleanup\<close> loses a record when an address normalizes to one that is
  already in the directory: the moved record overwrites the existing one.\<close>

theorem cleanup_collision:
  "cleanup [(''a@b.com '', new_rec\<lparr>tags := [''x'']\<rparr>), (''a@b.com'', new_rec\<lparr>tags := [''y'']\<rparr>)]
     = ([(''a@b.com'', new_rec\<lparr>tags := [''x'']\<rparr>)], 0, 1)"
  by (simp add: cleanup_def cleanup_loop_def cleanup_step_def filterEmail_def search.simps
      email_regex_defs)

subsection \<open>Bounds on the counters of insert\<close>

lemma length_update_alist:
  "length (AList.update k v al) = (if map_of al k = None then Suc (length al) else length al)"
  by (induction al) auto

lemma length_emails_of_lines_Cons:
  "length (emails_of_lines (line # lines)) = length (emails_of_lines [line]) + length (emails_of_lines lines)"
  by (simp split: option.splits)

lemma insert_line_bounds:
  assumes "wf_db db" and "insert_line T l (db, i, u) line = (db', i', u')"
  shows "length db' + i = length db + i' \<and> i' \<le> i + length (emails_of_lines [line])
         \<and> u' \<le> u + length (emails_of_lines [line])"
proof (cases "filterEmail line")
  case None
  with assms(2) show ?thesis by (simp add: insert_line_None)
next
  case (Some e)
  with filterEmail_nonempty have "emails_of_lines [line] = [e]" by simp
  with Some assms show ?thesis by (auto simp: insert_line_Some length_update_alist)
qed

lemma insert_lines_bounds:
  "wf_db db \<Longrightarrow> foldl (insert_line T l) (db, i, u) lines = (db', i', u') \<Longrightarrow>
   length db' + i = length db + i' \<and> i' \<le> i + length (emails_of_lines lines)
   \<and> u' \<le> u + length (emails_of_lines lines)"
proof (induction lines arbitrary: db i u)
  case (Cons line lines)
  obtain db1 i1 u1 where s: "insert_line T l (db, i, u) line = (db1, i1, u1)"
    by (cases "insert_line T l (db, i, u) line")
  have wf1: "wf_db db1" using insert_line_wf [of db T l i u line] Cons.prems(1) s by simp
  from Cons.IH [OF wf1] Cons.prems(2) s have "length db' + i1 = length db1 + i'"
    "i' \<le> i1 + length (emails_of_lines lines)" "u' \<le> u1 + length (emails_of_lines lines)" by simp_all
  with insert_line_bounds [OF Cons.prems(1) s] show ?case
    unfolding length_emails_of_lines_Cons [of line lines] by linarith
qed simp

subsection \<open>Property: bounds\<close>

text \<open>C16: The counters \<open>insert\<close> reports are bounded by the file: the
  directory grows by exactly \<open>inserted\<close> records, and neither \<open>inserted\<close>
  nor \<open>updated\<close> exceeds the number of addresses \<open>readEmailFile\<close> finds in the
  file (one per line that holds one).\<close>

theorem insert_counts_bounded:
  "wf_db db \<Longrightarrow> insert_db T l c db = (db', i, u) \<Longrightarrow>
   length db' = length db + i \<and> i \<le> length (readEmailFile (Some c)) \<and> u \<le> length (readEmailFile (Some c))"
  using insert_lines_bounds [of db T l 0 0 "split_on CHR 0x0A c" db' i u]
  by (simp add: insert_db_def readEmailFile_def)

theorem insert_counts_bounded_witness:
  "insert_db [''t1''] None ''a@x.com'' [] = ([(''a@x.com'', new_rec\<lparr>tags := [''t1'']\<rparr>)], 1, 1) \<and>
   length [(''a@x.com'', new_rec\<lparr>tags := [''t1'']\<rparr>)] = length ([] :: db) + 1 \<and>
   1 \<le> length (readEmailFile (Some ''a@x.com''))"
proof -
  have f: "filterEmail ''a@x.com'' = Some ''a@x.com''"
    by (simp add: filterEmail_def search.simps email_regex_defs)
  have ins: "insert_db [''t1''] None ''a@x.com'' [] = ([(''a@x.com'', new_rec\<lparr>tags := [''t1'']\<rparr>)], 1, 1)"
    by (simp add: insert_db_def insert_line_def f new_rec_def Let_def js_set_of_def js_set_add_def)
  from insert_counts_bounded [OF wf_db_Nil ins] ins show ?thesis by simp
qed

end
