(* ===== verification/Pagination.thy ===== *)
theory Pagination
  imports Prelude
begin

text \<open>
  The pagination drain \<open>pageAll(mg, fn, limit)\<close> of \<open>src/unnamed/part_001\<close>
  (lines 447--471).  The Mailgun client is a parameter: \<open>fetch First\<close> is
  \<open>fn({limit})\<close>, the first page, and \<open>fetch (Get u)\<close> is \<open>mg.get(u)\<close>.
  A response is a page, its items and its \<open>paging.next\<close> URL, or a transport
  failure, which rejects the promise and aborts the drain.  The next request is read
  from \<open>paging.next.split('https://api.mailgun.net/v3')[1]\<close>, and a falsy value
  (undefined or the empty string) sends the loop back to the first page.

  The loop need not end, so it is a \<open>partial_function (option)\<close>: \<open>None\<close> is
  a drain that runs forever.  That it returns on a finite cursor chain is proved
  as such (\<open>pageAll_chain\<close>), and a chain that leaves the Mailgun host or comes
  back to a page it has served makes it run forever.
\<close>

text \<open>\<open>s.split(sep)\<close> for a string separator: the pieces between the
  non-overlapping occurrences of \<open>sep\<close>, left to right.\<close>

function split_str :: "string \<Rightarrow> string \<Rightarrow> string list" where
  "split_str sep s =
     (if sep = [] then map (\<lambda>c. [c]) s
      else if s = [] then [[]]
      else if take (length sep) s = sep then [] # split_str sep (drop (length sep) s)
      else (let ws = split_str sep (tl s) in (hd s # hd ws) # tl ws))"
  by pat_completeness auto
termination
  by (relation "measure (\<lambda>(sep, s). length s)") auto

declare split_str.simps [simp del]

text \<open>\<open>xs[i]\<close>: \<open>undefined\<close> out of range.\<close>

definition nth_opt :: "'a list \<Rightarrow> nat \<Rightarrow> 'a option" where
  "nth_opt xs i = (if i < length xs then Some (xs ! i) else None)"

definition mailgun_base :: string where
  "mailgun_base = ''https://api.mailgun.net/v3''"

datatype request = First | Get string

datatype 'a response = Page "'a list" string | Failed

datatype fetch_error = TransportError

text \<open>\<open>url = response.paging.next.split(...)[1]\<close>, then \<open>if(url)\<close>.\<close>

definition next_request :: "string \<Rightarrow> request" where
  "next_request nxt =
     (case nth_opt (split_str mailgun_base nxt) 1 of
        Some u \<Rightarrow> if u \<noteq> [] then Get u else First
      | None \<Rightarrow> First)"

text \<open>One turn of the \<open>while(true)\<close> loop, from the request it makes, with the
  items gathered so far.\<close>

partial_function (option) page_loop ::
  "(request \<Rightarrow> 'a response) \<Rightarrow> request \<Rightarrow> 'a list \<Rightarrow> (fetch_error + 'a list) option" where
  "page_loop fetch req acc =
     (case fetch req of
        Failed \<Rightarrow> Some (Inl TransportError)
      | Page items nxt \<Rightarrow>
          if items = [] then Some (Inr acc)
          else page_loop fetch (next_request nxt) (acc @ items))"

definition pageAll :: "(request \<Rightarrow> 'a response) \<Rightarrow> (fetch_error + 'a list) option" where
  "pageAll fetch = page_loop fetch First []"

text \<open>A finite run of the drain: the pages returned from a request on, each
  non-empty with its \<open>paging.next\<close>, ended by an empty page.\<close>

primrec page_chain :: "(request \<Rightarrow> 'a response) \<Rightarrow> request \<Rightarrow> ('a list \<times> string) list \<Rightarrow> bool" where
  "page_chain fetch req [] = (case fetch req of Page items nxt \<Rightarrow> items = [] | Failed \<Rightarrow> False)"
| "page_chain fetch req (p # ps) =
     (fetch req = Page (fst p) (snd p) \<and> fst p \<noteq> [] \<and> page_chain fetch (next_request (snd p)) ps)"

text \<open>Sample page providers: a Mailgun cursor chain of three pages, and the
  same first page with its \<open>paging.next\<close> on the EU host.\<close>

definition sample_pages :: "request \<Rightarrow> nat response" where
  "sample_pages q =
     (case q of
        First \<Rightarrow> Page [1, 2] (mailgun_base @ ''/d/events/p2'')
      | Get u \<Rightarrow> if u = ''/d/events/p2'' then Page [3] (mailgun_base @ ''/d/events/p3'')
                else Page [] (mailgun_base @ ''/d/events/p4''))"

definition sample_eu_pages :: "request \<Rightarrow> nat response" where
  "sample_eu_pages q = Page [1] ''https://api.eu.mailgun.net/v3/d/events/p2''"

text \<open>A cursor that comes back to a page it has already served.\<close>

definition sample_loop_pages :: "request \<Rightarrow> nat response" where
  "sample_loop_pages q =
     (case q of
        First \<Rightarrow> Page [1] (mailgun_base @ ''/a'')
      | Get u \<Rightarrow> if u = ''/a'' then Page [2] (mailgun_base @ ''/b'') else Page [3] (mailgun_base @ ''/a''))"

subsection \<open>Lemmas\<close>

lemma page_loop_cycle:
  assumes closed: "\<forall>q\<in>S. \<exists>items nxt. fetch q = Page items nxt \<and> items \<noteq> [] \<and> next_request nxt \<in> S"
  shows "req \<in> S \<Longrightarrow> page_loop fetch req acc = None"
proof -
  have "page_loop f q a = Some y \<Longrightarrow> f = fetch \<longrightarrow> q \<notin> S" for f q a y
  proof (erule page_loop.raw_induct [where P = "\<lambda>f q a y. f = fetch \<longrightarrow> q \<notin> S", rotated])
    fix pl f q a y
    assume IH: "\<And>q a b y. pl q a b = Some y \<Longrightarrow> q = fetch \<longrightarrow> a \<notin> S"
      and step: "(case f q of
          Page items nxt \<Rightarrow> if items = [] then Some (Inr a) else pl f (next_request nxt) (a @ items)
        | Failed \<Rightarrow> Some (Inl TransportError)) = Some y"
    show "f = fetch \<longrightarrow> q \<notin> S"
    proof (intro impI notI)
      assume f: "f = fetch" and "q \<in> S"
      with closed obtain items nxt where p: "fetch q = Page items nxt" "items \<noteq> []"
        "next_request nxt \<in> S" by blast
      with step f have "pl fetch (next_request nxt) (a @ items) = Some y" by simp
      with IH p(3) show False by blast
    qed
  qed
  then show "req \<in> S \<Longrightarrow> page_loop fetch req acc = None" by fastforce
qed

lemma page_chain_loop:
  "page_chain fetch req ps \<Longrightarrow> page_loop fetch req acc = Some (Inr (acc @ concat (map fst ps)))"
proof (induction ps arbitrary: req acc)
  case Nil
  then show ?case by (subst page_loop.simps) (auto split: response.splits)
next
  case (Cons p ps)
  then show ?case by (subst page_loop.simps) simp
qed

lemma split_str_no_sep:
  "sep \<noteq> [] \<Longrightarrow> \<not> sublist sep s \<Longrightarrow> split_str sep s = [s]"
proof (induction sep s rule: split_str.induct)
  case (1 sep s)
  show ?case
  proof (cases s)
    case Nil
    with 1 show ?thesis by (simp add: split_str.simps)
  next
    case (Cons c s')
    have "\<not> prefix sep s" using 1(4) by (metis prefix_imp_sublist)
    then have np: "take (length sep) s \<noteq> sep" by (metis take_is_prefix)
    have "\<not> sublist sep s'" using 1(4) Cons by (metis sublist_Cons_right)
    with 1(2) 1(3) Cons np have "split_str sep s' = [s']" by simp
    with 1(3) Cons np show ?thesis by (simp add: split_str.simps [of sep "c # s'"])
  qed
qed

lemma split_str_sep_prefix:
  "sep \<noteq> [] \<Longrightarrow> split_str sep (sep @ p) = [] # split_str sep p"
  by (simp add: split_str.simps [of sep "sep @ p"])

lemma next_request_foreign: "\<not> sublist mailgun_base nxt \<Longrightarrow> next_request nxt = First"
  by (simp add: next_request_def split_str_no_sep mailgun_base_def nth_opt_def)

subsection \<open>Properties\<close>

text \<open>C21: A drain whose cursor chain ends with an empty page returns, and its
  result is the items of the pages in page order.\<close>

theorem pageAll_chain:
  "page_chain fetch First ps \<Longrightarrow> pageAll fetch = Some (Inr (concat (map fst ps)))"
  using page_chain_loop [of fetch First ps "[]"] by (simp add: pageAll_def)

text \<open>The next request is read back from a Mailgun \<open>paging.next\<close> URL: for
  a URL on \<open>api.mailgun.net/v3\<close> with a non-empty path, the loop asks for that
  path.\<close>

theorem next_request_path:
  "p \<noteq> [] \<Longrightarrow> \<not> sublist mailgun_base p \<Longrightarrow> next_request (mailgun_base @ p) = Get p"
proof -
  assume "p \<noteq> []" and "\<not> sublist mailgun_base p"
  moreover have "mailgun_base \<noteq> []" by (simp add: mailgun_base_def)
  ultimately have "split_str mailgun_base (mailgun_base @ p) = [[], p]"
    by (simp add: split_str_sep_prefix split_str_no_sep)
  with \<open>p \<noteq> []\<close> show ?thesis by (simp add: next_request_def nth_opt_def)
qed

text \<open>C22: When the first page is not empty and its \<open>paging.next\<close> URL is on
  another host (for instance the EU endpoint \<open>api.eu.mailgun.net\<close>), the drain
  never ends: the split finds no path, and the loop fetches the first page again
  and again.\<close>

theorem pageAll_foreign_host_diverges:
  "fetch First = Page items nxt \<Longrightarrow> items \<noteq> [] \<Longrightarrow> \<not> sublist mailgun_base nxt \<Longrightarrow>
   pageAll fetch = None"
  unfolding pageAll_def by (rule page_loop_cycle [of "{First}"]) (simp_all add: next_request_foreign)

text \<open>C23: The empty-page check does not bound the drain: whenever the requests
  it can reach form a cycle of non-empty pages, it never returns.\<close>

theorem pageAll_cycle_diverges:
  "\<forall>q\<in>S. \<exists>items nxt. fetch q = Page items nxt \<and> items \<noteq> [] \<and> next_request nxt \<in> S \<Longrightarrow>
   First \<in> S \<Longrightarrow> pageAll fetch = None"
  unfolding pageAll_def by (rule page_loop_cycle)

theorem pageAll_chain_witness: "pageAll sample_pages = Some (Inr [1, 2, 3])"
proof -
  have "page_chain sample_pages First [([1, 2], mailgun_base @ ''/d/events/p2''),
      ([3], mailgun_base @ ''/d/events/p3'')]"
    by (simp add: sample_pages_def next_request_def nth_opt_def split_str.simps mailgun_base_def)
  from pageAll_chain [OF this] show ?thesis by simp
qed

theorem next_request_path_witness:
  "next_request (mailgun_base @ ''/d/events/p2'') = Get ''/d/events/p2''"
proof (rule next_request_path)
  show "\<not> sublist mailgun_base ''/d/events/p2''"
    by (auto simp: mailgun_base_def dest: sublist_length_le)
qed simp

theorem pageAll_foreign_host_diverges_witness: "pageAll sample_eu_pages = None"
proof (rule pageAll_foreign_host_diverges)
  show "sample_eu_pages First = Page [1] ''https://api.eu.mailgun.net/v3/d/events/p2''"
    by (simp add: sample_eu_pages_def)
  show "\<not> sublist mailgun_base ''https://api.eu.mailgun.net/v3/d/events/p2''"
    by (simp add: mailgun_base_def sublist_code(3))
qed simp

theorem pageAll_cycle_diverges_witness: "pageAll sample_loop_pages = None"
proof (rule pageAll_cycle_diverges [of "{First, Get ''/a'', Get ''/b''}"])
  show "\<forall>q\<in>{First, Get ''/a'', Get ''/b''}. \<exists>items nxt. sample_loop_pages q = Page items nxt
      \<and> items \<noteq> [] \<and> next_request nxt \<in> {First, Get ''/a'', Get ''/b''}"
    by (simp add: sample_loop_pages_def next_request_def nth_opt_def split_str.simps mailgun_base_def)
qed simp

end
