(* ===== verification/Commands.thy ===== *)
theory Commands
  imports Query Mutations Pagination
begin

text \<open>
  The command-line program of \<open>src/unnamed/part_001\<close> (lines 283--603): the
  module-level \<open>db.load()\<close> (line 305), \<open>emailToString\<close> (283--299),
  \<open>makeFilename\<close> (365--391) and the twelve \<open>commander\<close> actions \<open>insert\<close>,
  \<open>query\<close>, \<open>export\<close>, \<open>tags\<close>, \<open>cleanup\<close>, \<open>download_broken\<close>,
  \<open>set_delivered_now\<close>, \<open>update_delivered\<close>, \<open>mark_clean\<close>,
  \<open>mark_broken\<close>, \<open>find_emails\<close> and \<open>send\<close>, one definition each
  (\<open>insert_action\<close> ... \<open>send_action\<close>), dispatched by \<open>exec\<close>.

  One run of the program is \<open>run\<close>: load the directory, then run one command.
  A \<open>TypeError\<close> of \<open>load\<close> is thrown at module level, before the
  \<open>uncaughtException\<close> handler is installed, and ends the process
  (\<open>Crashed\<close>).  An exception inside an action (a missing input file, a failed
  write, a rejected Mailgun request) goes to the handler, which only logs it: the
  action stops where it is (\<open>Aborted\<close>).  \<open>process.exit(1)\<close> is
  \<open>Exited 1\<close>.  A drain that never ends makes the run \<open>None\<close>.

  The environment of a run is a record: the clock (\<open>moment()\<close> as an instant
  and as calendar fields), moment's \<open>format()\<close> of an instant, whether
  \<open>writeFileSync\<close> of the directory succeeds, the Mailgun endpoints as page
  providers, \<open>MAILGUN_DOMAIN\<close>, \<open>FROM_ADDRESS\<close> and whether Mailgun accepts a
  message.  Text files other than the directory are a map from name to contents,
  and the messages Mailgun accepted are the list \<open>outbox\<close>.
  What the commands print is the list of lines of the command's result
  (\<open>emailToString\<close> per address, one line per tag); progress messages are not
  modelled.
\<close>

subsection \<open>Formatting\<close>

text \<open>Decimal digits of a natural number.\<close>

fun dec :: "nat \<Rightarrow> string" where
  "dec n = (if n < 10 then [char_of (48 + n)] else dec (n div 10) @ [char_of (48 + n mod 10)])"

declare dec.simps [simp del]

definition pad2 :: "nat \<Rightarrow> string" where
  "pad2 n = (if n < 10 then CHR ''0'' # dec n else dec n)"

record datetime =
  year :: nat
  month :: nat
  day :: nat
  hour :: nat
  minute :: nat

text \<open>\<open>moment().format('YYYY-MM-DD-HH.MM')\<close>: in a moment format \<open>MM\<close> is the
  month, in both places (the minutes are \<open>mm\<close>).\<close>

definition format_ts :: "datetime \<Rightarrow> string" where
  "format_ts t = dec (year t) @ ''-'' @ pad2 (month t) @ ''-'' @ pad2 (day t) @ ''-''
                 @ pad2 (hour t) @ ''.'' @ pad2 (month t)"

text \<open>The values \<open>makeFilename\<close> meets: strings, arrays of strings and
  \<open>true\<close>; an absent value is \<open>None\<close>.\<close>

datatype js_val = JStr string | JArr "string list" | JTrue

fun js_val_str :: "js_val \<Rightarrow> string" where
  "js_val_str (JStr s) = s"
| "js_val_str (JArr xs) = join_with CHR '','' xs"
| "js_val_str JTrue = ''true''"

definition makeFilename :: "string \<Rightarrow> (string \<times> js_val option) list \<Rightarrow> datetime \<Rightarrow> string" where
  "makeFilename base input t =
     base @ ''/'' @
     join_with CHR '','' (format_ts t # concat (map (\<lambda>(k, v). case v of None \<Rightarrow> []
                                             | Some x \<Rightarrow> [k @ ''='' @ js_val_str x]) input))
     @ ''.txt''"

fun status_str :: "status option \<Rightarrow> string" where
  "status_str None = ''undefined''"
| "status_str (Some Dirty) = ''dirty''"
| "status_str (Some Broken) = ''broken''"
| "status_str (Some Clean) = ''clean''"

text \<open>\<open>emailToString(email)\<close>; \<open>fmt\<close> is the text stored in
  \<open>lastDelivered\<close>.  \<open>rec.locale || guessEmailLocale(email) || '?'\<close> never
  reaches \<open>'?'\<close>.\<close>

definition emailToString :: "(timestamp \<Rightarrow> string) \<Rightarrow> db \<Rightarrow> email \<Rightarrow> string" where
  "emailToString fmt db email =
     (case map_of db email of
        None \<Rightarrow> email @ '': not found in db''
      | Some r \<Rightarrow>
          email @ '':''
          @ (if tags r \<noteq> [] then ''('' @ join_with CHR '','' (tags r) @ '')'' else [])
          @ ''['' @ resolveLocale email r @ '']''
          @ ''('' @ status_str (status r) @ '')''
          @ (case lastDelivered r of None \<Rightarrow> [] | Some t \<Rightarrow> ''[lastSent:'' @ fmt t @ '']''))"

subsection \<open>The commands\<close>

record env =
  clock_now :: timestamp
  clock :: datetime
  fmt :: "timestamp \<Rightarrow> string"
  write_ok :: bool
  unsubscribes :: "request \<Rightarrow> email response"
  bounces :: "request \<Rightarrow> email response"
  complaints :: "request \<Rightarrow> email response"
  events :: "request \<Rightarrow> (email \<times> timestamp) response"
  mailgun_domain :: "string option"
  from_address :: "string option"
  send_ok :: bool

text \<open>A message \<open>send\<close> hands to Mailgun: the fields of \<open>mailOptions\<close>
  (570--576); MIME compilation is not modelled.\<close>

record mime_mail =
  mail_from :: "string option"
  mail_to :: string
  mail_subject :: string
  mail_html :: string

record cli_state =
  fs :: fs_state
  texts :: "string \<Rightarrow> string option"
  outbox :: "mime_mail list"

datatype outcome = Done "string list" | Exited nat | Aborted | Crashed error

text \<open>The arguments as \<open>commander\<close> passes them: repeated \<open>--tag\<close> values
  as an array, the other options as strings or \<open>undefined\<close>; \<open>find_emails\<close>
  takes the compiled \<open>new RegExp(regexp)\<close>.\<close>

datatype command =
    InsertCmd string "tag list" "locale_t option"
  | QueryCmd "tag list" "locale_t option" "string option" "string option"
  | ExportCmd "tag list" "locale_t option" "string option" "string option"
  | TagsCmd
  | CleanupCmd
  | DownloadBroken
  | SetDeliveredNow string
  | UpdateDelivered
  | MarkClean string
  | MarkBroken string
  | FindEmails re
  | Send string string string

text \<open>The \<open>--status\<close> check of \<open>query\<close> and \<open>export\<close>:
  \<open>status && !['clean', 'dirty', 'broken'].includes(status)\<close> exits.  An empty
  string passes the check and, as \<open>statusOnly\<close>, equals no record's status.\<close>

datatype status_filter = AnyStatus | Only status | MatchesNone

definition check_status :: "string option \<Rightarrow> status_filter option" where
  "check_status s =
     (case s of
        None \<Rightarrow> Some AnyStatus
      | Some x \<Rightarrow>
          if x = [] then Some MatchesNone
          else if x = ''clean'' then Some (Only Clean)
          else if x = ''dirty'' then Some (Only Dirty)
          else if x = ''broken'' then Some (Only Broken)
          else None)"

text \<open>\<open>--cold-days <coldDays>\<close> has no argument parser: commander hands
  \<open>lookup\<close> the option's string as it was typed, and the gate of
  \<open>too_recent\<close> reads it as a JavaScript string (truthy when non-empty,
  \<open>ToNumber\<close> in the comparison).\<close>

definition cold_arg :: "string option \<Rightarrow> js_prim option" where
  "cold_arg c = map_option StrVal c"

text \<open>\<open>db.lookup({tags: new Set(tags || []), locale, statusOnly: status, coldDays})\<close>
  after the check.\<close>

definition run_lookup ::
  "env \<Rightarrow> tag list \<Rightarrow> locale_t option \<Rightarrow> status_filter \<Rightarrow> string option \<Rightarrow> db
   \<Rightarrow> (email \<times> (tag list \<times> locale_t)) list" where
  "run_lookup e T l sf c db =
     (case sf of
        MatchesNone \<Rightarrow> []
      | AnyStatus \<Rightarrow> lookup (clock_now e) \<lparr>q_tags = js_set_of T, q_locale = l, q_status = None,
                       q_coldDays = cold_arg c\<rparr> db
      | Only st \<Rightarrow> lookup (clock_now e) \<lparr>q_tags = js_set_of T, q_locale = l, q_status = Some st,
                       q_coldDays = cold_arg c\<rparr> db)"

definition export_input ::
  "tag list \<Rightarrow> locale_t option \<Rightarrow> string option \<Rightarrow> string option \<Rightarrow> (string \<times> js_val option) list" where
  "export_input T l s c =
     [(''tags'', Some (JArr T)), (''locale'', map_option JStr l), (''statusOnly'', map_option JStr s),
      (''coldDays'', map_option JStr c)]"

text \<open>\<open>db.save()\<close> at the end of an action.\<close>

definition save_step :: "env \<Rightarrow> db \<Rightarrow> cli_state \<Rightarrow> outcome \<times> cli_state" where
  "save_step e db st =
     (case save (write_ok e) db (fs st) of
        (None, fs') \<Rightarrow> (Done [], st\<lparr>fs := fs'\<rparr>)
      | (Some err, fs') \<Rightarrow> (Aborted, st\<lparr>fs := fs'\<rparr>))"

text \<open>The three suppression lists of \<open>download_broken\<close>, drained one after the
  other.\<close>

fun drain_all :: "(request \<Rightarrow> 'a response) list \<Rightarrow> (fetch_error + 'a list) option" where
  "drain_all [] = Some (Inr [])"
| "drain_all (f # rest) =
     (case pageAll f of
        None \<Rightarrow> None
      | Some (Inl err) \<Rightarrow> Some (Inl err)
      | Some (Inr xs) \<Rightarrow>
          (case drain_all rest of
             None \<Rightarrow> None
           | Some (Inl err) \<Rightarrow> Some (Inl err)
           | Some (Inr ys) \<Rightarrow> Some (Inr (xs @ ys))))"

text \<open>The loop of \<open>update_delivered\<close>: \<open>db.setLastDelivered([item.recipient],
  ts)\<close> for each event in the order of the drained list, adding up the counts.\<close>

definition deliver_step :: "db \<times> nat \<Rightarrow> email \<times> timestamp \<Rightarrow> db \<times> nat" where
  "deliver_step st item =
     (let (db, n) = st; (rcpt, ts) = item; (db', k) = setLastDelivered [rcpt] ts db in (db', n + k))"

definition deliver_events :: "(email \<times> timestamp) list \<Rightarrow> db \<Rightarrow> db \<times> nat" where
  "deliver_events items db = foldl deliver_step (db, 0) items"

text \<open>The actions, one definition each, on the loaded directory.  \<open>insert\<close>:
  \<open>readFileSync\<close> of a missing file throws.\<close>

definition insert_action ::
  "env \<Rightarrow> string \<Rightarrow> tag list \<Rightarrow> locale_t option \<Rightarrow> db \<Rightarrow> cli_state \<Rightarrow> outcome \<times> cli_state" where
  "insert_action e file T l db st =
     (case texts st file of
        None \<Rightarrow> (Aborted, st)
      | Some contents \<Rightarrow> save_step e (fst (insert_db (js_set_of T) l contents db)) st)"

definition query_action ::
  "env \<Rightarrow> tag list \<Rightarrow> locale_t option \<Rightarrow> string option \<Rightarrow> string option \<Rightarrow> db \<Rightarrow> outcome" where
  "query_action e T l s c db =
     (case check_status s of
        None \<Rightarrow> Exited 1
      | Some sf \<Rightarrow> Done (map (emailToString (fmt e) db) (keys (run_lookup e T l sf c db))))"

definition export_action ::
  "env \<Rightarrow> tag list \<Rightarrow> locale_t option \<Rightarrow> string option \<Rightarrow> string option \<Rightarrow> db \<Rightarrow> cli_state
   \<Rightarrow> outcome \<times> cli_state" where
  "export_action e T l s c db st =
     (case check_status s of
        None \<Rightarrow> (Exited 1, st)
      | Some sf \<Rightarrow>
          (Done [], st\<lparr>texts := (texts st)(makeFilename ''export'' (export_input T l s c) (clock e)
                                  \<mapsto> saveEmailFile (keys (run_lookup e T l sf c db)))\<rparr>))"

definition tags_action :: "db \<Rightarrow> string list" where
  "tags_action db = map (\<lambda>(t, n). t @ '': '' @ dec n @ '' emails'') (allTags db)"

definition cleanup_action :: "env \<Rightarrow> db \<Rightarrow> cli_state \<Rightarrow> outcome \<times> cli_state" where
  "cleanup_action e db st = save_step e (fst (cleanup db)) st"

text \<open>\<open>download_broken\<close> only writes the drained addresses to a file.\<close>

definition download_broken_action :: "env \<Rightarrow> cli_state \<Rightarrow> (outcome \<times> cli_state) option" where
  "download_broken_action e st =
     (case drain_all [unsubscribes e, bounces e, complaints e] of
        None \<Rightarrow> None
      | Some (Inl err) \<Rightarrow> Some (Aborted, st)
      | Some (Inr emails) \<Rightarrow>
          Some (Done [], st\<lparr>texts := (texts st)(makeFilename ''downloaded'' [(''broken'', Some JTrue)] (clock e)
                                  \<mapsto> saveEmailFile emails)\<rparr>))"

definition set_delivered_now_action :: "env \<Rightarrow> string \<Rightarrow> db \<Rightarrow> cli_state \<Rightarrow> outcome \<times> cli_state" where
  "set_delivered_now_action e file db st =
     save_step e (fst (setLastDelivered (readEmailFile (texts st file)) (clock_now e) db)) st"

definition update_delivered_action :: "env \<Rightarrow> db \<Rightarrow> cli_state \<Rightarrow> (outcome \<times> cli_state) option" where
  "update_delivered_action e db st =
     (case pageAll (events e) of
        None \<Rightarrow> None
      | Some (Inl err) \<Rightarrow> Some (Aborted, st)
      | Some (Inr items) \<Rightarrow>
          (let st1 = st\<lparr>texts := (texts st)(makeFilename ''downloaded'' [(''delivered'', Some JTrue)] (clock e)
                                  \<mapsto> saveEmailFile (js_set_of (map fst items)))\<rparr>
           in Some (save_step e (fst (deliver_events items db)) st1)))"

definition mark_clean_action :: "env \<Rightarrow> string \<Rightarrow> db \<Rightarrow> cli_state \<Rightarrow> outcome \<times> cli_state" where
  "mark_clean_action e file db st = save_step e (fst (setStatus (readEmailFile (texts st file)) Clean db)) st"

definition mark_broken_action :: "env \<Rightarrow> string \<Rightarrow> db \<Rightarrow> cli_state \<Rightarrow> outcome \<times> cli_state" where
  "mark_broken_action e file db st = save_step e (fst (setStatus (readEmailFile (texts st file)) Broken db)) st"

definition find_emails_action :: "env \<Rightarrow> re \<Rightarrow> db \<Rightarrow> string list" where
  "find_emails_action e rx db = map (emailToString (fmt e) db) (keys (lookupByRegexp rx db))"

text \<open>\<open>send <listName> <subject> <htmlFile>\<close>: it reads the HTML file first (a
  missing file throws: \<open>Aborted\<close>), then returns early, after logging an
  error, when \<open>MAILGUN_DOMAIN\<close> is unset; otherwise it composes a message from
  \<open>FROM_ADDRESS\<close> (possibly unset) to \<open>listName@MAILGUN_DOMAIN\<close> and hands it
  to Mailgun, whose rejection is an exception (\<open>Aborted\<close>).  A message Mailgun
  accepts is appended to \<open>outbox\<close>.  The directory is not touched.\<close>

definition send_action :: "env \<Rightarrow> string \<Rightarrow> string \<Rightarrow> string \<Rightarrow> cli_state \<Rightarrow> outcome \<times> cli_state" where
  "send_action e listName subject htmlFile st =
     (case texts st htmlFile of
        None \<Rightarrow> (Aborted, st)
      | Some html \<Rightarrow>
          (case mailgun_domain e of
             None \<Rightarrow> (Done [], st)
           | Some d \<Rightarrow>
               (let m = \<lparr>mail_from = from_address e, mail_to = listName @ ''@'' @ d,
                         mail_subject = subject, mail_html = html\<rparr>
                in if send_ok e then (Done [], st\<lparr>outbox := outbox st @ [m]\<rparr>) else (Aborted, st))))"

fun exec :: "env \<Rightarrow> command \<Rightarrow> db \<Rightarrow> cli_state \<Rightarrow> (outcome \<times> cli_state) option" where
  "exec e (InsertCmd file T l) db st = Some (insert_action e file T l db st)"
| "exec e (QueryCmd T l s c) db st = Some (query_action e T l s c db, st)"
| "exec e (ExportCmd T l s c) db st = Some (export_action e T l s c db st)"
| "exec e TagsCmd db st = Some (Done (tags_action db), st)"
| "exec e CleanupCmd db st = Some (cleanup_action e db st)"
| "exec e DownloadBroken db st = download_broken_action e st"
| "exec e (SetDeliveredNow file) db st = Some (set_delivered_now_action e file db st)"
| "exec e UpdateDelivered db st = update_delivered_action e db st"
| "exec e (MarkClean file) db st = Some (mark_clean_action e file db st)"
| "exec e (MarkBroken file) db st = Some (mark_broken_action e file db st)"
| "exec e (FindEmails rx) db st = Some (Done (find_emails_action e rx db), st)"
| "exec e (Send listName subject htmlFile) db st = Some (send_action e listName subject htmlFile st)"

text \<open>The definitions of the actions, for unfolding \<open>exec\<close>.\<close>

lemmas action_defs = insert_action_def query_action_def export_action_def tags_action_def
  cleanup_action_def download_broken_action_def set_delivered_now_action_def
  update_delivered_action_def mark_clean_action_def mark_broken_action_def find_emails_action_def
  send_action_def

text \<open>One run of the program: \<open>db.load()\<close> at module level, then the action.\<close>

definition run :: "env \<Rightarrow> command \<Rightarrow> cli_state \<Rightarrow> (outcome \<times> cli_state) option" where
  "run e cmd st = (case load (fs st) of Inl err \<Rightarrow> Some (Crashed err, st) | Inr db \<Rightarrow> exec e cmd db st)"

text \<open>The actions that end with \<open>db.save()\<close>.\<close>

fun saves :: "command \<Rightarrow> bool" where
  "saves (InsertCmd _ _ _) = True"
| "saves CleanupCmd = True"
| "saves (SetDeliveredNow _) = True"
| "saves UpdateDelivered = True"
| "saves (MarkClean _) = True"
| "saves (MarkBroken _) = True"
| "saves _ = False"

text \<open>A sample environment and state for the witnesses: a clock at
  2024-03-05 10:05, writes that succeed, Mailgun endpoints with nothing to list,
  and a directory file holding one legacy record.\<close>

definition sample_env :: env where
  "sample_env = \<lparr>clock_now = 1709633100,
     clock = \<lparr>year = 2024, month = 3, day = 5, hour = 10, minute = 5\<rparr>,
     fmt = (\<lambda>t. ''T''), write_ok = True,
     unsubscribes = (\<lambda>q. Page [] []), bounces = (\<lambda>q. Page [] []), complaints = (\<lambda>q. Page [] []),
     events = (\<lambda>q. Page [] []), mailgun_domain = Some ''mg.example.com'', from_address = None,
     send_ok = True\<rparr>"

definition sample_state :: cli_state where
  "sample_state = \<lparr>fs = \<lparr>db_file = Some (Json [(''a@x.com'', \<lparr>r_tags = JArray [''t1''], r_locale = None,
       r_status = Some Dirty, r_broken = False, r_clean = False, r_lastDelivered = None\<rparr>)]),
       tmp_file = None\<rparr>,
     texts = [''in.txt'' \<mapsto> ''b@y.ru''], outbox = []\<rparr>"

subsection \<open>Lemmas\<close>

lemma save_step_Done:
  "save_step e db st = (Done out, st') \<Longrightarrow> db_file (fs st') = Some (Json (serialize db))"
  by (auto simp: save_step_def save_def Let_def split: option.splits prod.splits if_splits)

lemma exec_saves_Done:
  "saves cmd \<Longrightarrow> exec e cmd db st = Some (Done out, st') \<Longrightarrow>
   \<exists>db'. db_file (fs st') = Some (Json (serialize db'))"
proof (cases cmd)
  case UpdateDelivered
  assume "exec e cmd db st = Some (Done out, st')"
  with UpdateDelivered show ?thesis
    by (auto simp: update_delivered_action_def Let_def dest: save_step_Done split: option.splits sum.splits)
qed (auto simp: action_defs dest: save_step_Done split: option.splits)

lemma serialize_Nil_iff [simp]: "serialize db = [] \<longleftrightarrow> db = []"
  by (simp add: serialize_def)

lemma keys_fold_lookup:
  "set (keys (fold (\<lambda>(e, r) res. case f e r of None \<Rightarrow> res | Some v \<Rightarrow> AList.update e v res) db acc))
     \<subseteq> set (keys acc) \<union> set (keys db)"
proof (induction db arbitrary: acc)
  case (Cons p db)
  obtain k r where p: "p = (k, r)" by (cases p)
  let ?acc' = "case f k r of None \<Rightarrow> acc | Some v \<Rightarrow> AList.update k v acc"
  have "set (keys ?acc') \<subseteq> insert k (set (keys acc))"
    by (auto simp: dom_update split: option.splits)
  with Cons.IH [of ?acc'] show ?case by (auto simp: p)
qed simp

lemma keys_run_lookup: "set (keys (run_lookup e T l sf c db)) \<subseteq> set (keys db)"
  using keys_fold_lookup [of _ db "[]"]
  by (auto simp: run_lookup_def lookup_def split: status_filter.splits)

lemma setLastDelivered_single:
  "setLastDelivered [a] ts db =
     (AList.map_entry a (\<lambda>r. r\<lparr>lastDelivered := Some ts\<rparr>) db, if a \<in> set (keys db) then 1 else 0)"
  by (simp only: setLastDelivered_def setLastDelivered_fold) simp

lemma deliver_step_db:
  "deliver_step (db, n) (a, ts) =
     (AList.map_entry a (\<lambda>r. r\<lparr>lastDelivered := Some ts\<rparr>) db, n + (if a \<in> set (keys db) then 1 else 0))"
  by (simp add: deliver_step_def setLastDelivered_single)

lemma deliver_events_map_aux:
  "map_of (fst (foldl deliver_step (db, n) items)) e =
   map_option (\<lambda>r. case filter (\<lambda>it. fst it = e) items of
                      [] \<Rightarrow> r
                    | its \<Rightarrow> r\<lparr>lastDelivered := Some (snd (last its))\<rparr>) (map_of db e)"
proof (induction items arbitrary: db n)
  case Nil
  then show ?case by (simp add: option.map_ident)
next
  case (Cons it items)
  obtain a ts where it: "it = (a, ts)" by (cases it)
  show ?case
    by (cases "filter (\<lambda>it. fst it = e) items")
       (auto simp: it Cons.IH deliver_step_db map_of_map_entry option.map_comp comp_def
         option.map_ident)
qed

lemma deliver_events_map:
  "map_of (fst (deliver_events items db)) e =
     map_option (\<lambda>r. case filter (\<lambda>it. fst it = e) items of
                        [] \<Rightarrow> r
                      | its \<Rightarrow> r\<lparr>lastDelivered := Some (snd (last its))\<rparr>) (map_of db e)"
  unfolding deliver_events_def by (rule deliver_events_map_aux)

lemma dec_digits: "(\<forall>c\<in>set (dec n). is_dec c) \<and> radix_digits 10 (dec n) = Some n"
proof (induction n rule: dec.induct)
  case (1 n)
  show ?case
  proof (cases "n < 10")
    case True then show ?thesis
      by (simp add: dec.simps is_dec_char radix_digit_dec radix_digits_def)
  next
    case False
    with 1 have "dec (n div 10) \<noteq> []" "radix_val 10 0 (dec (n div 10)) = Some (n div 10)"
      by (auto simp: radix_digits_def split: if_splits)
    with 1 False show ?thesis
      by (simp add: dec.simps[of n] is_dec_char radix_digit_dec radix_digits_def radix_val_append)
  qed
qed

lemma saves_load_fails:
  "saves cmd \<Longrightarrow> run e cmd st = Some (Done out, st') \<Longrightarrow> db_file (fs st') \<noteq> Some (Json []) \<Longrightarrow>
   \<exists>err. load (fs st') = Inl err"
proof -
  assume s: "saves cmd" and r: "run e cmd st = Some (Done out, st')"
    and ne: "db_file (fs st') \<noteq> Some (Json [])"
  from r obtain db where "exec e cmd db st = Some (Done out, st')"
    by (auto simp: run_def split: sum.splits)
  with s obtain db' where f: "db_file (fs st') = Some (Json (serialize db'))"
    by (blast dest: exec_saves_Done)
  with ne have "db' \<noteq> []" by auto
  with f show ?thesis by (simp add: load_def load_records_serialize)
qed

subsection \<open>Properties\<close>

text \<open>Every command that saves makes the next run of the program crash: once
  it completes, the directory file holds \<open>{}\<close> for every record's tags, and the
  module-level \<open>db.load()\<close> of the next run throws, whatever command that run
  is given, unless the saved directory was empty.\<close>

theorem saved_directory_crashes_next_run:
  "saves cmd \<Longrightarrow> run e cmd st = Some (Done out, st') \<Longrightarrow> db_file (fs st') \<noteq> Some (Json []) \<Longrightarrow>
   \<exists>err. run e' cmd' st' = Some (Crashed err, st')"
  by (auto simp: run_def dest!: saves_load_fails)

lemma sorted_desc_last_Min:
  "sorted_wrt (\<ge>) xs \<Longrightarrow> xs \<noteq> [] \<Longrightarrow> last xs = Min (set (xs :: int list))"
proof (induction xs)
  case (Cons x xs)
  show ?case
  proof (cases "xs = []")
    case False
    with Cons have "last xs = Min (set xs)" and "\<forall>y\<in>set xs. y \<le> x" by auto
    moreover have "Min (set xs) \<in> set xs" using False by simp
    ultimately have "Min (set xs) \<le> x" by blast
    then have "Min (set (x # xs)) = Min (set xs)" using False by (simp add: min_absorb2)
    with \<open>last xs = Min (set xs)\<close> False show ?thesis by simp
  qed simp
qed simp

theorem saved_directory_crashes_next_run_witness:
  "\<exists>st' err. run sample_env (MarkClean ''in.txt'') sample_state = Some (Done [], st') \<and>
     run sample_env TagsCmd st' = Some (Crashed err, st')"
proof -
  let ?db = "[(''a@x.com'', \<lparr>tags = [''t1''], loc = None, status = Some Dirty,
      broken_flag = False, lastDelivered = None\<rparr>)]"
  let ?st' = "sample_state\<lparr>fs := \<lparr>db_file = Some (Json (serialize ?db)),
      tmp_file = db_file (fs sample_state)\<rparr>\<rparr>"
  have r: "run sample_env (MarkClean ''in.txt'') sample_state = Some (Done [], ?st')"
    by (simp add: run_def action_defs sample_state_def load_def rehydrate_def js_set_of_def js_set_add_def
        readEmailFile_def filterEmail_def search.simps email_regex_defs save_step_def save_def
        sample_env_def)
  have "db_file (fs ?st') \<noteq> Some (Json [])" by (simp add: serialize_def)
  from saved_directory_crashes_next_run [OF _ r this, of sample_env TagsCmd] r show ?thesis by auto
qed

text \<open>C25: An invalid \<open>--status\<close> value stops \<open>query\<close> and \<open>export\<close>
  with exit code 1 before any query, and nothing is changed.\<close>

theorem invalid_status_exits:
  "load (fs st) = Inr db \<Longrightarrow> s \<noteq> [] \<Longrightarrow> s \<notin> set [''clean'', ''dirty'', ''broken''] \<Longrightarrow>
   run e (QueryCmd T l (Some s) c) st = Some (Exited 1, st) \<and>
   run e (ExportCmd T l (Some s) c) st = Some (Exited 1, st)"
  by (simp add: run_def action_defs check_status_def)

theorem invalid_status_exits_witness:
  "run sample_env (QueryCmd [] None (Some ''bounced'') None) sample_state = Some (Exited 1, sample_state) \<and>
   run sample_env (ExportCmd [] None (Some ''bounced'') None) sample_state = Some (Exited 1, sample_state)"
proof (rule invalid_status_exits)
  show "load (fs sample_state) = Inr [(''a@x.com'', \<lparr>tags = [''t1''], loc = None, status = Some Dirty,
      broken_flag = False, lastDelivered = None\<rparr>)]"
    by (simp add: sample_state_def load_def rehydrate_def js_set_of_def js_set_add_def)
qed simp_all

text \<open>C26: \<open>export\<close> writes exactly the addresses \<open>query\<close> prints for the
  same arguments, one per line, and when the directory's addresses are in normal
  form (after \<open>cleanup\<close>) the file reads back as that list.\<close>

theorem export_matches_query:
  "load (fs st) = Inr db \<Longrightarrow> \<forall>k\<in>set (keys db). filterEmail k = Some k \<Longrightarrow>
   check_status s = Some sf \<Longrightarrow>
   run e (QueryCmd T l s c) st
     = Some (Done (map (emailToString (fmt e) db) (keys (run_lookup e T l sf c db))), st) \<and>
   (\<exists>st'. run e (ExportCmd T l s c) st = Some (Done [], st') \<and>
     readEmailFile (texts st' (makeFilename ''export'' (export_input T l s c) (clock e)))
       = keys (run_lookup e T l sf c db))"
proof -
  assume db: "load (fs st) = Inr db" and norm: "\<forall>k\<in>set (keys db). filterEmail k = Some k"
    and sf: "check_status s = Some sf"
  have "\<forall>k\<in>set (keys (run_lookup e T l sf c db)). filterEmail k = Some k"
    using norm keys_run_lookup [of e T l sf c db] by blast
  then have "readEmailFile (Some (saveEmailFile (keys (run_lookup e T l sf c db))))
      = keys (run_lookup e T l sf c db)"
    by (rule readEmailFile_saveEmailFile)
  with db sf show ?thesis by (simp add: run_def action_defs)
qed

theorem export_matches_query_witness:
  "run sample_env (QueryCmd [''t1''] None None None) sample_state
     = Some (Done [''a@x.com:(t1)[en](dirty)''], sample_state) \<and>
   (\<exists>st'. run sample_env (ExportCmd [''t1''] None None None) sample_state = Some (Done [], st') \<and>
     readEmailFile (texts st' (makeFilename ''export'' (export_input [''t1''] None None None)
       (clock sample_env))) = [''a@x.com''])"
proof -
  let ?db = "[(''a@x.com'', \<lparr>tags = [''t1''], loc = None, status = Some Dirty,
      broken_flag = False, lastDelivered = None\<rparr>)]"
  have db: "load (fs sample_state) = Inr ?db"
    by (simp add: sample_state_def load_def rehydrate_def js_set_of_def js_set_add_def)
  have norm: "\<forall>k\<in>set (keys ?db). filterEmail k = Some k"
    by (simp add: filterEmail_def search.simps email_regex_defs)
  have q: "keys (run_lookup sample_env [''t1''] None AnyStatus None ?db) = [''a@x.com'']"
    by (simp add: run_lookup_def lookup_def lookup_entry_def too_recent_def cold_arg_def
        lodash_intersection_def js_set_of_def js_set_add_def)
  have s: "emailToString (fmt sample_env) ?db ''a@x.com'' = ''a@x.com:(t1)[en](dirty)''"
    by (simp add: emailToString_def resolveLocale_def guessEmailLocale_def sample_env_def
        suffix_def)
  from export_matches_query [OF db norm, of None AnyStatus sample_env "[''t1'']" None None] q s
  show ?thesis by (simp add: check_status_def)
qed

text \<open>C27: \<open>--cold-days N\<close> reaches \<open>lookup\<close> as the typed string.  For a
  decimal numeral, with any white space around it, the gate excludes exactly the
  records delivered fewer than \<open>N\<close> whole days ago.  This holds for \<open>N = 0\<close>
  too: the string \<open>''0''\<close> is truthy, so \<open>--cold-days 0\<close> still excludes
  records whose delivery date lies in the future, where the number \<open>0\<close>
  would turn the gate off.\<close>

theorem cold_days_numeral:
  "\<forall>c\<in>set (ws @ ws'). js_space c \<Longrightarrow>
   too_recent now (cold_arg (Some (ws @ dec n @ ws'))) r \<longleftrightarrow>
   (\<exists>t. lastDelivered r = Some t \<and> days_diff now t < int n)"
proof -
  assume ws: "\<forall>c\<in>set (ws @ ws'). js_space c"
  have "dec n \<noteq> []" using dec_digits[of n] by (auto simp: radix_digits_def split: if_splits)
  moreover have "str_to_number (ws @ dec n @ ws') = Fin (of_nat n)"
    using dec_digits[of n] ws by (blast intro: str_to_number_digits)
  ultimately show ?thesis
    by (cases "lastDelivered r") (simp_all add: too_recent_def cold_arg_def)
qed

theorem cold_days_numeral_witness:
  "too_recent 86400 (cold_arg (Some '' 3 '')) \<lparr>tags = [], loc = None, status = Some Dirty,
      broken_flag = False, lastDelivered = Some 0\<rparr> \<and>
   too_recent 0 (cold_arg (Some ''0'')) \<lparr>tags = [], loc = None, status = Some Dirty,
      broken_flag = False, lastDelivered = Some 86400\<rparr> \<and>
   \<not> too_recent 0 (Some (NumVal (Fin 0))) \<lparr>tags = [], loc = None, status = Some Dirty,
      broken_flag = False, lastDelivered = Some 86400\<rparr>"
proof -
  have "dec 3 = ''3''" "dec 0 = ''0''" by code_simp+
  then show ?thesis
    using cold_days_numeral[of "'' ''" "'' ''" 86400 3] cold_days_numeral[of "[]" "[]" 0 0]
    by (simp add: js_space_def days_diff_def too_recent_def)
qed

text \<open>C28: \<open>makeFilename\<close> writes the month where the minutes belong, so two
  exports (or downloads) with the same arguments in the same hour get the same file
  name, and the later one overwrites the earlier.\<close>

theorem makeFilename_same_hour:
  "year t1 = year t2 \<Longrightarrow> month t1 = month t2 \<Longrightarrow> day t1 = day t2 \<Longrightarrow> hour t1 = hour t2 \<Longrightarrow>
   makeFilename base input t1 = makeFilename base input t2"
  by (simp add: makeFilename_def format_ts_def)

theorem makeFilename_same_hour_witness:
  "makeFilename ''export'' [(''tags'', Some (JArr [''t1'']))]
     \<lparr>year = 2024, month = 3, day = 5, hour = 10, minute = 5\<rparr>
   = makeFilename ''export'' [(''tags'', Some (JArr [''t1'']))]
     \<lparr>year = 2024, month = 3, day = 5, hour = 10, minute = 55\<rparr>"
  by (rule makeFilename_same_hour) simp_all

text \<open>C29: \<open>update_delivered\<close> stamps each address with the time of the last
  event listed for it, not the latest one: with the events newest first, as the
  Mailgun events API lists them by default, every address keeps its oldest delivery
  time.\<close>

theorem update_delivered_keeps_oldest:
  "map_of db a = Some r \<Longrightarrow> filter (\<lambda>it. fst it = a) items \<noteq> [] \<Longrightarrow>
   sorted_wrt (\<ge>) (map snd (filter (\<lambda>it. fst it = a) items)) \<Longrightarrow>
   map_of (fst (deliver_events items db)) a
     = Some (r\<lparr>lastDelivered := Some (Min (snd ` set (filter (\<lambda>it. fst it = a) items)))\<rparr>)"
proof -
  assume r: "map_of db a = Some r" and ne: "filter (\<lambda>it. fst it = a) items \<noteq> []"
    and srt: "sorted_wrt (\<ge>) (map snd (filter (\<lambda>it. fst it = a) items))"
  have "last (map snd (filter (\<lambda>it. fst it = a) items))
      = Min (set (map snd (filter (\<lambda>it. fst it = a) items)))"
    using srt ne by (intro sorted_desc_last_Min) simp_all
  with ne have "snd (last (filter (\<lambda>it. fst it = a) items))
      = Min (snd ` set (filter (\<lambda>it. fst it = a) items))"
    by (simp add: last_map)
  with r ne show ?thesis by (auto simp: deliver_events_map split: list.splits)
qed

theorem update_delivered_keeps_oldest_witness:
  "map_of (fst (deliver_events [(''a@x.com'', 300), (''a@x.com'', 100)]
      [(''a@x.com'', \<lparr>tags = [], loc = None, status = Some Clean, broken_flag = False,
         lastDelivered = None\<rparr>)])) ''a@x.com''
   = Some \<lparr>tags = [], loc = None, status = Some Clean, broken_flag = False, lastDelivered = Some 100\<rparr>"
  using update_delivered_keeps_oldest [of "[(''a@x.com'', \<lparr>tags = [], loc = None, status = Some Clean,
      broken_flag = False, lastDelivered = None\<rparr>)]" "''a@x.com''" _ "[(''a@x.com'', 300), (''a@x.com'', 100)]"]
  by simp

end
