(* ===== verification/Legacy.thy ===== *)
theory Legacy
  imports Commands
begin

text \<open>
  The earlier version of the program in \<open>src/src/cli.js\<close>: the same directory
  with a record of \<open>tags\<close>, \<open>locale\<close> and an optional \<open>broken\<close> flag and no
  status (lines 17--23), \<open>load\<close> without the status migration (43--53),
  \<open>lookup\<close> with only the tag and locale gates (62--88), \<open>insert\<close> creating
  records without a status (111--154), \<open>cleanup\<close> (156--177), and the four
  commands \<open>insert\<close>, \<open>query\<close>, \<open>tags\<close> and \<open>cleanup\<close> (184--264).
  Its records are the \<open>email_rec\<close> of the later version with no status.
  \<open>EmailDB.filter\<close> (28--34) is \<open>filterEmail\<close>, \<open>save\<close> (55--60) and
  \<open>allTags\<close> (90--102) are the later version's, character for character.

  The results relate the two versions: the later \<open>lookup\<close> and \<open>insert\<close> agree
  with the earlier ones except for statuses, and the earlier program already lost
  its directory on save, and does so on a plain \<open>query\<close>, which saves too.
\<close>

subsection \<open>EmailDB of cli.js\<close>

text \<open>\<open>load()\<close>: \<open>rec.tags = new Set(rec.tags)\<close>, nothing else.\<close>

definition rehydrate_cli :: "email \<Rightarrow> raw_rec \<Rightarrow> error + email_rec" where
  "rehydrate_cli email rr =
     (let mk = (\<lambda>ts. \<lparr>tags = ts, loc = r_locale rr, status = r_status rr, broken_flag = r_broken rr,
                      lastDelivered = r_lastDelivered rr\<rparr>)
      in case r_tags rr of
           JArray ts \<Rightarrow> Inr (mk (js_set_of ts))
         | JAbsent \<Rightarrow> Inr (mk [])
         | JEmptyObject \<Rightarrow> Inl (NotIterable email))"

fun load_records_cli :: "raw_db \<Rightarrow> error + db" where
  "load_records_cli [] = Inr []"
| "load_records_cli ((e, rr) # rs) =
     (case rehydrate_cli e rr of
        Inl err \<Rightarrow> Inl err
      | Inr r \<Rightarrow> (case load_records_cli rs of Inl err \<Rightarrow> Inl err | Inr db \<Rightarrow> Inr ((e, r) # db)))"

definition load_cli :: "fs_state \<Rightarrow> error + db" where
  "load_cli files =
     (case db_file files of
        None \<Rightarrow> Inr []
      | Some Unparsable \<Rightarrow> Inr []
      | Some (Json raw) \<Rightarrow> load_records_cli raw)"

text \<open>The loop body of \<open>lookup({tags, locale})\<close>: the tag gate, then the locale
  gate.\<close>

definition lookup_entry_cli ::
  "tag list \<Rightarrow> locale_t option \<Rightarrow> email \<Rightarrow> email_rec \<Rightarrow> (tag list \<times> locale_t) option" where
  "lookup_entry_cli T l email r =
     (if length (lodash_intersection (tags r) T) < length T then None
      else (let calculated = resolveLocale email r in
            if l \<noteq> None \<and> Some calculated \<noteq> l then None else Some (tags r, calculated)))"

definition lookup_cli :: "tag list \<Rightarrow> locale_t option \<Rightarrow> db \<Rightarrow> (email \<times> (tag list \<times> locale_t)) list" where
  "lookup_cli T l db =
     fold (\<lambda>(e, r) res. case lookup_entry_cli T l e r of
                          None \<Rightarrow> res
                        | Some v \<Rightarrow> AList.update e v res) db []"

text \<open>\<open>insert\<close>: the later version's loop body, except that a new record is
  \<open>{ tags: new Set() }\<close>, with no status.\<close>

definition new_rec_cli :: email_rec where
  "new_rec_cli = \<lparr>tags = [], loc = None, status = None, broken_flag = False, lastDelivered = None\<rparr>"

definition insert_line_cli ::
  "tag list \<Rightarrow> locale_t option \<Rightarrow> db \<times> nat \<times> nat \<Rightarrow> string \<Rightarrow> db \<times> nat \<times> nat" where
  "insert_line_cli T l st line =
     (let (db, ins, upd) = st in
      case filterEmail line of
        None \<Rightarrow> st
      | Some email \<Rightarrow>
          if email = [] then st
          else
            let (db1, ins1, res) =
                  (case map_of db email of
                     None \<Rightarrow> (AList.update email new_rec_cli db, Suc ins, new_rec_cli)
                   | Some r \<Rightarrow> (db, ins, r));
                (tags1, addedTags) = add_tags T (tags res, False);
                tags2 = js_set_of (tags1 @ T);
                upd1 = (if addedTags \<or> (js_truthy l \<and> l \<noteq> loc res) then Suc upd else upd);
                res1 = res\<lparr>tags := tags2, loc := (if js_truthy l then l else loc res)\<rparr>
            in (AList.update email res1 db1, ins1, upd1))"

definition insert_cli :: "tag list \<Rightarrow> locale_t option \<Rightarrow> string \<Rightarrow> db \<Rightarrow> db \<times> nat \<times> nat" where
  "insert_cli T l contents db = foldl (insert_line_cli T l) (db, 0, 0) (split_on CHR 0x0A contents)"

text \<open>\<open>cleanup()\<close>: the same loop body as the later version.\<close>

definition cleanup_cli :: "db \<Rightarrow> db \<times> nat \<times> nat" where
  "cleanup_cli db = foldl cleanup_step (db, 0, 0) (keys db)"

subsection \<open>The program of cli.js\<close>

datatype command_cli =
    InsertCli string "tag list" "locale_t option"
  | QueryCli "tag list" "locale_t option"
  | TagsCli
  | CleanupCli

text \<open>The \<open>query\<close> action prints one line per result and then saves the
  directory.\<close>

fun exec_cli :: "env \<Rightarrow> command_cli \<Rightarrow> db \<Rightarrow> cli_state \<Rightarrow> outcome \<times> cli_state" where
  "exec_cli e (InsertCli file T l) db st =
     (case texts st file of
        None \<Rightarrow> (Aborted, st)
      | Some contents \<Rightarrow> save_step e (fst (insert_cli (js_set_of T) l contents db)) st)"
| "exec_cli e (QueryCli T l) db st =
     (let res = lookup_cli (js_set_of T) l db;
          out = map (\<lambda>(email, ts, loc). email @ '': ('' @ join_with CHR '','' ts @ ''), '' @ loc) res
      in case save_step e db st of
           (Done _, st') \<Rightarrow> (Done out, st')
         | r \<Rightarrow> r)"
| "exec_cli e TagsCli db st =
     (Done (map (\<lambda>(t, n). t @ '': '' @ dec n @ '' emails'') (allTags db)), st)"
| "exec_cli e CleanupCli db st = save_step e (fst (cleanup_cli db)) st"

definition run_cli :: "env \<Rightarrow> command_cli \<Rightarrow> cli_state \<Rightarrow> outcome \<times> cli_state" where
  "run_cli e cmd st = (case load_cli (fs st) of Inl err \<Rightarrow> (Crashed err, st) | Inr db \<Rightarrow> exec_cli e cmd db st)"

text \<open>The later version's view of a directory built by the earlier one: the
  records created since the addresses \<open>K\<close> existed get the status \<open>dirty\<close>.\<close>

definition new_dirty :: "email set \<Rightarrow> db \<Rightarrow> db" where
  "new_dirty K db = map (\<lambda>(e, r). (e, if e \<in> K then r else r\<lparr>status := Some Dirty\<rparr>)) db"

subsection \<open>Lemmas\<close>

lemma map_of_new_dirty:
  "map_of (new_dirty K db) e = map_option (\<lambda>r. if e \<in> K then r else r\<lparr>status := Some Dirty\<rparr>) (map_of db e)"
  by (induction db) (auto simp: new_dirty_def)

lemma new_dirty_update:
  "new_dirty K (AList.update e v db) =
     AList.update e (if e \<in> K then v else v\<lparr>status := Some Dirty\<rparr>) (new_dirty K db)"
  by (induction db) (auto simp: new_dirty_def)

lemma keys_new_dirty [simp]: "keys (new_dirty K db) = keys db"
  by (induction db) (auto simp: new_dirty_def)

lemma add_tags_status: "add_tags T (tags (r\<lparr>status := s\<rparr>), b) = add_tags T (tags r, b)"
  by simp

lemma insert_line_new_dirty:
  "K \<subseteq> set (keys db) \<Longrightarrow>
   insert_line T l (new_dirty K db, i, u) line =
     (new_dirty K (fst (insert_line_cli T l (db, i, u) line)), snd (insert_line_cli T l (db, i, u) line))
   \<and> set (keys db) \<subseteq> set (keys (fst (insert_line_cli T l (db, i, u) line)))"
proof (cases "filterEmail line")
  case None
  then show ?thesis by (simp add: insert_line_def insert_line_cli_def)
next
  case (Some e)
  note fe = this
  assume K: "K \<subseteq> set (keys db)"
  show ?thesis
  proof (cases "map_of db e")
    case None
    with K have "e \<notin> K" by (auto simp: map_of_eq_None_iff)
    with None fe show ?thesis
      by (auto simp: insert_line_def insert_line_cli_def Let_def map_of_new_dirty new_dirty_update
          new_rec_def new_rec_cli_def dom_update split: prod.splits)
  next
    case (Some r)
    with fe show ?thesis
      by (cases r) (auto simp: insert_line_def insert_line_cli_def Let_def map_of_new_dirty new_dirty_update
          dom_update split: prod.splits)
  qed
qed

lemma insert_lines_new_dirty:
  "K \<subseteq> set (keys db) \<Longrightarrow>
   foldl (insert_line T l) (new_dirty K db, i, u) lines =
     (new_dirty K (fst (foldl (insert_line_cli T l) (db, i, u) lines)),
      snd (foldl (insert_line_cli T l) (db, i, u) lines))"
proof (induction lines arbitrary: db i u)
  case (Cons line lines)
  obtain db' i' u' where st: "insert_line_cli T l (db, i, u) line = (db', i', u')"
    by (cases "insert_line_cli T l (db, i, u) line")
  from insert_line_new_dirty [OF Cons.prems, of T l i u line] st
  have "insert_line T l (new_dirty K db, i, u) line = (new_dirty K db', i', u')"
    and "K \<subseteq> set (keys db')" using Cons.prems by auto
  with Cons.IH st show ?case by simp
qed simp

lemma load_records_cli_serialize:
  "db \<noteq> [] \<Longrightarrow> load_records_cli (serialize db) = Inl (NotIterable (fst (hd db)))"
  by (cases db) (auto simp: serialize_def serialize_rec_def rehydrate_cli_def Let_def)

lemma save_step_ok:
  "write_ok e \<Longrightarrow> \<exists>st'. save_step e db st = (Done [], st') \<and> db_file (fs st') = Some (Json (serialize db))"
  by (auto simp: save_step_def save_def Let_def split: option.splits)

subsection \<open>Properties\<close>

text \<open>C30: In \<open>cli.js\<close> even a read-only \<open>query\<close> destroys the directory: the
  action saves, the file then holds \<open>{}\<close> for every record's tags, and the next
  run of the program crashes in \<open>load\<close>.\<close>

theorem query_cli_destroys_directory:
  "load_cli (fs st) = Inr db \<Longrightarrow> db \<noteq> [] \<Longrightarrow> write_ok e \<Longrightarrow>
   \<exists>out st' err. run_cli e (QueryCli T l) st = (Done out, st') \<and> run_cli e' cmd' st' = (Crashed err, st')"
proof -
  assume db: "load_cli (fs st) = Inr db" and ne: "db \<noteq> []" and ok: "write_ok e"
  from save_step_ok [OF ok, of db st] obtain st' where
    s: "save_step e db st = (Done [], st')" and f: "db_file (fs st') = Some (Json (serialize db))"
    by blast
  with db ne show ?thesis by (simp add: run_cli_def Let_def load_cli_def load_records_cli_serialize)
qed

theorem query_cli_destroys_directory_witness:
  "\<exists>out st' err. run_cli sample_env (QueryCli [] None) sample_state = (Done out, st') \<and>
     run_cli sample_env TagsCli st' = (Crashed err, st')"
proof (rule query_cli_destroys_directory)
  show "load_cli (fs sample_state) = Inr [(''a@x.com'', \<lparr>tags = [''t1''], loc = None,
      status = Some Dirty, broken_flag = False, lastDelivered = None\<rparr>)]"
    by (simp add: sample_state_def load_cli_def rehydrate_cli_def js_set_of_def js_set_add_def)
qed (simp_all add: sample_env_def)

text \<open>C31: On a directory with no broken record, the later \<open>lookup\<close> with no
  status and no \<open>coldDays\<close> returns exactly what the earlier one returns.\<close>

theorem lookup_cli_refines:
  "\<forall>(e, r)\<in>set db. status r \<noteq> Some Broken \<Longrightarrow>
   lookup now \<lparr>q_tags = T, q_locale = l, q_status = None, q_coldDays = None\<rparr> db = lookup_cli T l db"
  unfolding lookup_def lookup_cli_def
  by (rule fold_cong) (auto simp: lookup_entry_def lookup_entry_cli_def too_recent_def)

theorem lookup_cli_refines_witness:
  "lookup 0 \<lparr>q_tags = [''t1''], q_locale = None, q_status = None, q_coldDays = None\<rparr>
     [(''a@x.com'', new_rec_cli\<lparr>tags := [''t1'']\<rparr>)]
   = lookup_cli [''t1''] None [(''a@x.com'', new_rec_cli\<lparr>tags := [''t1'']\<rparr>)]"
  by (rule lookup_cli_refines) (simp add: new_rec_cli_def)

text \<open>C32: The later \<open>insert\<close> does what the earlier one did, with the same
  counts, except that every record it creates has the status \<open>dirty\<close>.\<close>

theorem insert_cli_refines:
  "insert_db T l c db = (new_dirty (set (keys db)) (fst (insert_cli T l c db)), snd (insert_cli T l c db))"
proof -
  have "new_dirty (set (keys db)) db = db" unfolding new_dirty_def by (rule map_idI) (force simp: image_iff)
  then show ?thesis
    using insert_lines_new_dirty [of "set (keys db)" db T l 0 0 "split_on CHR 0x0A c"]
    by (simp add: insert_db_def insert_cli_def)
qed

end
