(* ===== verification/Flags.thy ===== *)
theory Flags
  imports Query Pagination
begin

text \<open>
  The intermediate version in \<open>src/unnamed/part_002\<close>, before the status enum:
  a record carries the boolean flags \<open>broken\<close> and \<open>clean\<close> (lines 20--25);
  \<open>lookup\<close> filters with \<open>cleanOnly\<close> and \<open>dirtyOnly\<close> (66--105);
  \<open>markAsBroken\<close> and \<open>markAsClean\<close> set the flags (200--221); the
  \<open>export\<close> action (283--318) and the Mailgun actions \<open>download_broken\<close>
  (365--384) and \<open>download_clean\<close> (386--400) use them.  Its \<open>filter\<close>,
  \<open>insert\<close>, \<open>cleanup\<close>, \<open>allTags\<close> and \<open>pageAll\<close> are the code of the
  other versions.

  The later version's \<open>load\<close> migrates these records to the status enum
  (\<open>rehydrate\<close>); \<open>migrate\<close> is that migration on the in-memory record, and
  \<open>lookup_flags_migrate\<close> shows which queries it preserves.
\<close>

record flag_rec =
  f_tags :: "tag list"
  f_locale :: "locale_t option"
  f_broken :: bool
  f_clean :: bool

type_synonym flag_db = "(email \<times> flag_rec) list"

text \<open>\<open>load()\<close>: \<open>rec.tags = new Set(rec.tags)\<close>; the flags are read as they
  are.\<close>

definition rehydrate_flags :: "email \<Rightarrow> raw_rec \<Rightarrow> error + flag_rec" where
  "rehydrate_flags email rr =
     (let mk = (\<lambda>ts. \<lparr>f_tags = ts, f_locale = r_locale rr, f_broken = r_broken rr, f_clean = r_clean rr\<rparr>)
      in case r_tags rr of
           JArray ts \<Rightarrow> Inr (mk (js_set_of ts))
         | JAbsent \<Rightarrow> Inr (mk [])
         | JEmptyObject \<Rightarrow> Inl (NotIterable email))"

fun load_records_flags :: "raw_db \<Rightarrow> error + flag_db" where
  "load_records_flags [] = Inr []"
| "load_records_flags ((e, rr) # rs) =
     (case rehydrate_flags e rr of
        Inl err \<Rightarrow> Inl err
      | Inr r \<Rightarrow> (case load_records_flags rs of Inl err \<Rightarrow> Inl err | Inr db \<Rightarrow> Inr ((e, r) # db)))"

definition load_flags :: "fs_state \<Rightarrow> error + flag_db" where
  "load_flags files =
     (case db_file files of
        None \<Rightarrow> Inr []
      | Some Unparsable \<Rightarrow> Inr []
      | Some (Json raw) \<Rightarrow> load_records_flags raw)"

text \<open>The loop body of \<open>lookup({tags, locale, cleanOnly, dirtyOnly})\<close>.  The
  locale of a result is resolved as in the later version.\<close>

definition lookup_entry_flags ::
  "bool \<Rightarrow> bool \<Rightarrow> tag list \<Rightarrow> locale_t option \<Rightarrow> email \<Rightarrow> flag_rec \<Rightarrow> (tag list \<times> locale_t) option" where
  "lookup_entry_flags cleanOnly dirtyOnly T l email r =
     (if f_broken r then None
      else if \<not> f_clean r \<and> cleanOnly then None
      else if f_clean r \<and> dirtyOnly then None
      else if length (lodash_intersection (f_tags r) T) < length T then None
      else (let calculated = (case f_locale r of Some x \<Rightarrow> if x \<noteq> [] then x else guessEmailLocale email
                                              | None \<Rightarrow> guessEmailLocale email) in
            if l \<noteq> None \<and> Some calculated \<noteq> l then None else Some (f_tags r, calculated)))"

definition lookup_flags ::
  "bool \<Rightarrow> bool \<Rightarrow> tag list \<Rightarrow> locale_t option \<Rightarrow> flag_db \<Rightarrow> (email \<times> (tag list \<times> locale_t)) list" where
  "lookup_flags cleanOnly dirtyOnly T l db =
     fold (\<lambda>(e, r) res. case lookup_entry_flags cleanOnly dirtyOnly T l e r of
                          None \<Rightarrow> res
                        | Some v \<Rightarrow> AList.update e v res) db []"

text \<open>\<open>markAsBroken(emails)\<close> and \<open>markAsClean(emails)\<close>: set the flag on the
  listed records that do not have it, and count them.\<close>

fun markAsBroken :: "email list \<Rightarrow> flag_db \<Rightarrow> flag_db \<times> nat" where
  "markAsBroken es [] = ([], 0)"
| "markAsBroken es ((e, r) # db) =
     (let (db', n) = markAsBroken es db in
      if \<not> f_broken r \<and> e \<in> set es then ((e, r\<lparr>f_broken := True\<rparr>) # db', Suc n) else ((e, r) # db', n))"

fun markAsClean :: "email list \<Rightarrow> flag_db \<Rightarrow> flag_db \<times> nat" where
  "markAsClean es [] = ([], 0)"
| "markAsClean es ((e, r) # db) =
     (let (db', n) = markAsClean es db in
      if \<not> f_clean r \<and> e \<in> set es then ((e, r\<lparr>f_clean := True\<rparr>) # db', Suc n) else ((e, r) # db', n))"

text \<open>The \<open>export\<close> action: the file name records \<open>--clean-only\<close> and
  \<open>--dirty-only\<close>, but the query it runs is given only the tags and the locale.
  \<open>ts\<close> is \<open>moment().format('YYYY-MM-DD:HH.MM')\<close>.\<close>

definition export_flags ::
  "string \<Rightarrow> tag list \<Rightarrow> locale_t option \<Rightarrow> bool \<Rightarrow> bool \<Rightarrow> flag_db \<Rightarrow> string \<times> string" where
  "export_flags ts T l cleanOnly dirtyOnly db =
     (let result = lookup_flags False False (js_set_of T) l db;
          filename = ''export/'' @ (if T \<noteq> [] then join_with CHR '','' T else [])
                     @ (case l of Some x \<Rightarrow> if x \<noteq> [] then ''-'' @ x else [] | None \<Rightarrow> [])
                     @ (if cleanOnly then ''-clean'' else []) @ (if dirtyOnly then ''-dirty'' else [])
                     @ ''@'' @ ts @ ''.txt''
      in (filename, join_with CHR 0x0A (keys result)))"

text \<open>\<open>download_broken\<close> and \<open>download_clean\<close> after their drains: mark the
  listed addresses (\<open>_.uniq\<close> of the delivered recipients for the second).\<close>

definition download_broken_flags :: "email list \<Rightarrow> flag_db \<Rightarrow> flag_db \<times> nat" where
  "download_broken_flags emails db = markAsBroken emails db"

definition download_clean_flags :: "(email \<times> timestamp) list \<Rightarrow> flag_db \<Rightarrow> flag_db \<times> nat" where
  "download_clean_flags items db = markAsClean (js_set_of (map fst items)) db"

text \<open>The status migration of the later \<open>load\<close> on a record of this version.\<close>

definition migrate_rec :: "flag_rec \<Rightarrow> email_rec" where
  "migrate_rec r =
     \<lparr>tags = f_tags r, loc = f_locale r,
      status = (if f_broken r then Some Broken else if f_clean r then Some Clean else None),
      broken_flag = f_broken r, lastDelivered = None\<rparr>"

definition migrate :: "flag_db \<Rightarrow> db" where
  "migrate db = map (\<lambda>(e, r). (e, migrate_rec r)) db"

subsection \<open>Lemmas\<close>

lemma lookup_entry_flags_migrate:
  "lookup_entry_flags True False T l e r =
     lookup_entry now \<lparr>q_tags = T, q_locale = l, q_status = Some Clean, q_coldDays = None\<rparr> e (migrate_rec r)"
  "lookup_entry_flags False False T l e r =
     lookup_entry now \<lparr>q_tags = T, q_locale = l, q_status = None, q_coldDays = None\<rparr> e (migrate_rec r)"
  by (auto simp: lookup_entry_flags_def lookup_entry_def migrate_rec_def too_recent_def resolveLocale_def
      Let_def split: option.splits)

text \<open>The \<open>export\<close> action writes the same addresses whatever its
  \<open>--clean-only\<close> and \<open>--dirty-only\<close> flags, which only change the file name.\<close>

lemma export_flags_ignores_filters:
  "snd (export_flags ts T l cleanOnly dirtyOnly db) = snd (export_flags ts T l False False db)"
  by (simp add: export_flags_def Let_def)

text \<open>A record with neither flag is returned by a \<open>--dirty-only\<close> query of this
  version, and by no \<open>status=dirty\<close> query after the migration.\<close>

lemma migrate_loses_dirty:
  "lookup_flags False True [] None [(''a@x.com'', \<lparr>f_tags = [], f_locale = None, f_broken = False,
      f_clean = False\<rparr>)] = [(''a@x.com'', ([], ''en''))] \<and>
   lookup now \<lparr>q_tags = [], q_locale = None, q_status = Some Dirty, q_coldDays = None\<rparr>
     (migrate [(''a@x.com'', \<lparr>f_tags = [], f_locale = None, f_broken = False, f_clean = False\<rparr>)]) = []"
  by (simp add: lookup_flags_def lookup_entry_flags_def lookup_def lookup_entry_def migrate_def
      migrate_rec_def lodash_intersection_def js_set_of_def guessEmailLocale_def suffix_def)

subsection \<open>Properties\<close>

text \<open>C33: The status migration preserves the queries of this version that the
  later one can express: \<open>--clean-only\<close> is \<open>status=clean\<close>, and the default
  query (no flag) is the default query, on the migrated directory.\<close>

theorem lookup_flags_migrate:
  "lookup_flags True False T l db =
     lookup now \<lparr>q_tags = T, q_locale = l, q_status = Some Clean, q_coldDays = None\<rparr> (migrate db) \<and>
   lookup_flags False False T l db =
     lookup now \<lparr>q_tags = T, q_locale = l, q_status = None, q_coldDays = None\<rparr> (migrate db)"
  unfolding lookup_flags_def lookup_def migrate_def fold_map
  by (intro conjI fold_cong) (auto simp: lookup_entry_flags_migrate [symmetric])

end
