(* ===== verification/First_Version.thy ===== *)
theory First_Version
  imports Commands
begin

text \<open>
  The first version of the program, the second half of
  \<open>src/unnamed/part_000\<close> (lines 520--755).  Its \<open>load\<close> keeps the parsed JSON
  as it is (lines 562--568): a record's \<open>tags\<close> stays the array of the file, or
  \<open>{}\<close>, or absent, until \<open>insert\<close> replaces it by a \<open>Set\<close>.  The four
  values behave differently: \<open>Array.from\<close> accepts an array, a \<open>Set\<close> and
  \<open>{}\<close> (which gives \<open>[]\<close>) and throws on \<open>undefined\<close>; spreading and
  \<open>for ... of\<close> accept only an array or a \<open>Set\<close>; \<open>JSON.stringify\<close> writes an
  array as an array and a \<open>Set\<close> as \<open>{}\<close>.  The other fields of a record are
  never touched and are kept as parsed (\<open>v_rest\<close>).

  \<open>insert(filename, tags)\<close> (626--650) takes no locale and counts every existing
  address as updated; \<open>lookup\<close> (577--603) has the tag and locale gates;
  \<open>allTags\<close> (605--617); \<open>cleanup\<close> (652--673) is the later loop body; the
  commands \<open>insert\<close>, \<open>query\<close> (which saves), \<open>tags\<close> and \<open>cleanup\<close>
  (696--745).  A \<open>TypeError\<close> is \<open>Inl (NotIterable e)\<close> for the record at
  \<open>e\<close>.
\<close>

datatype tags_v1 = TArr "tag list" | TSet "tag list" | TObj | TUndef

record rec_v1 =
  v_tags :: tags_v1
  v_rest :: raw_rec

type_synonym db_v1 = "(email \<times> rec_v1) list"

text \<open>\<open>Array.from(rec.tags)\<close>, and the iteration of \<open>[...rec.tags]\<close> and
  \<open>for (const tag of rec.tags)\<close>; \<open>None\<close> is the \<open>TypeError\<close>.\<close>

fun array_from :: "tags_v1 \<Rightarrow> tag list option" where
  "array_from (TArr ts) = Some ts"
| "array_from (TSet ts) = Some ts"
| "array_from TObj = Some []"
| "array_from TUndef = None"

fun iterate_tags :: "tags_v1 \<Rightarrow> tag list option" where
  "iterate_tags (TArr ts) = Some ts"
| "iterate_tags (TSet ts) = Some ts"
| "iterate_tags TObj = None"
| "iterate_tags TUndef = None"

fun json_of_tags :: "tags_v1 \<Rightarrow> json_tags" where
  "json_of_tags (TArr ts) = JArray ts"
| "json_of_tags (TSet ts) = JEmptyObject"
| "json_of_tags TObj = JEmptyObject"
| "json_of_tags TUndef = JAbsent"

fun tags_of_json :: "json_tags \<Rightarrow> tags_v1" where
  "tags_of_json (JArray ts) = TArr ts"
| "tags_of_json JEmptyObject = TObj"
| "tags_of_json JAbsent = TUndef"

text \<open>\<open>load()\<close>: \<open>this.db = JSON.parse(...)\<close>, or \<open>{}\<close>.\<close>

definition load_v1 :: "fs_state \<Rightarrow> db_v1" where
  "load_v1 files =
     (case db_file files of
        Some (Json raw) \<Rightarrow> map (\<lambda>(e, rr). (e, \<lparr>v_tags = tags_of_json (r_tags rr), v_rest = rr\<rparr>)) raw
      | _ \<Rightarrow> [])"

definition serialize_v1 :: "db_v1 \<Rightarrow> raw_db" where
  "serialize_v1 db = map (\<lambda>(e, r). (e, (v_rest r)\<lparr>r_tags := json_of_tags (v_tags r)\<rparr>)) db"

definition save_v1 :: "bool \<Rightarrow> db_v1 \<Rightarrow> fs_state \<Rightarrow> error option \<times> fs_state" where
  "save_v1 ok db files =
     (let fs1 = (case db_file files of
                   None \<Rightarrow> files
                 | Some f \<Rightarrow> files\<lparr>tmp_file := Some f, db_file := None\<rparr>)
      in if ok then (None, fs1\<lparr>db_file := Some (Json (serialize_v1 db))\<rparr>)
         else (Some WriteFailed, fs1))"

text \<open>The loop of \<open>lookup({tags, locale})\<close> over the records in key order.\<close>

fun lookup_v1 ::
  "tag list \<Rightarrow> locale_t option \<Rightarrow> db_v1 \<Rightarrow> (email \<times> (tag list \<times> locale_t)) list
   \<Rightarrow> error + (email \<times> (tag list \<times> locale_t)) list" where
  "lookup_v1 T l [] res = Inr res"
| "lookup_v1 T l ((e, r) # db) res =
     (case array_from (v_tags r) of
        None \<Rightarrow> Inl (NotIterable e)
      | Some recTags \<Rightarrow>
          if length (lodash_intersection recTags T) < length T then lookup_v1 T l db res
          else (let calculated = (case r_locale (v_rest r) of
                                    Some x \<Rightarrow> if x \<noteq> [] then x else guessEmailLocale e
                                  | None \<Rightarrow> guessEmailLocale e)
                in if l \<noteq> None \<and> Some calculated \<noteq> l then lookup_v1 T l db res
                   else lookup_v1 T l db (AList.update e (js_set_of recTags, calculated) res)))"

text \<open>\<open>allTags()\<close>: \<open>for (const tag of rec.tags)\<close>, so an array with a repeated
  tag counts it twice.\<close>

fun allTags_v1 :: "db_v1 \<Rightarrow> (tag \<times> nat) list \<Rightarrow> error + (tag \<times> nat) list" where
  "allTags_v1 [] res = Inr res"
| "allTags_v1 ((e, r) # db) res =
     (case iterate_tags (v_tags r) of
        None \<Rightarrow> Inl (NotIterable e)
      | Some ts \<Rightarrow> allTags_v1 db (foldl bump_tag res ts))"

text \<open>The loop body of \<open>insert(filename, tags)\<close>: a new address gets
  \<open>{ tags: new Set() }\<close> and counts as inserted, any other as updated; then
  \<open>res.tags = new Set([...res.tags, ...tags])\<close>.\<close>

definition empty_raw :: raw_rec where
  "empty_raw = \<lparr>r_tags = JAbsent, r_locale = None, r_status = None, r_broken = False, r_clean = False,
     r_lastDelivered = None\<rparr>"

definition insert_line_v1 ::
  "tag list \<Rightarrow> db_v1 \<times> nat \<times> nat \<Rightarrow> string \<Rightarrow> error + db_v1 \<times> nat \<times> nat" where
  "insert_line_v1 T st line =
     (let (db, ins, upd) = st in
      case filterEmail line of
        None \<Rightarrow> Inr st
      | Some email \<Rightarrow>
          if email = [] then Inr st
          else
            let (db1, ins1, upd1, res) =
                  (case map_of db email of
                     None \<Rightarrow> (AList.update email \<lparr>v_tags = TSet [], v_rest = empty_raw\<rparr> db, Suc ins, upd,
                              \<lparr>v_tags = TSet [], v_rest = empty_raw\<rparr>)
                   | Some r \<Rightarrow> (db, ins, Suc upd, r))
            in case iterate_tags (v_tags res) of
                 None \<Rightarrow> Inl (NotIterable email)
               | Some ts \<Rightarrow> Inr (AList.update email (res\<lparr>v_tags := TSet (js_set_of (ts @ T))\<rparr>) db1, ins1, upd1))"

fun insert_lines_v1 :: "tag list \<Rightarrow> db_v1 \<times> nat \<times> nat \<Rightarrow> string list \<Rightarrow> error + db_v1 \<times> nat \<times> nat" where
  "insert_lines_v1 T st [] = Inr st"
| "insert_lines_v1 T st (line # lines) =
     (case insert_line_v1 T st line of Inl err \<Rightarrow> Inl err | Inr st' \<Rightarrow> insert_lines_v1 T st' lines)"

definition insert_v1 :: "tag list \<Rightarrow> string \<Rightarrow> db_v1 \<Rightarrow> error + db_v1 \<times> nat \<times> nat" where
  "insert_v1 T contents db = insert_lines_v1 T (db, 0, 0) (split_on CHR 0x0A contents)"

definition cleanup_v1 :: "db_v1 \<Rightarrow> db_v1 \<times> nat \<times> nat" where
  "cleanup_v1 db = cleanup_loop (keys db) (db, 0, 0)"

subsection \<open>The program\<close>

datatype command_v1 =
    InsertV1 string "tag list"
  | QueryV1 "tag list" "locale_t option"
  | TagsV1
  | CleanupV1

definition save_step_v1 :: "env \<Rightarrow> db_v1 \<Rightarrow> cli_state \<Rightarrow> outcome \<times> cli_state" where
  "save_step_v1 e db st =
     (case save_v1 (write_ok e) db (fs st) of
        (None, fs') \<Rightarrow> (Done [], st\<lparr>fs := fs'\<rparr>)
      | (Some err, fs') \<Rightarrow> (Aborted, st\<lparr>fs := fs'\<rparr>))"

text \<open>A \<open>TypeError\<close> inside an action goes to the \<open>uncaughtException\<close> handler:
  the action stops before it saves.\<close>

fun exec_v1 :: "env \<Rightarrow> command_v1 \<Rightarrow> db_v1 \<Rightarrow> cli_state \<Rightarrow> outcome \<times> cli_state" where
  "exec_v1 e (InsertV1 file T) db st =
     (case texts st file of
        None \<Rightarrow> (Aborted, st)
      | Some contents \<Rightarrow>
          (case insert_v1 (js_set_of T) contents db of
             Inl err \<Rightarrow> (Aborted, st)
           | Inr (db', ins, upd) \<Rightarrow> save_step_v1 e db' st))"
| "exec_v1 e (QueryV1 T l) db st =
     (case lookup_v1 (js_set_of T) l db [] of
        Inl err \<Rightarrow> (Aborted, st)
      | Inr res \<Rightarrow>
          (let out = map (\<lambda>(email, ts, loc). email @ '': ('' @ join_with CHR '','' ts @ ''), '' @ loc) res
           in case save_step_v1 e db st of (Done _, st') \<Rightarrow> (Done out, st') | r \<Rightarrow> r))"
| "exec_v1 e TagsV1 db st =
     (case allTags_v1 db [] of
        Inl err \<Rightarrow> (Aborted, st)
      | Inr counts \<Rightarrow> (Done (map (\<lambda>(t, n). t @ '': '' @ dec n @ '' emails'') counts), st))"
| "exec_v1 e CleanupV1 db st = save_step_v1 e (fst (cleanup_v1 db)) st"

definition run_v1 :: "env \<Rightarrow> command_v1 \<Rightarrow> cli_state \<Rightarrow> outcome \<times> cli_state" where
  "run_v1 e cmd st = exec_v1 e cmd (load_v1 (fs st)) st"

text \<open>The runtime type the code expects of every record's \<open>tags\<close>: an
  iterable value, an array or a \<open>Set\<close>.\<close>

definition iterable_v1 :: "db_v1 \<Rightarrow> bool" where
  "iterable_v1 db \<longleftrightarrow> list_all (\<lambda>(e, r). iterate_tags (v_tags r) \<noteq> None) db"

subsection \<open>Lemmas\<close>

lemma insert_line_v1_Some:
  "filterEmail line = Some email \<Longrightarrow>
   insert_line_v1 T (db, i, u) line =
     (let r = (case map_of db email of None \<Rightarrow> \<lparr>v_tags = TSet [], v_rest = empty_raw\<rparr> | Some r \<Rightarrow> r)
      in case iterate_tags (v_tags r) of
           None \<Rightarrow> Inl (NotIterable email)
         | Some ts \<Rightarrow> Inr (AList.update email (r\<lparr>v_tags := TSet (js_set_of (ts @ T))\<rparr>) db,
                          if map_of db email = None then Suc i else i,
                          if map_of db email = None then u else Suc u))"
  by (auto simp: insert_line_v1_def Let_def dest: filterEmail_nonempty split: option.splits)

lemma iterable_v1_map_of: "iterable_v1 db \<Longrightarrow> map_of db e = Some r \<Longrightarrow> iterate_tags (v_tags r) \<noteq> None"
  by (auto simp: iterable_v1_def list_all_iff dest: map_of_SomeD)

lemma iterable_v1_update:
  "iterable_v1 db \<Longrightarrow> iterate_tags (v_tags r) \<noteq> None \<Longrightarrow> iterable_v1 (AList.update e r db)"
  using set_update_subset [of e r db] by (auto simp: iterable_v1_def list_all_iff)

lemma insert_line_v1_progress:
  assumes it: "iterable_v1 db"
  shows "\<exists>db' i' u'. insert_line_v1 T (db, i, u) line = Inr (db', i', u') \<and> iterable_v1 db'"
proof (cases "filterEmail line")
  case None
  with it show ?thesis by (simp add: insert_line_v1_def)
next
  case (Some email)
  show ?thesis
  proof (cases "map_of db email")
    case None
    with Some it show ?thesis by (simp add: insert_line_v1_Some iterable_v1_update)
  next
    case (Some r)
    with it obtain ts where "iterate_tags (v_tags r) = Some ts" by (blast dest: iterable_v1_map_of)
    with Some \<open>filterEmail line = Some email\<close> it show ?thesis
      by (simp add: insert_line_v1_Some iterable_v1_update)
  qed
qed

lemma insert_lines_v1_progress:
  "iterable_v1 db \<Longrightarrow> \<exists>db' i' u'. insert_lines_v1 T (db, i, u) lines = Inr (db', i', u') \<and> iterable_v1 db'"
proof (induction lines arbitrary: db i u)
  case (Cons line lines)
  from insert_line_v1_progress [OF Cons.prems] obtain db1 i1 u1
    where "insert_line_v1 T (db, i, u) line = Inr (db1, i1, u1)" and "iterable_v1 db1" by blast
  with Cons.IH show ?case by simp
qed simp

lemma lookup_v1_progress:
  "iterable_v1 db \<Longrightarrow> \<exists>res'. lookup_v1 T l db res = Inr res'"
proof (induction T l db res rule: lookup_v1.induct)
  case (2 T l e r db res)
  then have "iterable_v1 db" and "iterate_tags (v_tags r) \<noteq> None" by (simp_all add: iterable_v1_def)
  with 2 show ?case by (cases "v_tags r") (auto simp: Let_def)
qed simp

lemma allTags_v1_progress: "iterable_v1 db \<Longrightarrow> \<exists>cs. allTags_v1 db res = Inr cs"
  by (induction db res rule: allTags_v1.induct) (auto simp: iterable_v1_def)

lemma snd_set_update:
  assumes rin: "r \<in> snd ` set al" shows "snd ` set (AList.update k r al) \<subseteq> snd ` set al"
proof
  fix x assume "x \<in> snd ` set (AList.update k r al)"
  then obtain a where "(a, x) \<in> set (AList.update k r al)" by auto
  with set_update_subset [of k r al] have "x = r \<or> (a, x) \<in> set al" by auto
  then show "x \<in> snd ` set al" using rin by (auto intro: rev_image_eqI)
qed

lemma snd_set_delete: "snd ` set (AList.delete k al) \<subseteq> snd ` set al"
  using set_delete_subset [of k al] by auto

lemma cleanup_step_values: "snd ` set (fst (cleanup_step st k)) \<subseteq> snd ` set (fst st)"
proof -
  obtain db d f where st: "st = (db, d, f)" by (cases st)
  show ?thesis
  proof (cases "map_of db k")
    case (Some r)
    then have r: "r \<in> snd ` set db" by (force dest: map_of_SomeD)
    have "snd ` set (AList.delete k (AList.update fl r db)) \<subseteq> snd ` set db" for fl
      using snd_set_delete [of k "AList.update fl r db"] snd_set_update [OF r, of fl] by blast
    with Some snd_set_delete [of k db] show ?thesis
      by (simp add: st cleanup_step_def split: option.splits)
  qed (simp add: st cleanup_step_def)
qed

lemma cleanup_loop_values: "snd ` set (fst (cleanup_loop ks st)) \<subseteq> snd ` set (fst st)"
proof (induction ks arbitrary: st)
  case (Cons k ks)
  have "snd ` set (fst (cleanup_loop ks (cleanup_step st k))) \<subseteq> snd ` set (fst (cleanup_step st k))"
    by (rule Cons.IH)
  with cleanup_step_values [of st k] show ?case by (simp add: cleanup_loop_def)
qed (simp add: cleanup_loop_def)

lemma iterable_v1_values: "iterable_v1 db \<longleftrightarrow> (\<forall>r\<in>snd ` set db. iterate_tags (v_tags r) \<noteq> None)"
  by (auto simp: iterable_v1_def list_all_iff)

text \<open>What a successful run of the loop leaves: the keys stay distinct, the count
  grows by one per address line, and every address of the lines holds a \<open>Set\<close>.\<close>

lemma insert_lines_v1_Inr:
  "insert_lines_v1 T (db, i, u) lines = Inr (db', i', u') \<Longrightarrow> distinct (keys db) \<Longrightarrow>
   distinct (keys db') \<and> i' + u' = i + u + length (emails_of_lines lines)
   \<and> (\<forall>e r. (e, r) \<in> set db' \<longrightarrow> (\<exists>ts. v_tags r = TSet ts)
          \<or> ((e, r) \<in> set db \<and> e \<notin> set (emails_of_lines lines)))"
proof (induction lines arbitrary: db i u)
  case Nil
  then show ?case by simp
next
  case (Cons line lines)
  show ?case
  proof (cases "filterEmail line")
    case None
    with Cons show ?thesis by (simp add: insert_line_v1_def)
  next
    case (Some email)
    with Cons.prems(1) obtain db1 i1 u1 where step: "insert_line_v1 T (db, i, u) line = Inr (db1, i1, u1)"
      and rest: "insert_lines_v1 T (db1, i1, u1) lines = Inr (db', i', u')"
      by (auto split: sum.splits)
    have ne: "email \<noteq> []" using Some by (rule filterEmail_nonempty)
    from step Some obtain r' where db1: "db1 = AList.update email r' db"
      and tr: "\<exists>ts. v_tags r' = TSet ts" and cnt: "i1 + u1 = Suc (i + u)"
    proof (cases "map_of db email")
      case None
      with step Some show ?thesis using that by (auto simp: insert_line_v1_Some)
    next
      case (Some r)
      with step \<open>filterEmail line = Some email\<close> show ?thesis using that
        by (auto simp: insert_line_v1_Some split: option.splits)
    qed
    have d1: "distinct (keys db1)" using Cons.prems(2) db1 by (simp add: distinct_update)
    have s1: "(a, b) \<in> set db1 \<Longrightarrow> (\<exists>ts. v_tags b = TSet ts) \<or> ((a, b) \<in> set db \<and> a \<noteq> email)"
      for a b
    proof -
      assume m: "(a, b) \<in> set db1"
      show ?thesis
      proof (cases "a = email")
        case True
        with m d1 db1 have "map_of db1 email = Some b" by (simp add: map_of_is_SomeI)
        with db1 tr show ?thesis by (simp add: update_conv')
      next
        case False
        with m db1 set_update_subset [of email r' db] show ?thesis by auto
      qed
    qed
    from Cons.IH [OF rest d1] s1 cnt Some ne show ?thesis by fastforce
  qed
qed

lemma lookup_v1_excludes:
  "lookup_v1 T l db res = Inr res' \<Longrightarrow> e \<notin> set (keys res) \<Longrightarrow>
   \<forall>r. (e, r) \<in> set db \<longrightarrow> (\<exists>ts. array_from (v_tags r) = Some ts \<and> length (lodash_intersection ts T) < length T) \<Longrightarrow>
   e \<notin> set (keys res')"
proof (induction T l db res rule: lookup_v1.induct)
  case (2 T l e' r db res)
  then show ?case
    by (auto simp: Let_def dom_update split: option.splits if_splits)
qed simp

lemma insert_v1_Inr:
  "insert_v1 T c db = Inr (db', i, u) \<Longrightarrow> distinct (keys db) \<Longrightarrow>
   distinct (keys db') \<and> i + u = length (readEmailFile (Some c))
   \<and> (\<forall>e r. (e, r) \<in> set db' \<longrightarrow> e \<in> set (readEmailFile (Some c)) \<longrightarrow> (\<exists>ts. v_tags r = TSet ts))"
  using insert_lines_v1_Inr [of T db 0 0 "split_on CHR 0x0A c" db' i u]
  by (fastforce simp: insert_v1_def readEmailFile_def)

lemma load_v1_serialize:
  "(e, r) \<in> set (load_v1 (snd (save_v1 True db st))) \<longleftrightarrow>
   (\<exists>r0. (e, r0) \<in> set db \<and> r = \<lparr>v_tags = tags_of_json (json_of_tags (v_tags r0)),
      v_rest = (v_rest r0)\<lparr>r_tags := json_of_tags (v_tags r0)\<rparr>\<rparr>)"
  by (force simp: load_v1_def save_v1_def serialize_v1_def Let_def split: option.splits)

text \<open>A record whose tags were written as \<open>{}\<close> makes the next \<open>insert\<close> that
  reaches it throw: \<open>{}\<close> cannot be spread.\<close>

lemma insert_v1_reaches_object:
  "map_of db e = Some r \<Longrightarrow> v_tags r = TObj \<Longrightarrow> filterEmail c = Some e \<Longrightarrow> CHR 0x0A \<notin> set c \<Longrightarrow>
   insert_v1 T c db = Inl (NotIterable e)"
  by (simp add: insert_v1_def split_on_no_sep insert_line_v1_Some)

text \<open>A record whose tags \<open>insert\<close> left as a \<open>Set\<close> is no longer iterable
  after \<open>save\<close> and \<open>load\<close>.\<close>

lemma saved_set_not_iterable:
  "(e, r) \<in> set db \<Longrightarrow> v_tags r = TSet ts \<Longrightarrow> \<not> iterable_v1 (load_v1 (snd (save_v1 True db st)))"
proof -
  assume a: "(e, r) \<in> set db" "v_tags r = TSet ts"
  let ?r = "\<lparr>v_tags = tags_of_json (json_of_tags (v_tags r)),
             v_rest = (v_rest r)\<lparr>r_tags := json_of_tags (v_tags r)\<rparr>\<rparr>"
  have "(e, ?r) \<in> set (load_v1 (snd (save_v1 True db st)))"
    using a(1) by (auto simp: load_v1_serialize)
  moreover have "iterate_tags (v_tags ?r) = None" using a(2) by simp
  ultimately have "(e, ?r) \<in> set (load_v1 (snd (save_v1 True db st))) \<and>
      \<not> (case (e, ?r) of (e, r) \<Rightarrow> iterate_tags (v_tags r) \<noteq> None)" by simp
  then show ?thesis unfolding iterable_v1_def list_all_iff by blast
qed

subsection \<open>Properties\<close>

text \<open>C34: In the first version, an address imported with \<open>insert\<close> loses its
  tags on the next run: \<open>insert\<close> stores them in a \<open>Set\<close>, \<open>save\<close> writes it as
  \<open>{}\<close>, \<open>load\<close> keeps \<open>{}\<close>, and a query for any tag no longer finds the
  address.\<close>

theorem first_insert_tags_lost:
  "distinct (keys db) \<Longrightarrow> insert_v1 T c db = Inr (db', i, u) \<Longrightarrow> e \<in> set (readEmailFile (Some c)) \<Longrightarrow>
   T' \<noteq> [] \<Longrightarrow> lookup_v1 T' l (load_v1 (snd (save_v1 True db' st))) [] = Inr res \<Longrightarrow>
   e \<notin> set (keys res)"
proof -
  assume d: "distinct (keys db)" and ins: "insert_v1 T c db = Inr (db', i, u)"
    and e: "e \<in> set (readEmailFile (Some c))" and T': "T' \<noteq> []"
    and lk: "lookup_v1 T' l (load_v1 (snd (save_v1 True db' st))) [] = Inr res"
  from insert_v1_Inr [OF ins d] e
  have set: "(e, r0) \<in> set db' \<Longrightarrow> \<exists>ts. v_tags r0 = TSet ts" for r0 by blast
  have "\<forall>r. (e, r) \<in> set (load_v1 (snd (save_v1 True db' st))) \<longrightarrow>
      (\<exists>ts. array_from (v_tags r) = Some ts \<and> length (lodash_intersection ts T') < length T')"
    using T' by (auto simp: load_v1_serialize lodash_intersection_def js_set_of_def dest!: set)
  from lookup_v1_excludes [OF lk _ this] show ?thesis by simp
qed

text \<open>The first version's \<open>insert\<close> counts every address line once, as
  inserted or as updated, so importing a file again reports every address as
  updated although nothing changes.\<close>

theorem first_insert_tags_lost_witness:
  "''a@x.com'' \<notin> set (keys (projr (lookup_v1 [''t''] None
     (load_v1 (snd (save_v1 True (fst (projr (insert_v1 [''t''] ''a@x.com'' []))) \<lparr>db_file = None, tmp_file = None\<rparr>))) [])))"
proof -
  have f: "filterEmail ''a@x.com'' = Some ''a@x.com''"
    by (simp add: filterEmail_def search.simps email_regex_defs)
  have ins: "insert_v1 [''t''] ''a@x.com'' [] = Inr ([(''a@x.com'', \<lparr>v_tags = TSet [''t''], v_rest = empty_raw\<rparr>)], 1, 0)"
    by (simp add: insert_v1_def split_on_no_sep insert_line_v1_def f js_set_of_def js_set_add_def)
  have rd: "''a@x.com'' \<in> set (readEmailFile (Some ''a@x.com''))"
    by (simp add: readEmailFile_def split_on_no_sep f)
  have lk: "lookup_v1 [''t''] None (load_v1 (snd (save_v1 True [(''a@x.com'', \<lparr>v_tags = TSet [''t''], v_rest = empty_raw\<rparr>)]
     \<lparr>db_file = None, tmp_file = None\<rparr>))) [] = Inr []"
    by (simp add: load_v1_def save_v1_def serialize_v1_def empty_raw_def lodash_intersection_def js_set_of_def)
  from first_insert_tags_lost [OF _ ins rd _ lk] ins lk show ?thesis by simp
qed

theorem first_insert_counts:
  "distinct (keys db) \<Longrightarrow> insert_v1 T c db = Inr (db', i, u) \<Longrightarrow>
   i + u = length (readEmailFile (Some c))"
  using insert_v1_Inr by blast

theorem first_insert_counts_witness:
  "snd (projr (insert_v1 [''t''] ''a@x.com'' [(''a@x.com'', \<lparr>v_tags = TSet [''t''], v_rest = empty_raw\<rparr>)])) = (0, 1)
   \<and> length (readEmailFile (Some ''a@x.com'')) = 1"
proof -
  have f: "filterEmail ''a@x.com'' = Some ''a@x.com''"
    by (simp add: filterEmail_def search.simps email_regex_defs)
  have ins: "insert_v1 [''t''] ''a@x.com'' [(''a@x.com'', \<lparr>v_tags = TSet [''t''], v_rest = empty_raw\<rparr>)]
    = Inr ([(''a@x.com'', \<lparr>v_tags = TSet [''t''], v_rest = empty_raw\<rparr>)], 0, 1)"
    by (simp add: insert_v1_def split_on_no_sep insert_line_v1_def f js_set_of_def js_set_add_def)
  from first_insert_counts [OF _ ins] ins show ?thesis by simp
qed

text \<open>C17: The first version is type-safe on the records it builds: on a
  directory whose every \<open>tags\<close> is iterable (an array or a \<open>Set\<close>), \<open>insert\<close>
  never throws and leaves every \<open>tags\<close> iterable, the loop of \<open>query\<close> and
  \<open>tags\<close> never throw, and \<open>cleanup\<close> keeps every \<open>tags\<close> iterable.  Only
  \<open>save\<close> and \<open>load\<close> break the type (\<open>saved_set_not_iterable\<close>).\<close>

theorem first_iterable_type_safe:
  "iterable_v1 db \<Longrightarrow>
   (\<exists>db' i u. insert_v1 T c db = Inr (db', i, u) \<and> iterable_v1 db') \<and>
   (\<exists>res. lookup_v1 T l db [] = Inr res) \<and> (\<exists>cs. allTags_v1 db [] = Inr cs) \<and>
   iterable_v1 (fst (cleanup_v1 db))"
proof -
  assume it: "iterable_v1 db"
  from it have "\<forall>r\<in>snd ` set db. iterate_tags (v_tags r) \<noteq> None" by (simp only: iterable_v1_values)
  moreover have "snd ` set (fst (cleanup_v1 db)) \<subseteq> snd ` set db"
    using cleanup_loop_values [of "keys db" "(db, 0, 0)"] by (simp add: cleanup_v1_def)
  ultimately have "iterable_v1 (fst (cleanup_v1 db))" by (simp only: iterable_v1_values) blast
  moreover have "\<exists>db' i u. insert_v1 T c db = Inr (db', i, u) \<and> iterable_v1 db'"
    unfolding insert_v1_def by (rule insert_lines_v1_progress [OF it])
  ultimately show ?thesis using lookup_v1_progress [OF it] allTags_v1_progress [OF it] by blast
qed

theorem first_iterable_type_safe_witness:
  "iterable_v1 [(''a@x.com'', \<lparr>v_tags = TArr [''t''], v_rest = empty_raw\<rparr>)] \<and>
   (\<exists>db' i u. insert_v1 [''u''] ''a@x.com'' [(''a@x.com'', \<lparr>v_tags = TArr [''t''], v_rest = empty_raw\<rparr>)]
      = Inr (db', i, u) \<and> iterable_v1 db')"
proof -
  have it: "iterable_v1 [(''a@x.com'', \<lparr>v_tags = TArr [''t''], v_rest = empty_raw\<rparr>)]"
    by (simp add: iterable_v1_def)
  from first_iterable_type_safe [OF it, of "[''u'']" "''a@x.com''"] it show ?thesis by blast
qed

end
