(* ===== verification/Flag_Commands.thy ===== *)
theory Flag_Commands
  imports Flags Legacy
begin

text \<open>
  The fourth version of the program, the first half of \<open>src/unnamed/part_000\<close>
  (lines 1--519).  Its records are those of \<open>part_002\<close> (\<open>flag_rec\<close>: tags,
  locale and the flags \<open>broken\<close> and \<open>clean\<close>), and its \<open>load\<close> (49--59) and
  \<open>lookup\<close> (79--117) are \<open>part_002\<close>'s, character for character
  (\<open>load_flags\<close>, \<open>lookup_flags\<close>).  What this version adds or changes is
  modelled here: \<open>save\<close> (61--66), \<open>lookupByRegexp\<close> (68--77),
  \<open>allTags\<close> (119--131), \<open>insert\<close> (140--183) and \<open>cleanup\<close> (185--206) on
  the flag records, \<open>markAsBroken\<close> (212--224), which now counts a listed
  record only when it was not broken, \<open>markAsClean\<close> (225--236), which now
  deletes \<open>broken\<close>, \<open>emailToString\<close> (238--258), \<open>makeFilename\<close>
  (319--345) and the eleven \<open>commander\<close> actions (280--506), one definition
  each.  \<open>pageAll\<close> (415--436) and \<open>readEmailFile\<close> (347--364) are the
  later version's (\<open>pageAll\<close>, \<open>readEmailFile\<close>).  The program of
  \<open>part_002\<close> (lines 224--409) runs on the same definitions (\<open>run_p2\<close>).

  The conventions are those of \<open>Commands\<close>: a run loads the directory at
  module level (a \<open>TypeError\<close> there is \<open>Crashed\<close>), an exception inside an
  action is \<open>Aborted\<close>, a drain that never ends is \<open>None\<close>, and the output is
  the list of lines of the command's result.
\<close>

subsection \<open>EmailDB of the fourth version\<close>

text \<open>\<open>save()\<close>: \<open>JSON.stringify\<close> writes each record's \<open>Set\<close> of tags as
  \<open>{}\<close> and its flags as they are.\<close>

definition serialize_flags :: "flag_db \<Rightarrow> raw_db" where
  "serialize_flags db =
     map (\<lambda>(e, r). (e, \<lparr>r_tags = JEmptyObject, r_locale = f_locale r, r_status = None,
                        r_broken = f_broken r, r_clean = f_clean r, r_lastDelivered = None\<rparr>)) db"

definition save_flags :: "bool \<Rightarrow> flag_db \<Rightarrow> fs_state \<Rightarrow> error option \<times> fs_state" where
  "save_flags ok db files =
     (let fs1 = (case db_file files of
                   None \<Rightarrow> files
                 | Some f \<Rightarrow> files\<lparr>tmp_file := Some f, db_file := None\<rparr>)
      in if ok then (None, fs1\<lparr>db_file := Some (Json (serialize_flags db))\<rparr>)
         else (Some WriteFailed, fs1))"

definition lookupByRegexp_v4 :: "re \<Rightarrow> flag_db \<Rightarrow> flag_db" where
  "lookupByRegexp_v4 rx db =
     fold (\<lambda>(e, r) res. if search rx e \<noteq> None then AList.update e r res else res) db []"

definition allTags_v4 :: "flag_db \<Rightarrow> (tag \<times> nat) list" where
  "allTags_v4 db = fold (\<lambda>(e, r) res. foldl bump_tag res (f_tags r)) db []"

text \<open>\<open>insert\<close>: the loop body of the later version on a flag record; a new
  record is \<open>{ tags: new Set() }\<close>, with neither flag.\<close>

definition new_rec_v4 :: flag_rec where
  "new_rec_v4 = \<lparr>f_tags = [], f_locale = None, f_broken = False, f_clean = False\<rparr>"

definition insert_line_v4 ::
  "tag list \<Rightarrow> locale_t option \<Rightarrow> flag_db \<times> nat \<times> nat \<Rightarrow> string \<Rightarrow> flag_db \<times> nat \<times> nat" where
  "insert_line_v4 T l st line =
     (let (db, ins, upd) = st in
      case filterEmail line of
        None \<Rightarrow> st
      | Some email \<Rightarrow>
          if email = [] then st
          else
            let (db1, ins1, res) =
                  (case map_of db email of
                     None \<Rightarrow> (AList.update email new_rec_v4 db, Suc ins, new_rec_v4)
                   | Some r \<Rightarrow> (db, ins, r));
                (tags1, addedTags) = add_tags T (f_tags res, False);
                tags2 = js_set_of (tags1 @ T);
                upd1 = (if addedTags \<or> (js_truthy l \<and> l \<noteq> f_locale res) then Suc upd else upd);
                res1 = res\<lparr>f_tags := tags2, f_locale := (if js_truthy l then l else f_locale res)\<rparr>
            in (AList.update email res1 db1, ins1, upd1))"

definition insert_v4 :: "tag list \<Rightarrow> locale_t option \<Rightarrow> string \<Rightarrow> flag_db \<Rightarrow> flag_db \<times> nat \<times> nat" where
  "insert_v4 T l contents db = foldl (insert_line_v4 T l) (db, 0, 0) (split_on CHR 0x0A contents)"

definition cleanup_v4 :: "flag_db \<Rightarrow> flag_db \<times> nat \<times> nat" where
  "cleanup_v4 db = cleanup_loop (keys db) (db, 0, 0)"

text \<open>\<open>markAsBroken(emails)\<close>: every listed record is set broken, and counted
  when it was not.\<close>

fun markAsBroken_v4 :: "email list \<Rightarrow> flag_db \<Rightarrow> flag_db \<times> nat" where
  "markAsBroken_v4 es [] = ([], 0)"
| "markAsBroken_v4 es ((e, r) # db) =
     (let (db', n) = markAsBroken_v4 es db in
      if e \<in> set es
      then ((e, r\<lparr>f_broken := True\<rparr>) # db', if \<not> f_broken r then Suc n else n)
      else ((e, r) # db', n))"

text \<open>\<open>markAsClean(emails)\<close>: every listed record that is not clean is set
  clean and its \<open>broken\<close> flag deleted.\<close>

fun markAsClean_v4 :: "email list \<Rightarrow> flag_db \<Rightarrow> flag_db \<times> nat" where
  "markAsClean_v4 es [] = ([], 0)"
| "markAsClean_v4 es ((e, r) # db) =
     (let (db', n) = markAsClean_v4 es db in
      if \<not> f_clean r \<and> e \<in> set es
      then ((e, r\<lparr>f_clean := True, f_broken := False\<rparr>) # db', Suc n)
      else ((e, r) # db', n))"

text \<open>\<open>emailToString(email)\<close>.\<close>

definition emailToString_v4 :: "flag_db \<Rightarrow> email \<Rightarrow> string" where
  "emailToString_v4 db email =
     (case map_of db email of
        None \<Rightarrow> email @ '': not found in db''
      | Some r \<Rightarrow>
          email @ '':''
          @ (if f_tags r \<noteq> [] then ''('' @ join_with CHR '','' (f_tags r) @ '')'' else [])
          @ ''['' @ (case f_locale r of Some x \<Rightarrow> if x \<noteq> [] then x else guessEmailLocale email
                                     | None \<Rightarrow> guessEmailLocale email) @ '']''
          @ (if f_clean r then ''(clean!)'' else ''(dirty)'')
          @ (if f_broken r then ''[ !! BROKEN !! ]'' else []))"

subsection \<open>makeFilename\<close>

text \<open>\<open>moment().format('YYYY-MM-DD:HH.MM')\<close>, the month again in the place of
  the minutes.\<close>

definition format_ts_v4 :: "datetime \<Rightarrow> string" where
  "format_ts_v4 t = dec (year t) @ ''-'' @ pad2 (month t) @ ''-'' @ pad2 (day t) @ '':''
                    @ pad2 (hour t) @ ''.'' @ pad2 (month t)"

text \<open>The tokens are the time and \<open>key:value\<close> per present input, joined by
  \<open>-\<close>.\<close>

definition makeFilename_v4 :: "string \<Rightarrow> (string \<times> js_val option) list \<Rightarrow> datetime \<Rightarrow> string" where
  "makeFilename_v4 base input t =
     base @ ''/'' @
     join_with CHR ''-'' (format_ts_v4 t # concat (map (\<lambda>(k, v). case v of None \<Rightarrow> []
                                             | Some x \<Rightarrow> [k @ '':'' @ js_val_str x]) input))
     @ ''.txt''"

text \<open>A \<open>commander\<close> flag option is \<open>true\<close> or \<open>undefined\<close>.\<close>

definition flag_val :: "bool \<Rightarrow> js_val option" where
  "flag_val b = (if b then Some JTrue else None)"

subsection \<open>The commands\<close>

datatype command_v4 =
    InsertV4 string "tag list" "locale_t option"
  | QueryV4 "tag list" "locale_t option" bool bool
  | ExportV4 "tag list" "locale_t option" bool bool
  | TagsV4
  | CleanupV4
  | DownloadBrokenV4
  | DownloadDeliveredV4
  | MarkCleanV4 string
  | MarkBrokenV4 string
  | FindEmailsV4 re

text \<open>\<open>db.save()\<close> at the end of an action.\<close>

definition save_step_v4 :: "env \<Rightarrow> flag_db \<Rightarrow> cli_state \<Rightarrow> outcome \<times> cli_state" where
  "save_step_v4 e db st =
     (case save_flags (write_ok e) db (fs st) of
        (None, fs') \<Rightarrow> (Done [], st\<lparr>fs := fs'\<rparr>)
      | (Some err, fs') \<Rightarrow> (Aborted, st\<lparr>fs := fs'\<rparr>))"

text \<open>\<open>insert <filename>\<close>: \<open>readFileSync\<close> of a missing file throws.\<close>

definition insert_action_v4 :: "env \<Rightarrow> string \<Rightarrow> tag list \<Rightarrow> locale_t option \<Rightarrow> flag_db \<Rightarrow> cli_state \<Rightarrow> outcome \<times> cli_state" where
  "insert_action_v4 e file T l db st =
     (case texts st file of
        None \<Rightarrow> (Aborted, st)
      | Some contents \<Rightarrow> save_step_v4 e (fst (insert_v4 (js_set_of T) l contents db)) st)"

text \<open>\<open>query\<close>: \<open>db.lookup({tags: new Set(tags || []), locale, cleanOnly,
  dirtyOnly})\<close>, one \<open>emailToString\<close> line per result.\<close>

definition query_action_v4 :: "tag list \<Rightarrow> locale_t option \<Rightarrow> bool \<Rightarrow> bool \<Rightarrow> flag_db \<Rightarrow> string list" where
  "query_action_v4 T l cleanOnly dirtyOnly db =
     map (emailToString_v4 db) (keys (lookup_flags cleanOnly dirtyOnly (js_set_of T) l db))"

text \<open>\<open>export\<close>: the query it runs is given the tags and the locale only; the
  file name records all four options.\<close>

definition export_action_v4 ::
  "env \<Rightarrow> tag list \<Rightarrow> locale_t option \<Rightarrow> bool \<Rightarrow> bool \<Rightarrow> flag_db \<Rightarrow> cli_state \<Rightarrow> cli_state" where
  "export_action_v4 e T l cleanOnly dirtyOnly db st =
     (let emails = keys (lookup_flags False False (js_set_of T) l db);
          filename = makeFilename_v4 ''export''
                       [(''tags'', Some (JArr T)), (''locale'', map_option JStr l),
                        (''cleanOnly'', flag_val cleanOnly), (''dirtyOnly'', flag_val dirtyOnly)] (clock e)
      in st\<lparr>texts := (texts st)(filename \<mapsto> join_with CHR 0x0A emails)\<rparr>)"

definition tags_action_v4 :: "flag_db \<Rightarrow> string list" where
  "tags_action_v4 db = map (\<lambda>(t, n). t @ '': '' @ dec n @ '' emails'') (allTags_v4 db)"

definition cleanup_action_v4 :: "env \<Rightarrow> flag_db \<Rightarrow> cli_state \<Rightarrow> outcome \<times> cli_state" where
  "cleanup_action_v4 e db st = save_step_v4 e (fst (cleanup_v4 db)) st"

text \<open>\<open>download_broken\<close>: drain the three suppression lists, mark their
  addresses broken, save.\<close>

definition download_broken_v4 :: "env \<Rightarrow> flag_db \<Rightarrow> cli_state \<Rightarrow> (outcome \<times> cli_state) option" where
  "download_broken_v4 e db st =
     (case drain_all [unsubscribes e, bounces e, complaints e] of
        None \<Rightarrow> None
      | Some (Inl err) \<Rightarrow> Some (Aborted, st)
      | Some (Inr emails) \<Rightarrow> Some (save_step_v4 e (fst (markAsBroken_v4 emails db)) st))"

text \<open>\<open>download_delivered\<close>: drain the delivered events and write the distinct
  recipients to a file; the directory is not touched.\<close>

definition download_delivered_v4 :: "env \<Rightarrow> cli_state \<Rightarrow> (outcome \<times> cli_state) option" where
  "download_delivered_v4 e st =
     (case pageAll (events e) of
        None \<Rightarrow> None
      | Some (Inl err) \<Rightarrow> Some (Aborted, st)
      | Some (Inr items) \<Rightarrow>
          Some (Done [], st\<lparr>texts := (texts st)(makeFilename_v4 ''downloaded'' [(''delivered'', Some JTrue)] (clock e)
                                  \<mapsto> join_with CHR 0x0A (js_set_of (map fst items)))\<rparr>))"

text \<open>\<open>mark_clean\<close> and \<open>mark_broken\<close>: \<open>readEmailFile\<close> gives \<open>[]\<close> for a
  missing file; then mark and save.\<close>

definition mark_clean_v4 :: "env \<Rightarrow> string \<Rightarrow> flag_db \<Rightarrow> cli_state \<Rightarrow> outcome \<times> cli_state" where
  "mark_clean_v4 e file db st = save_step_v4 e (fst (markAsClean_v4 (readEmailFile (texts st file)) db)) st"

definition mark_broken_v4 :: "env \<Rightarrow> string \<Rightarrow> flag_db \<Rightarrow> cli_state \<Rightarrow> outcome \<times> cli_state" where
  "mark_broken_v4 e file db st = save_step_v4 e (fst (markAsBroken_v4 (readEmailFile (texts st file)) db)) st"

definition find_emails_v4 :: "re \<Rightarrow> flag_db \<Rightarrow> string list" where
  "find_emails_v4 rx db = map (emailToString_v4 db) (keys (lookupByRegexp_v4 rx db))"

fun exec_v4 :: "env \<Rightarrow> command_v4 \<Rightarrow> flag_db \<Rightarrow> cli_state \<Rightarrow> (outcome \<times> cli_state) option" where
  "exec_v4 e (InsertV4 file T l) db st = Some (insert_action_v4 e file T l db st)"
| "exec_v4 e (QueryV4 T l c d) db st = Some (Done (query_action_v4 T l c d db), st)"
| "exec_v4 e (ExportV4 T l c d) db st = Some (Done [], export_action_v4 e T l c d db st)"
| "exec_v4 e TagsV4 db st = Some (Done (tags_action_v4 db), st)"
| "exec_v4 e CleanupV4 db st = Some (cleanup_action_v4 e db st)"
| "exec_v4 e DownloadBrokenV4 db st = download_broken_v4 e db st"
| "exec_v4 e DownloadDeliveredV4 db st = download_delivered_v4 e st"
| "exec_v4 e (MarkCleanV4 file) db st = Some (mark_clean_v4 e file db st)"
| "exec_v4 e (MarkBrokenV4 file) db st = Some (mark_broken_v4 e file db st)"
| "exec_v4 e (FindEmailsV4 rx) db st = Some (Done (find_emails_v4 rx db), st)"

text \<open>One run: \<open>db.load()\<close> at module level, then the action.\<close>

definition run_v4 :: "env \<Rightarrow> command_v4 \<Rightarrow> cli_state \<Rightarrow> (outcome \<times> cli_state) option" where
  "run_v4 e cmd st = (case load_flags (fs st) of Inl err \<Rightarrow> Some (Crashed err, st) | Inr db \<Rightarrow> exec_v4 e cmd db st)"

subsection \<open>The program of part_002\<close>

text \<open>The program of \<open>src/unnamed/part_002\<close> (lines 224--409) on the same
  records.  Its \<open>insert\<close>, \<open>tags\<close> and \<open>cleanup\<close> actions are the fourth
  version's text (\<open>insert_action_v4\<close>, \<open>tags_action_v4\<close>,
  \<open>cleanup_action_v4\<close>); \<open>query\<close> prints each result as
  \<open>email: (tags), locale\<close>, \<open>export\<close> is \<open>export_flags\<close>, and the two
  Mailgun actions mark the drained addresses and save.\<close>

datatype command_p2 =
    InsertP2 string "tag list" "locale_t option"
  | QueryP2 "tag list" "locale_t option" bool bool
  | ExportP2 "tag list" "locale_t option" bool bool
  | TagsP2
  | CleanupP2
  | DownloadBrokenP2
  | DownloadCleanP2

definition query_action_p2 :: "tag list \<Rightarrow> locale_t option \<Rightarrow> bool \<Rightarrow> bool \<Rightarrow> flag_db \<Rightarrow> string list" where
  "query_action_p2 T l cleanOnly dirtyOnly db =
     map (\<lambda>(email, ts, loc). email @ '': ('' @ join_with CHR '','' ts @ ''), '' @ loc)
       (lookup_flags cleanOnly dirtyOnly (js_set_of T) l db)"

definition download_broken_p2 :: "env \<Rightarrow> flag_db \<Rightarrow> cli_state \<Rightarrow> (outcome \<times> cli_state) option" where
  "download_broken_p2 e db st =
     (case drain_all [unsubscribes e, bounces e, complaints e] of
        None \<Rightarrow> None
      | Some (Inl err) \<Rightarrow> Some (Aborted, st)
      | Some (Inr emails) \<Rightarrow> Some (save_step_v4 e (fst (download_broken_flags emails db)) st))"

definition download_clean_p2 :: "env \<Rightarrow> flag_db \<Rightarrow> cli_state \<Rightarrow> (outcome \<times> cli_state) option" where
  "download_clean_p2 e db st =
     (case pageAll (events e) of
        None \<Rightarrow> None
      | Some (Inl err) \<Rightarrow> Some (Aborted, st)
      | Some (Inr items) \<Rightarrow> Some (save_step_v4 e (fst (download_clean_flags items db)) st))"

fun exec_p2 :: "env \<Rightarrow> command_p2 \<Rightarrow> flag_db \<Rightarrow> cli_state \<Rightarrow> (outcome \<times> cli_state) option" where
  "exec_p2 e (InsertP2 file T l) db st = Some (insert_action_v4 e file T l db st)"
| "exec_p2 e (QueryP2 T l c d) db st = Some (Done (query_action_p2 T l c d db), st)"
| "exec_p2 e (ExportP2 T l c d) db st =
     (let (name, contents) = export_flags (format_ts_v4 (clock e)) T l c d db
      in Some (Done [], st\<lparr>texts := (texts st)(name \<mapsto> contents)\<rparr>))"
| "exec_p2 e TagsP2 db st = Some (Done (tags_action_v4 db), st)"
| "exec_p2 e CleanupP2 db st = Some (cleanup_action_v4 e db st)"
| "exec_p2 e DownloadBrokenP2 db st = download_broken_p2 e db st"
| "exec_p2 e DownloadCleanP2 db st = download_clean_p2 e db st"

definition run_p2 :: "env \<Rightarrow> command_p2 \<Rightarrow> cli_state \<Rightarrow> (outcome \<times> cli_state) option" where
  "run_p2 e cmd st = (case load_flags (fs st) of Inl err \<Rightarrow> Some (Crashed err, st) | Inr db \<Rightarrow> exec_p2 e cmd db st)"

subsection \<open>Lemmas\<close>

lemma markAsBroken_v4_map:
  "fst (markAsBroken_v4 es db) = map (\<lambda>(e, r). (e, if e \<in> set es then r\<lparr>f_broken := True\<rparr> else r)) db"
  by (induction es db rule: markAsBroken_v4.induct) (auto split: prod.splits)

lemma markAsClean_v4_map:
  "fst (markAsClean_v4 es db)
     = map (\<lambda>(e, r). (e, if \<not> f_clean r \<and> e \<in> set es then r\<lparr>f_clean := True, f_broken := False\<rparr> else r)) db"
  by (induction es db rule: markAsClean_v4.induct) (auto split: prod.splits)

lemma map_of_map_values:
  "map_of (map (\<lambda>(k, v). (k, g k v)) al) k = map_option (g k) (map_of al k)"
  by (induction al) auto

lemma map_of_lookup_flags:
  "distinct (keys db) \<Longrightarrow>
   map_of (lookup_flags c d T l db) e =
     (case map_of db e of None \<Rightarrow> None | Some r \<Rightarrow> lookup_entry_flags c d T l e r)"
  by (simp add: lookup_flags_def map_of_fold_update split: option.splits)

lemma keys_lookup_flags: "set (keys (lookup_flags c d T l db)) \<subseteq> set (keys db)"
  using keys_fold_lookup [of _ db "[]"] by (simp add: lookup_flags_def)

lemma flag_rec_broken_True: "f_broken r \<Longrightarrow> r\<lparr>f_broken := True\<rparr> = r"
  by (cases r) simp

lemma map_of_migrate: "map_of (migrate db) e = map_option migrate_rec (map_of db e)"
  by (induction db) (auto simp: migrate_def)

lemma migrate_update: "migrate (AList.update e v db) = AList.update e (migrate_rec v) (migrate db)"
  by (induction db) (auto simp: migrate_def)

lemma migrate_rec_fields [simp]:
  "tags (migrate_rec r) = f_tags r" "loc (migrate_rec r) = f_locale r"
  by (simp_all add: migrate_rec_def)

lemma migrate_rec_merge:
  "migrate_rec (r\<lparr>f_tags := ts, f_locale := l\<rparr>) = (migrate_rec r)\<lparr>tags := ts, loc := l\<rparr>"
  by (simp add: migrate_rec_def)

lemma migrate_new_rec_v4 [simp]: "migrate_rec new_rec_v4 = new_rec_cli" "f_tags new_rec_v4 = []" "tags new_rec_cli = []"
  "f_locale new_rec_v4 = None" "loc new_rec_cli = None"
  by (simp_all add: migrate_rec_def new_rec_v4_def new_rec_cli_def)

lemma insert_line_v4_migrate:
  "insert_line_cli T l (migrate db, i, u) line =
     (let (db', i', u') = insert_line_v4 T l (db, i, u) line in (migrate db', i', u'))"
  by (auto simp: insert_line_cli_def insert_line_v4_def map_of_migrate migrate_update migrate_rec_merge add_tags_eq
      Let_def split: option.splits prod.splits)

lemma insert_lines_v4_migrate:
  "foldl (insert_line_cli T l) (migrate db, i, u) lines =
     (let (db', i', u') = foldl (insert_line_v4 T l) (db, i, u) lines in (migrate db', i', u'))"
proof (induction lines arbitrary: db i u)
  case (Cons line lines)
  obtain db1 i1 u1 where s: "insert_line_v4 T l (db, i, u) line = (db1, i1, u1)" by (cases "insert_line_v4 T l (db, i, u) line")
  show ?case using insert_line_v4_migrate [of T l db i u line] s Cons.IH [of db1 i1 u1] by simp
qed simp

text \<open>As in the later version, a directory saved by the fourth version or by
  \<open>part_002\<close> makes the module-level \<open>load\<close> of the next run throw, on the
  first record's \<open>{}\<close>.\<close>

lemma save_step_v4_crashes_next_load:
  "save_step_v4 e db st = (Done out, st') \<Longrightarrow> db \<noteq> [] \<Longrightarrow>
   load_flags (fs st') = Inl (NotIterable (fst (hd db)))"
  by (cases db) (auto simp: save_step_v4_def save_flags_def load_flags_def serialize_flags_def
      rehydrate_flags_def Let_def split: option.splits if_splits)

subsection \<open>Properties\<close>

text \<open>C35: The fourth version's \<open>markAsBroken\<close>, which sets every listed
  record broken and counts those that were not, computes what \<open>part_002\<close>'s
  does, which sets and counts only the records that were not broken: the same
  directory and the same count.\<close>

theorem markAsBroken_v4_eq: "markAsBroken_v4 es db = markAsBroken es db"
  by (induction es db rule: markAsBroken_v4.induct) (auto simp: flag_rec_broken_True split: prod.splits)

text \<open>C36: In the fourth version \<open>mark_clean\<close> takes a listed address that is
  not clean out of the broken ones: after \<open>markAsClean\<close> a \<open>--clean-only\<close>
  query finds it, even when it had been marked broken before.\<close>

theorem markAsClean_v4_unbreaks:
  "distinct (keys db) \<Longrightarrow> map_of db e = Some r \<Longrightarrow> \<not> f_clean r \<Longrightarrow> e \<in> set es \<Longrightarrow>
   e \<in> set (keys (lookup_flags True False [] None (fst (markAsClean_v4 es db))))"
proof -
  assume d: "distinct (keys db)" and r: "map_of db e = Some r" and nc: "\<not> f_clean r" and e: "e \<in> set es"
  let ?db' = "fst (markAsClean_v4 es db)"
  have d': "distinct (keys ?db')" using d by (simp add: markAsClean_v4_map case_prod_beta comp_def)
  have "map_of ?db' e = Some (r\<lparr>f_clean := True, f_broken := False\<rparr>)"
    using r nc e by (simp add: markAsClean_v4_map map_of_map_values)
  then have "map_of (lookup_flags True False [] None ?db') e \<noteq> None"
    by (simp add: map_of_lookup_flags [OF d'] lookup_entry_flags_def lodash_intersection_def Let_def)
  then show ?thesis by (simp add: map_of_eq_None_iff)
qed

theorem markAsClean_v4_unbreaks_witness:
  "''a@x.com'' \<in> set (keys (lookup_flags True False [] None (fst (markAsClean_v4 [''a@x.com'']
     [(''a@x.com'', \<lparr>f_tags = [], f_locale = None, f_broken = True, f_clean = False\<rparr>)]))))"
  by (rule markAsClean_v4_unbreaks [of _ _ "\<lparr>f_tags = [], f_locale = None, f_broken = True, f_clean = False\<rparr>"])
     simp_all

text \<open>C37: \<open>mark_clean\<close> and \<open>mark_broken\<close> of the fourth version do not
  commute.  On a listed record that is not clean, breaking then cleaning leaves it
  clean and not broken; cleaning then breaking leaves it clean and broken, and
  then no later \<open>mark_clean\<close> changes it, because \<open>markAsClean\<close> skips clean
  records.\<close>

theorem mark_clean_broken_order:
  "map_of db e = Some r \<Longrightarrow> \<not> f_clean r \<Longrightarrow> e \<in> set es \<Longrightarrow>
   map_of (fst (markAsClean_v4 es (fst (markAsBroken_v4 es db)))) e
     = Some (r\<lparr>f_broken := False, f_clean := True\<rparr>) \<and>
   map_of (fst (markAsClean_v4 es' (fst (markAsBroken_v4 es (fst (markAsClean_v4 es db)))))) e
     = Some (r\<lparr>f_broken := True, f_clean := True\<rparr>)"
  by (simp only: markAsClean_v4_map markAsBroken_v4_map map_of_map_values) simp

theorem mark_clean_broken_order_witness:
  "map_of (fst (markAsClean_v4 [''a@x.com''] (fst (markAsBroken_v4 [''a@x.com'']
      [(''a@x.com'', \<lparr>f_tags = [], f_locale = None, f_broken = False, f_clean = False\<rparr>)])))) ''a@x.com''
     = Some \<lparr>f_tags = [], f_locale = None, f_broken = False, f_clean = True\<rparr> \<and>
   map_of (fst (markAsClean_v4 [''a@x.com''] (fst (markAsBroken_v4 [''a@x.com''] (fst (markAsClean_v4 [''a@x.com'']
      [(''a@x.com'', \<lparr>f_tags = [], f_locale = None, f_broken = False, f_clean = False\<rparr>)])))))) ''a@x.com''
     = Some \<lparr>f_tags = [], f_locale = None, f_broken = True, f_clean = True\<rparr>"
  using mark_clean_broken_order [of "[(''a@x.com'', \<lparr>f_tags = [], f_locale = None, f_broken = False, f_clean = False\<rparr>)]"
      "''a@x.com''" "\<lparr>f_tags = [], f_locale = None, f_broken = False, f_clean = False\<rparr>" "[''a@x.com'']" "[''a@x.com'']"]
  by simp

text \<open>C38: The fourth version's \<open>insert\<close> on flag records is, through the later
  version's migration of the flags, \<open>cli.js\<close>'s \<open>insert\<close>: the same records
  and the same counts.\<close>

theorem insert_v4_refines:
  "(migrate (fst (insert_v4 T l c db)), snd (insert_v4 T l c db)) = insert_cli T l c (migrate db)"
  using insert_lines_v4_migrate [of T l db 0 0 "split_on CHR 0x0A c"]
  by (simp add: insert_cli_def insert_v4_def split: prod.splits)

text \<open>C39: The fourth version's \<open>export\<close> writes the addresses of the query
  with no flag, whatever its \<open>--clean-only\<close> and \<open>--dirty-only\<close> options,
  which only appear in the file name: the file under that name reads back as the
  result of \<open>lookup\<close> without \<open>cleanOnly\<close> and \<open>dirtyOnly\<close>.\<close>

theorem export_v4_ignores_filters:
  "load_flags (fs st) = Inr db \<Longrightarrow> \<forall>k\<in>set (keys db). filterEmail k = Some k \<Longrightarrow>
   \<exists>st'. run_v4 e (ExportV4 T l c d) st = Some (Done [], st') \<and>
     readEmailFile (texts st' (makeFilename_v4 ''export''
        [(''tags'', Some (JArr T)), (''locale'', map_option JStr l), (''cleanOnly'', flag_val c),
         (''dirtyOnly'', flag_val d)] (clock e)))
     = keys (lookup_flags False False (js_set_of T) l db)"
proof -
  assume db: "load_flags (fs st) = Inr db" and norm: "\<forall>k\<in>set (keys db). filterEmail k = Some k"
  have "\<forall>k\<in>set (keys (lookup_flags False False (js_set_of T) l db)). filterEmail k = Some k"
    using norm keys_lookup_flags by blast
  then have "readEmailFile (Some (saveEmailFile (keys (lookup_flags False False (js_set_of T) l db))))
      = keys (lookup_flags False False (js_set_of T) l db)"
    by (rule readEmailFile_saveEmailFile)
  with db show ?thesis by (simp add: run_v4_def export_action_v4_def saveEmailFile_def)
qed

theorem export_v4_ignores_filters_witness:
  "(\<exists>st'. run_v4 sample_env (ExportV4 [''t1''] None True False) sample_state = Some (Done [], st') \<and>
     readEmailFile (texts st' (makeFilename_v4 ''export''
        [(''tags'', Some (JArr [''t1''])), (''locale'', None), (''cleanOnly'', flag_val True),
         (''dirtyOnly'', flag_val False)] (clock sample_env))) = [''a@x.com'']) \<and>
   run_v4 sample_env (QueryV4 [''t1''] None True False) sample_state = Some (Done [], sample_state)"
proof -
  let ?db = "[(''a@x.com'', \<lparr>f_tags = [''t1''], f_locale = None, f_broken = False, f_clean = False\<rparr>)]"
  have db: "load_flags (fs sample_state) = Inr ?db"
    by (simp add: sample_state_def load_flags_def rehydrate_flags_def js_set_of_def js_set_add_def)
  have norm: "\<forall>k\<in>set (keys ?db). filterEmail k = Some k"
    by (simp add: filterEmail_def search.simps email_regex_defs)
  have q: "keys (lookup_flags False False (js_set_of [''t1'']) None ?db) = [''a@x.com'']"
    by (simp add: lookup_flags_def lookup_entry_flags_def lodash_intersection_def js_set_of_def js_set_add_def)
  have c: "lookup_flags True False (js_set_of [''t1'']) None ?db = []"
    by (simp add: lookup_flags_def lookup_entry_flags_def)
  from export_v4_ignores_filters [OF db norm, of sample_env "[''t1'']" None True False] q db c
  show ?thesis by (simp add: run_v4_def query_action_v4_def)
qed

end
