(* ===== verification/Runs.thy ===== *)
theory Runs
  imports Commands Legacy Flag_Commands
begin

text \<open>
  Sequences of runs of the program.  Each invocation of the command-line tool is one
  run (\<open>run\<close> of \<open>Commands\<close>, \<open>run_cli\<close> of \<open>Legacy\<close>, \<open>run_v4\<close> and
  \<open>run_p2\<close> of \<open>Flag_Commands\<close>): it loads the
  directory file, performs one command and may save.  What survives from one run to
  the next is the state of the files, \<open>cli_state\<close>.  \<open>runs R st st'\<close> says
  that some sequence of invocations, each with its own environment (clock, Mailgun
  answers) and command, leads from \<open>st\<close> to \<open>st'\<close>; it is parametrised by the
  program \<open>R\<close>, so that one relation serves every version.

  The results are invariants of the reachable states, proved by rule induction: a
  directory file that \<open>load\<close> rejects is never changed again, and from a fresh
  install (no directory file) every directory file is one that \<open>save\<close> wrote, so
  that \<open>load\<close> only ever succeeds on an empty directory.
\<close>

inductive runs ::
  "('e \<Rightarrow> 'c \<Rightarrow> cli_state \<Rightarrow> (outcome \<times> cli_state) option) \<Rightarrow> cli_state \<Rightarrow> cli_state \<Rightarrow> bool"
  for R where
  runs_refl: "runs R st st"
| runs_step: "runs R st st1 \<Longrightarrow> R e cmd st1 = Some (out, st2) \<Longrightarrow> runs R st st2"

text \<open>\<open>cli.js\<close>'s program, whose runs always return.\<close>

definition run_cli_opt :: "env \<Rightarrow> command_cli \<Rightarrow> cli_state \<Rightarrow> (outcome \<times> cli_state) option" where
  "run_cli_opt e cmd st = Some (run_cli e cmd st)"

text \<open>A fresh install: no directory file, no backup, no text files.\<close>

definition fresh_state :: cli_state where
  "fresh_state = \<lparr>fs = \<lparr>db_file = None, tmp_file = None\<rparr>, texts = Map.empty, outbox = []\<rparr>"

inductive_cases runs_stepE: "runs R st st2"

subsection \<open>Invariants of runs\<close>

text \<open>A property every run keeps holds in every state reached.\<close>

lemma runs_invariant:
  assumes "runs R st st'" and "P st"
    and step: "\<And>e cmd s out s'. P s \<Longrightarrow> R e cmd s = Some (out, s') \<Longrightarrow> P s'"
  shows "P st'"
  using assms(1,2) by (induction rule: runs.induct) (auto intro: step)

text \<open>A state that every run leaves unchanged is never left.\<close>

lemma runs_stuck:
  assumes "runs R st st'"
    and stuck: "\<And>e cmd out s'. R e cmd st = Some (out, s') \<Longrightarrow> s' = st"
  shows "st' = st"
  using runs_invariant [OF assms(1), of "\<lambda>s. s = st"] by (auto dest: stuck)

text \<open>What a directory file written by \<open>save\<close> looks like: absent (the write
  failed after the rename) or the serialized directory.\<close>

definition saved_form :: "('d \<Rightarrow> raw_db) \<Rightarrow> fs_state \<Rightarrow> bool" where
  "saved_form ser f \<longleftrightarrow> db_file f = None \<or> (\<exists>db. db_file f = Some (Json (ser db)))"

lemma saved_form_save: "saved_form serialize (snd (save ok db f))"
  by (auto simp: saved_form_def save_def Let_def split: option.splits)

lemma load_saved_form:
  assumes "saved_form serialize f" and l: "load f = Inr db"
  shows "db = []"
proof -
  from assms(1) consider "db_file f = None" | d where "db_file f = Some (Json (serialize d))"
    by (auto simp: saved_form_def)
  then show ?thesis
  proof cases
    case 1
    with l show ?thesis by (simp add: load_def)
  next
    case (2 d)
    with l load_records_serialize [of d] show ?thesis by (cases "d = []") (simp_all add: load_def serialize_def)
  qed
qed

lemma save_step_fs: "save_step e db st = (out, st') \<Longrightarrow> fs st' = snd (save (write_ok e) db (fs st))"
  by (auto simp: save_step_def split: prod.splits option.splits)

text \<open>An action either leaves the directory files alone or saves.\<close>

lemma exec_fs:
  "exec e cmd db st = Some (out, st') \<Longrightarrow> fs st' = fs st \<or> (\<exists>ok db'. fs st' = snd (save ok db' (fs st)))"
proof (cases cmd)
  case UpdateDelivered
  assume "exec e cmd db st = Some (out, st')"
  with UpdateDelivered show ?thesis
    by (auto simp: update_delivered_action_def Let_def dest!: save_step_fs split: option.splits sum.splits)
      blast+
qed (auto simp: action_defs Let_def dest!: save_step_fs split: option.splits sum.splits if_splits)

lemma run_saved_form: "saved_form serialize (fs st) \<Longrightarrow> run e cmd st = Some (out, st') \<Longrightarrow> saved_form serialize (fs st')"
  by (auto simp: run_def saved_form_save dest!: exec_fs split: sum.splits)

lemma exec_cli_fs:
  "exec_cli e cmd db st = (out, st') \<Longrightarrow> fs st' = fs st \<or> (\<exists>ok db'. fs st' = snd (save ok db' (fs st)))"
  by (cases cmd) (auto simp: Let_def dest!: save_step_fs split: option.splits prod.splits outcome.splits)

lemma run_cli_saved_form:
  "saved_form serialize (fs st) \<Longrightarrow> run_cli_opt e cmd st = Some (out, st') \<Longrightarrow> saved_form serialize (fs st')"
  by (auto simp: run_cli_opt_def run_cli_def saved_form_save dest!: exec_cli_fs split: sum.splits)

lemma load_cli_saved_form:
  assumes "saved_form serialize f" and l: "load_cli f = Inr db"
  shows "db = []"
proof -
  from assms(1) consider "db_file f = None" | d where "db_file f = Some (Json (serialize d))"
    by (auto simp: saved_form_def)
  then show ?thesis
  proof cases
    case 1
    with l show ?thesis by (simp add: load_cli_def)
  next
    case (2 d)
    with l load_records_cli_serialize [of d] show ?thesis
      by (cases "d = []") (simp_all add: load_cli_def serialize_def)
  qed
qed

text \<open>In \<open>cli.js\<close> too, a fresh install only ever loads an empty directory.\<close>

lemma fresh_cli_never_loads_records:
  "db_file (fs st0) = None \<Longrightarrow> runs run_cli_opt st0 st \<Longrightarrow> load_cli (fs st) = Inr db \<Longrightarrow> db = []"
  using runs_invariant [of run_cli_opt st0 st "\<lambda>s. saved_form serialize (fs s)"] run_cli_saved_form load_cli_saved_form
  by (auto simp: saved_form_def)

subsection \<open>The fourth version and part_002\<close>

lemma saved_form_save_flags: "saved_form serialize_flags (snd (save_flags ok db f))"
  by (auto simp: saved_form_def save_flags_def Let_def split: option.splits)

lemma load_records_flags_serialize:
  "db \<noteq> [] \<Longrightarrow> load_records_flags (serialize_flags db) = Inl (NotIterable (fst (hd db)))"
  by (cases db) (auto simp: serialize_flags_def rehydrate_flags_def Let_def)

lemma load_flags_saved_form:
  assumes "saved_form serialize_flags f" and l: "load_flags f = Inr db"
  shows "db = []"
proof -
  from assms(1) consider "db_file f = None" | d where "db_file f = Some (Json (serialize_flags d))"
    by (auto simp: saved_form_def)
  then show ?thesis
  proof cases
    case 1
    with l show ?thesis by (simp add: load_flags_def)
  next
    case (2 d)
    with l load_records_flags_serialize [of d] show ?thesis
      by (cases "d = []") (simp_all add: load_flags_def serialize_flags_def)
  qed
qed

lemma save_step_v4_fs:
  "save_step_v4 e db st = (out, st') \<Longrightarrow> fs st' = snd (save_flags (write_ok e) db (fs st))"
  by (auto simp: save_step_v4_def split: prod.splits option.splits)

lemmas v4_action_defs = insert_action_v4_def export_action_v4_def cleanup_action_v4_def
  download_broken_v4_def download_delivered_v4_def mark_clean_v4_def mark_broken_v4_def
  download_broken_p2_def download_clean_p2_def

lemma exec_v4_fs:
  "exec_v4 e cmd db st = Some (out, st') \<Longrightarrow>
   fs st' = fs st \<or> (\<exists>ok db'. fs st' = snd (save_flags ok db' (fs st)))"
  by (cases cmd) (auto simp: v4_action_defs Let_def dest!: save_step_v4_fs split: option.splits sum.splits)

lemma exec_p2_fs:
  "exec_p2 e cmd db st = Some (out, st') \<Longrightarrow>
   fs st' = fs st \<or> (\<exists>ok db'. fs st' = snd (save_flags ok db' (fs st)))"
  by (cases cmd) (auto simp: v4_action_defs case_prod_beta dest!: save_step_v4_fs split: option.splits sum.splits)

lemma run_v4_saved_form:
  "saved_form serialize_flags (fs st) \<Longrightarrow> run_v4 e cmd st = Some (out, st') \<Longrightarrow> saved_form serialize_flags (fs st')"
  by (auto simp: run_v4_def saved_form_save_flags dest!: exec_v4_fs split: sum.splits)

lemma run_p2_saved_form:
  "saved_form serialize_flags (fs st) \<Longrightarrow> run_p2 e cmd st = Some (out, st') \<Longrightarrow> saved_form serialize_flags (fs st')"
  by (auto simp: run_p2_def saved_form_save_flags dest!: exec_p2_fs split: sum.splits)

text \<open>The fourth version and \<open>part_002\<close> share the flaw: from a fresh install
  they only ever load an empty directory.\<close>

lemma fresh_v4_never_loads_records:
  assumes f: "db_file (fs st0) = None" and r: "runs run_v4 st0 st" and l: "load_flags (fs st) = Inr db"
  shows "db = []"
proof -
  from f have "saved_form serialize_flags (fs st0)" by (simp add: saved_form_def)
  with r have "saved_form serialize_flags (fs st)" by (rule runs_invariant) (blast intro: run_v4_saved_form)
  with l show ?thesis by (blast intro: load_flags_saved_form)
qed

lemma fresh_p2_never_loads_records:
  assumes f: "db_file (fs st0) = None" and r: "runs run_p2 st0 st" and l: "load_flags (fs st) = Inr db"
  shows "db = []"
proof -
  from f have "saved_form serialize_flags (fs st0)" by (simp add: saved_form_def)
  with r have "saved_form serialize_flags (fs st)" by (rule runs_invariant) (blast intro: run_p2_saved_form)
  with l show ?thesis by (blast intro: load_flags_saved_form)
qed

subsection \<open>Properties\<close>

text \<open>C20: Starting from a fresh install, the program never gets to work on a
  non-empty directory: in every state any sequence of runs reaches, the directory
  file is absent or one \<open>save\<close> wrote, and \<open>load\<close> succeeds on it only when it
  is empty.  Each run that saves a non-empty directory leaves a file on which every
  later \<open>load\<close> fails.\<close>

theorem fresh_install_never_loads_records:
  "db_file (fs st0) = None \<Longrightarrow> runs run st0 st \<Longrightarrow> load (fs st) = Inr db \<Longrightarrow> db = []"
proof -
  assume f: "db_file (fs st0) = None" and r: "runs run st0 st" and l: "load (fs st) = Inr db"
  from f have "saved_form serialize (fs st0)" by (simp add: saved_form_def)
  with r have "saved_form serialize (fs st)" by (rule runs_invariant) (blast intro: run_saved_form)
  with l show ?thesis by (blast intro: load_saved_form)
qed

theorem fresh_install_never_loads_records_witness:
  "runs run fresh_state (fresh_state\<lparr>fs := \<lparr>db_file = Some (Json []), tmp_file = None\<rparr>\<rparr>) \<and>
   load \<lparr>db_file = Some (Json []), tmp_file = None\<rparr> = Inr []"
proof -
  let ?st = "fresh_state\<lparr>fs := \<lparr>db_file = Some (Json []), tmp_file = None\<rparr>\<rparr>"
  have "run sample_env CleanupCmd fresh_state = Some (Done [], ?st)"
    by (simp add: run_def fresh_state_def load_def action_defs cleanup_def cleanup_loop_def save_step_def
        save_def serialize_def sample_env_def)
  then have r: "runs run fresh_state ?st" by (blast intro: runs.intros)
  have l: "load (fs ?st) = Inr []" by (simp add: load_def)
  from fresh_install_never_loads_records [OF _ r l] r l show ?thesis by (simp add: fresh_state_def)
qed

text \<open>C24: A run of a command that saves a non-empty directory is the last one
  that changes anything: every later sequence of runs, whatever their commands and
  environments, leaves the files as they are, and each of them crashes in the
  module-level \<open>db.load()\<close>.\<close>

theorem saved_directory_dead_end:
  "saves cmd \<Longrightarrow> run e cmd st = Some (Done out, st1) \<Longrightarrow> db_file (fs st1) \<noteq> Some (Json []) \<Longrightarrow>
   runs run st1 st2 \<Longrightarrow> st2 = st1 \<and> (\<exists>err. run e' cmd' st2 = Some (Crashed err, st2))"
proof -
  assume s: "saves cmd" and r: "run e cmd st = Some (Done out, st1)"
    and ne: "db_file (fs st1) \<noteq> Some (Json [])" and rs: "runs run st1 st2"
  from saves_load_fails [OF s r ne] obtain err where l: "load (fs st1) = Inl err" by blast
  from rs have "st2 = st1" by (rule runs_stuck) (simp add: run_def l)
  with l show ?thesis by (simp add: run_def)
qed

theorem saved_directory_dead_end_witness:
  "\<exists>st1 err. run sample_env (MarkClean ''in.txt'') sample_state = Some (Done [], st1) \<and>
     runs run st1 st1 \<and> run sample_env TagsCmd st1 = Some (Crashed err, st1)"
proof -
  let ?db = "[(''a@x.com'', \<lparr>tags = [''t1''], loc = None, status = Some Dirty,
      broken_flag = False, lastDelivered = None\<rparr>)]"
  let ?st1 = "sample_state\<lparr>fs := \<lparr>db_file = Some (Json (serialize ?db)),
      tmp_file = db_file (fs sample_state)\<rparr>\<rparr>"
  have r: "run sample_env (MarkClean ''in.txt'') sample_state = Some (Done [], ?st1)"
    by (simp add: run_def action_defs sample_state_def sample_env_def load_def rehydrate_def js_set_of_def
        js_set_add_def readEmailFile_def filterEmail_def search.simps email_regex_defs save_step_def
        save_def)
  have ne: "db_file (fs ?st1) \<noteq> Some (Json [])" by (simp add: serialize_def)
  from saved_directory_dead_end [OF _ r ne runs_refl, of sample_env TagsCmd] r
  show ?thesis by (auto intro: runs_refl)
qed

end
