(* ===== verification/Spec2Isabelle.thy ===== *)
theory Spec2Isabelle
  imports Query Mutations Pagination Commands Legacy Flags First_Version Flag_Commands Runs
begin

text \<open>
  A verification library for the email-db command-line tool (hedin-hiervard/email-db):
  a persistent directory of email addresses, each with a set of tags, an optional
  locale, a delivery status and the time of the last delivery, filled from text
  files, queried by tag, locale, status and recency, and kept in step with the
  Mailgun event log.  The repository holds several iterations of one program in
  \<open>src/\<close>: \<open>src/unnamed/part_001\<close> is the most developed (the status enum,
  \<open>lastDelivered\<close>, pagination and the delivery commands) and is the one the
  library models; \<open>src/src/cli.js\<close>, \<open>src/unnamed/part_000\<close> and
  \<open>src/unnamed/part_002\<close> are earlier versions of the same file
  (\<open>part_000\<close> holds two of them, one after the other).  Line numbers below are
  those of \<open>part_001\<close> unless another file is named.

  \<^bold>\<open>Parts and theories.\<close>
  \<^item> \<open>Prelude\<close>: the model's type names (\<open>email\<close>, \<open>tag\<close>, \<open>locale_t\<close>,
    \<open>timestamp\<close>) and the JavaScript runtime behaviour the code relies on:
    truthiness of an optional string (\<open>js_truthy\<close>), insertion-ordered
    \<open>Set\<close>s as duplicate-free lists (\<open>js_set_add\<close>, \<open>js_set_of\<close>),
    \<open>split\<close>/\<open>join\<close> with a one-character separator, and objects as
    association lists (\<open>AList.update\<close> is \<open>obj[k] = v\<close>, \<open>AList.delete\<close> is
    \<open>delete obj[k]\<close>, \<open>keys\<close> is the \<open>for ... in\<close> order).
  \<^item> \<open>Regex\<close>: the backtracking semantics of an ECMAScript regular expression
    (\<open>ends r s\<close>, the remainders of \<open>s\<close> after a match of \<open>r\<close>, in the
    engine's priority order) and \<open>search\<close>, the first match of
    \<open>String.prototype.match\<close>.  It is proved sound and complete for the
    language semantics \<open>matches\<close> (\<open>ends_iff\<close>), and \<open>search\<close> is
    idempotent (\<open>search_idem\<close>).  A greedy star is unfolded with fuel
    \<open>length s\<close>: each iteration consumes a character, so that much fuel is
    always enough (\<open>star_fuel_cong\<close>), and an empty iteration is cut as
    ECMAScript's empty-check does.
  \<^item> \<open>Normalizer\<close>: \<open>EmailRegex\<close> (line 14), \<open>filterEmail\<close> (31--37),
    \<open>readEmailFile\<close>/\<open>saveEmailFile\<close> on file contents (39--63) and
    \<open>guessEmailLocale\<close> (68--73).
  \<^item> \<open>Store\<close>: the record (16--29: \<open>email_rec\<close>, \<open>status\<close>), the directory
    \<open>db\<close> and its invariant \<open>wf_db\<close>, the persisted JSON form
    (\<open>raw_rec\<close>, \<open>file_contents\<close>) and the two files (\<open>fs_state\<close>),
    \<open>load\<close> (75--93, \<open>rehydrate\<close> per record), \<open>save\<close> (95--100,
    \<open>serialize_rec\<close> per record), \<open>lookupByRegexp\<close>, \<open>allTags\<close>,
    \<open>tags_of\<close>, \<open>totalEmails\<close>.  Errors are values: \<open>load\<close> returns
    \<open>error + db\<close>, \<open>save\<close> an \<open>error option\<close> with the new files.
  \<^item> \<open>JS_Number\<close>: the JavaScript conversions the \<open>coldDays\<close> gate of
    \<open>lookup\<close> (137--139) applies to what the caller passes: \<open>ToBoolean\<close>
    (\<open>prim_truthy\<close>), \<open>ToNumber\<close> of a string by the
    \<open>StringNumericLiteral\<close> grammar (\<open>str_to_number\<close>: white space, sign,
    fraction, exponent, \<open>Infinity\<close>, \<open>0x\<close>/\<open>0o\<close>/\<open>0b\<close>, else
    \<open>NaN\<close>) and \<open>d < x\<close> (\<open>int_less\<close>).  Numbers are exact rationals.
  \<^item> \<open>Query\<close>: \<open>lookup\<close> (112--158) with its loop body \<open>lookup_entry\<close>,
    the abstract contract \<open>lookup_spec\<close> and the refinement proof.
  \<^item> \<open>Mutations\<close>: \<open>insert\<close> (181--227) as \<open>insert_db\<close>, one line at a
    time by \<open>insert_line\<close>; \<open>cleanup\<close> (229--250, \<open>cleanup_step\<close> per key),
    \<open>setStatus\<close> (256--268) and \<open>setLastDelivered\<close> (270--281).  Each takes the
    directory and returns the new one with the method's counters.
  \<^item> \<open>Pagination\<close>: \<open>pageAll\<close> (447--471) as a \<open>partial_function (option)\<close>
    over a page provider, with \<open>String.prototype.split\<close> by a string
    (\<open>split_str\<close>) for the cursor URL.
  \<^item> \<open>Commands\<close>: one run of the program (\<open>run\<close>: the module-level
    \<open>db.load()\<close>, then one \<open>commander\<close> action, \<open>exec\<close>), with
    \<open>emailToString\<close> (283--299), \<open>makeFilename\<close> (365--391) and every action
    (321--593), one definition each.  The environment (clock, Mailgun endpoints and
    settings, whether the directory write succeeds) is the record \<open>env\<close>; the
    state is the two directory files, a map of text files and the messages sent.
  \<^item> \<open>Runs\<close>: sequences of invocations of the program, \<open>runs R\<close>, an
    inductive relation on \<open>cli_state\<close> parametrised by the program \<open>R\<close> (each
    step with its own environment and command), and the invariants of the states
    it reaches, by rule induction (\<open>runs_invariant\<close>, \<open>runs_stuck\<close>).
  \<^item> \<open>Legacy\<close>: the first version, \<open>src/src/cli.js\<close>: \<open>load\<close> without the
    status migration, \<open>lookup\<close> with only the tag and locale gates, \<open>insert\<close>
    creating records without a status, \<open>cleanup\<close> and its four commands, related to
    the later version by refinement lemmas.
  \<^item> \<open>Flags\<close>: the intermediate version \<open>src/unnamed/part_002\<close>, with the
    boolean \<open>broken\<close>/\<open>clean\<close> flags, its \<open>lookup\<close> with \<open>cleanOnly\<close> and
    \<open>dirtyOnly\<close>, \<open>markAsBroken\<close>, \<open>markAsClean\<close>, its \<open>export\<close> action and
    the effect of its Mailgun actions, and the status migration of the later
    \<open>load\<close> (\<open>migrate\<close>), shown to preserve its clean-only and default queries.
  \<^item> \<open>First_Version\<close>: the first store, \<open>part_000\<close> lines 520--755, whose
    \<open>load\<close> keeps the parsed JSON, so that a record's \<open>tags\<close> is at run time
    an array, a \<open>Set\<close>, \<open>{}\<close> or absent (\<open>tags_v1\<close>); \<open>Array.from\<close>
    (\<open>array_from\<close>), iteration (\<open>iterate_tags\<close>) and \<open>JSON.stringify\<close>
    (\<open>json_of_tags\<close>) treat the four differently, and a \<open>TypeError\<close> is
    the value \<open>Inl (NotIterable e)\<close>.  Its \<open>lookup\<close>, \<open>allTags\<close>,
    \<open>insert\<close>, \<open>cleanup\<close> and four commands (\<open>run_v1\<close>).
  \<^item> \<open>Flag_Commands\<close>: the fourth version, \<open>part_000\<close> lines 1--519, on the
    flag records of \<open>Flags\<close>: \<open>save\<close>, \<open>insert\<close>, \<open>cleanup\<close>,
    \<open>allTags\<close>, \<open>lookupByRegexp\<close>, the changed \<open>markAsBroken\<close> and
    \<open>markAsClean\<close>, \<open>emailToString\<close>, \<open>makeFilename\<close> and its ten
    \<open>commander\<close> actions, one definition each, dispatched by \<open>exec_v4\<close>
    after the module-level \<open>load_flags\<close> (\<open>run_v4\<close>); and the program of
    \<open>part_002\<close> (\<open>run_p2\<close>, \<open>exec_p2\<close>) on the same definitions.

  The components interact through the directory: the commands of the CLI load it,
  run one or more mutations or a query, and save it.  The properties that span
  components (a record's life across \<open>load\<close>, a mutation, \<open>save\<close> and the
  next \<open>load\<close>; what a loaded legacy record looks like to a query) are proved in
  this theory.

  \<^bold>\<open>What is proved.\<close>  The normalizer returns a substring of the line in the
  address grammar, in normal form, with no line break, and the text-file format
  round-trips.  Every mutation preserves \<open>wf_db\<close>; \<open>cleanup\<close> leaves only
  normal addresses, is idempotent and its counters add up; \<open>insert\<close> serves every
  address of the file, leaves every other record alone and is idempotent;
  \<open>setStatus\<close> and \<open>setLastDelivered\<close> have their exact effect and counts.  The
  query refines \<open>lookup_spec\<close>.  \<open>load\<close> of a well-formed file gives a
  well-formed directory; \<open>allTags\<close> and \<open>lookupByRegexp\<close> compute what they
  describe.  The drain returns the pages' items in order when its cursor chain ends,
  and runs forever when the chain leaves the Mailgun host or cycles.  At the level of
  the program, \<open>export\<close> writes what \<open>query\<close> prints and reads back as it,
  an invalid status exits before any change, and \<open>--cold-days N\<close>, passed on as
  the typed string, excludes exactly the addresses delivered fewer than \<open>N\<close>
  whole days ago (\<open>Commands.cold_days_numeral\<close>).  The later \<open>lookup\<close> and
  \<open>insert\<close> refine the ones of \<open>cli.js\<close>, and the fourth version's
  \<open>insert\<close> refines \<open>cli.js\<close>'s through the status migration
  (\<open>Flag_Commands.insert_v4_refines\<close>); its \<open>markAsBroken\<close> computes what
  \<open>part_002\<close>'s does.  The counters of \<open>insert\<close> are bounded by the file
  (\<open>Mutations.insert_counts_bounded\<close>), and the first version is type-safe on
  the records it builds: no operation throws on a directory whose tags are all
  iterable, and every operation keeps them so
  (\<open>First_Version.first_iterable_type_safe\<close>).

  The modelling also shows where the code departs from what it means to do:
  \<open>save\<close> writes each \<open>Set\<close> of tags as \<open>{}\<close>, so the next \<open>load\<close>
  fails (\<open>Store.save_then_load_fails\<close>); the migration keeps the legacy
  \<open>broken\<close> flag, so a legacy broken address marked clean is saved with
  \<open>broken: true\<close> beside \<open>status: clean\<close> (\<open>legacy_broken_flag_saved\<close>); a legacy record without flags or status has no
  status rather than \<open>dirty\<close> (\<open>legacy_unflagged_invisible\<close>); \<open>insert\<close>
  counts a new address as updated too, takes only the first address of a line, and
  \<open>cleanup\<close> loses a record when two keys normalize to the same address.  Every
  command that saves leaves a file on which the next run crashes, and no later run
  ever changes anything again (\<open>Runs.saved_directory_dead_end\<close>; in
  \<open>cli.js\<close> even \<open>query\<close> saves).  So from a fresh install the program only
  ever loads an empty directory (\<open>Runs.fresh_install_never_loads_records\<close>,
  and likewise \<open>cli.js\<close>, the fourth version and \<open>part_002\<close>:
  \<open>Runs.fresh_cli_never_loads_records\<close>, \<open>Runs.fresh_v4_never_loads_records\<close>,
  \<open>Runs.fresh_p2_never_loads_records\<close>).  The drain never ends when the cursor URL is on another host or
  cycles, although the spec credits the empty-page check with preventing that.
  \<open>--cold-days 0\<close> is the truthy string \<open>''0''\<close>, so it still drops
  addresses whose delivery time lies in the future, and a non-numeric value filters
  nothing.  \<open>makeFilename\<close> writes the month where the minutes belong, and
  \<open>update_delivered\<close> keeps the oldest delivery time when events come newest
  first.  In the first version only \<open>save\<close> and \<open>load\<close> break the type of
  \<open>tags\<close>: an imported address is found by no tag query on the next run
  (\<open>First_Version.first_insert_tags_lost\<close>).  In the fourth version
  \<open>export\<close> ignores \<open>--clean-only\<close> and \<open>--dirty-only\<close>
  (\<open>Flag_Commands.export_v4_ignores_filters\<close>), and \<open>mark_clean\<close> and
  \<open>mark_broken\<close> do not commute: cleaning then breaking leaves an address broken
  for good (\<open>Flag_Commands.mark_clean_broken_order\<close>).

  \<^bold>\<open>Bounds and fuel.\<close>  The only fuel of a definition is the regex star's,
  \<open>length s\<close>, which is always enough (each iteration consumes a character).
  \<open>pageAll\<close> has no fuel: it may not return, and \<open>None\<close> is that outcome;
  that it returns on a finite cursor chain is a theorem (\<open>pageAll_chain\<close>).

  \<^bold>\<open>Not modelled.\<close>  The libraries the code only calls: the Mailgun HTTP
  client (its pages are parameters, and whether it accepts a message is
  \<open>send_ok\<close>) and MailComposer's MIME compilation in \<open>send\<close> (the message is
  its fields); the logger and the Youch crash reporter, which only print; \<open>commander\<close>'s parsing (the actions take
  the parsed arguments); progress log messages and the crash reporter's output;
  failures of text-file reads other than a missing file and of text-file writes;
  the clock (\<open>moment()\<close> is a parameter of the environment), and with it
  moment's daylight-saving correction of a whole-day difference
  (\<open>days_diff\<close> counts days of 86400 seconds); the rounding of a numeric
  string to a double (\<open>JS_Number\<close>); characters beyond 8-bit code units
  (\<open>EmailRegex\<close>'s \<open>\s\<close> and the white space of \<open>ToNumber\<close> cover
  Latin-1 only); a failing \<open>renameSync\<close> in \<open>save\<close> (only the write
  may fail); a Mailgun page without \<open>paging.next\<close>, on which \<open>pageAll\<close>
  throws (every modelled page carries a cursor URL); fields of a stored record
  outside \<open>email_rec\<close>, which JavaScript keeps across \<open>load\<close> and
  \<open>save\<close> (\<open>cli.js\<close>'s \<open>load\<close> leaves a legacy \<open>clean\<close> flag
  in place, where \<open>rehydrate_cli\<close> drops it); JavaScript's
  enumeration of integer-like object keys before the others (it matters for tag
  names such as \<open>2019\<close> in \<open>allTags\<close>).  Code that one version shares
  character for character with another is modelled once: the fourth version's
  \<open>load\<close> and \<open>lookup\<close> are \<open>part_002\<close>'s, and its \<open>pageAll\<close> and
  \<open>readEmailFile\<close> are \<open>part_001\<close>'s (\<open>filterEmail\<close> is the later
  \<open>filter\<close> of \<open>cli.js\<close> and \<open>part_002\<close> and the \<open>filter\<close> of the
  first version); \<open>part_002\<close>'s \<open>save\<close>, \<open>insert\<close>, \<open>cleanup\<close>,
  \<open>allTags\<close> and its \<open>insert\<close>, \<open>tags\<close> and \<open>cleanup\<close> actions are
  the fourth version's text, and its program \<open>run_p2\<close> uses those definitions.
\<close>

definition sample_legacy_raw :: "bool \<Rightarrow> raw_rec" where
  "sample_legacy_raw b = \<lparr>r_tags = JArray [''t''], r_locale = None, r_status = None, r_broken = b,
     r_clean = False, r_lastDelivered = None\<rparr>"

text \<open>C18: A legacy record with neither a \<open>status\<close> nor a flag loads with no
  status at all, not as \<open>dirty\<close>, and a query for \<open>status=dirty\<close> does not
  return it.\<close>

theorem legacy_unflagged_invisible:
  "r_status rr = None \<Longrightarrow> \<not> r_broken rr \<Longrightarrow> \<not> r_clean rr \<Longrightarrow> rehydrate e rr = Inr r \<Longrightarrow>
   wf_db db \<Longrightarrow> map_of db e = Some r \<Longrightarrow> q_status q = Some Dirty \<Longrightarrow>
   status r = None \<and> map_of (lookup now q db) e = None"
proof -
  assume "r_status rr = None" "\<not> r_broken rr" "\<not> r_clean rr" and r: "rehydrate e rr = Inr r"
  then have st: "status r = None"
    by (auto simp: rehydrate_def Let_def split: json_tags.splits)
  assume "wf_db db" "map_of db e = Some r" "q_status q = Some Dirty"
  with st show ?thesis by (simp add: lookup_def wf_db_def map_of_fold_update lookup_entry_def)
qed

theorem legacy_unflagged_invisible_witness:
  "status \<lparr>tags = [''t''], loc = None, status = None, broken_flag = False, lastDelivered = None\<rparr> = None \<and>
   map_of (lookup 0 \<lparr>q_tags = [], q_locale = None, q_status = Some Dirty, q_coldDays = None\<rparr>
     [(''a@x.com'', \<lparr>tags = [''t''], loc = None, status = None, broken_flag = False,
        lastDelivered = None\<rparr>)]) ''a@x.com'' = None"
proof (rule legacy_unflagged_invisible)
  show "rehydrate ''a@x.com'' (sample_legacy_raw False) =
    Inr \<lparr>tags = [''t''], loc = None, status = None, broken_flag = False, lastDelivered = None\<rparr>"
    by (simp add: rehydrate_def sample_legacy_raw_def js_set_of_def js_set_add_def)
qed (simp_all add: sample_legacy_raw_def)

text \<open>The migration keeps the legacy \<open>broken\<close> flag on the record: once a
  legacy broken address is marked clean, \<open>save\<close> writes \<open>status: clean\<close>
  next to \<open>broken: true\<close>, and \<open>load\<close> lets the flag win.  Only the
  \<open>{}\<close> written for the tags (\<open>Store.save_then_load_fails\<close>) stands between
  this record and its return to \<open>broken\<close>.\<close>

lemma legacy_broken_flag_saved:
  "rehydrate e rr = Inr r \<Longrightarrow> r_broken rr \<Longrightarrow> fst (setStatus [e] Clean [(e, r)]) = [(e, r')] \<Longrightarrow>
   r_status (serialize_rec r') = Some Clean \<and> r_broken (serialize_rec r')"
  by (auto simp: rehydrate_def serialize_rec_def Let_def split: json_tags.splits)

end
